theory Spec2Isabelle
  imports Main "HOL-Library.Word" "HOL-Library.AList"
begin

section \<open>Data model of the initialization engine\<close>

text \<open>
  The Go types of \<^verbatim>\<open>initialization/initialization.go\<close> and
  \<^verbatim>\<open>cmd/postcli/main.go\<close>: \<^verbatim>\<open>uint64\<close> is a 64-bit word,
  \<^verbatim>\<open>uint32\<close> a 32-bit word, \<^verbatim>\<open>[]byte\<close> a list of 8-bit words
  (a nil slice and an empty slice are both the empty list, as \<^verbatim>\<open>bytes.Equal\<close> and
  \<^verbatim>\<open>bytes.Compare\<close> treat them), a pointer that may be nil an option.
\<close>

type_synonym byte = "8 word"
type_synonym u32 = "32 word"
type_synonym u64 = "64 word"

text \<open>\<^verbatim>\<open>shared.ConfigMismatchError\<close>, as \<^verbatim>\<open>verifyMetadata\<close> fills it.\<close>

record ConfigMismatchError =
  Param :: string
  Expected :: string
  Found :: string
  err_DataDir :: string

text \<open>
  The error values \<^verbatim>\<open>Initialize\<close>, \<^verbatim>\<open>Reset\<close> and
  \<^verbatim>\<open>verifyMetadata\<close> return. \<open>ErrNoNonceFound\<close> is
  \<^verbatim>\<open>fmt.Errorf("no nonce found")\<close>, \<open>ContextErr\<close> is \<^verbatim>\<open>ctx.Err()\<close>,
  \<open>OracleErr\<close> and \<open>IOErr\<close> are errors handed up from the work oracle and from the
  file system, \<open>OptionErr\<close> the errors of the option validation, \<open>IndexPanic\<close> is the run-time panic of a slice expression out of range.
\<close>

datatype error =
    ErrAlreadyInitializing
  | ErrCannotResetWhileInitializing
  | ErrStateMetadataFileMissing
  | ConfigMismatch ConfigMismatchError
  | ErrNoNonceFound
  | ContextErr
  | OracleErr string
  | IOErr string
  | OptionErr string
  | IndexPanic

record Config =
  LabelsPerUnit :: u64

record InitOpts =
  DataDir :: string
  NumUnits :: u32
  MaxFileSize :: u64
  ProviderID :: string
  ComputeBatchSize :: u64
  FromFileIdx :: int
  ToFileIdx :: "int option"

text \<open>\<^verbatim>\<open>shared.PostMetadata\<close>, the record of the metadata file.\<close>

record PostMetadata =
  m_NodeId :: "byte list"
  m_CommitmentAtxId :: "byte list"
  m_LabelsPerUnit :: u64
  m_NumUnits :: u32
  m_MaxFileSize :: u64
  m_Nonce :: "u64 option"
  m_LastPosition :: "u64 option"

text \<open>
  The \<^verbatim>\<open>Initializer\<close> struct. \<open>mtx\<close> is \<open>True\<close> while the
  \<^verbatim>\<open>sync.RWMutex\<close> is write-locked. The last three fields are the part of the world
  the methods act on: the label files of \<^verbatim>\<open>opts.DataDir\<close> (file index and
  content, what \<^verbatim>\<open>diskState\<close> inspects), the metadata file of that directory
  (absent or holding one record), and a clock that advances at every call that leaves the
  package, so that the environment may answer each call differently.
\<close>

record Initializer =
  nodeId :: "byte list"
  commitmentAtxId :: "byte list"
  commitment :: "byte list"
  cfg :: Config
  opts :: InitOpts
  nonceValue :: "byte list option"
  nonce :: "u64 option"
  lastPosition :: "u64 option"
  numLabelsWritten :: u64
  mtx :: bool
  files :: "(nat \<times> byte list) list"
  metadata :: "PostMetadata option"
  clock :: nat

section \<open>Formatting\<close>

text \<open>\<^verbatim>\<open>fmt.Sprintf("%x", b)\<close> of a byte slice: two lower-case hex digits a byte.\<close>

definition hexDigit :: "nat \<Rightarrow> char" where
  "hexDigit n = ''0123456789abcdef'' ! (n mod 16)"

definition sprintf_x :: "byte list \<Rightarrow> string" where
  "sprintf_x bs = concat (map (\<lambda>b. [hexDigit (unat b div 16), hexDigit (unat b mod 16)]) bs)"

text \<open>\<^verbatim>\<open>fmt.Sprintf("%d", n)\<close> of an unsigned integer.\<close>

definition decDigit :: "nat \<Rightarrow> char" where
  "decDigit n = ''0123456789'' ! (n mod 10)"

fun sprintf_d :: "nat \<Rightarrow> string" where
  "sprintf_d n = (if n < 10 then [decDigit n] else sprintf_d (n div 10) @ [decDigit (n mod 10)])"

declare sprintf_d.simps [simp del]

section \<open>Metadata verification\<close>

text \<open>
  \<^verbatim>\<open>verifyMetadata\<close> (initialization.go, lines 536 to 583): \<open>None\<close> is the
  \<^verbatim>\<open>nil\<close> error. The checks run in the order of the source.
\<close>

definition verifyMetadata :: "Initializer \<Rightarrow> PostMetadata \<Rightarrow> error option" where
  "verifyMetadata init m =
     (if nodeId init \<noteq> m_NodeId m then
        Some (ConfigMismatch \<lparr>Param = ''NodeId'',
          Expected = sprintf_x (nodeId init),
          Found = sprintf_x (m_NodeId m),
          err_DataDir = DataDir (opts init)\<rparr>)
      else if commitmentAtxId init \<noteq> m_CommitmentAtxId m then
        Some (ConfigMismatch \<lparr>Param = ''CommitmentAtxId'',
          Expected = sprintf_x (commitmentAtxId init),
          Found = sprintf_x (m_CommitmentAtxId m),
          err_DataDir = DataDir (opts init)\<rparr>)
      else if LabelsPerUnit (cfg init) \<noteq> m_LabelsPerUnit m then
        Some (ConfigMismatch \<lparr>Param = ''LabelsPerUnit'',
          Expected = sprintf_d (unat (LabelsPerUnit (cfg init))),
          Found = sprintf_d (unat (m_LabelsPerUnit m)),
          err_DataDir = DataDir (opts init)\<rparr>)
      else if MaxFileSize (opts init) \<noteq> m_MaxFileSize m then
        Some (ConfigMismatch \<lparr>Param = ''MaxFileSize'',
          Expected = sprintf_d (unat (MaxFileSize (opts init))),
          Found = sprintf_d (unat (m_MaxFileSize m)),
          err_DataDir = DataDir (opts init)\<rparr>)
      else if NumUnits (opts init) > m_NumUnits m then
        Some (ConfigMismatch \<lparr>Param = ''NumUnits'',
          Expected = ''>= '' @ sprintf_d (unat (NumUnits (opts init))),
          Found = sprintf_d (unat (m_NumUnits m)),
          err_DataDir = DataDir (opts init)\<rparr>)
      else None)"

text \<open>
  The four equality checks of \<^verbatim>\<open>verifyMetadata\<close>, named for the statements below.
\<close>

definition sameIdentity :: "Initializer \<Rightarrow> PostMetadata \<Rightarrow> bool" where
  "sameIdentity init m \<longleftrightarrow>
     nodeId init = m_NodeId m \<and> commitmentAtxId init = m_CommitmentAtxId m \<and>
     LabelsPerUnit (cfg init) = m_LabelsPerUnit m \<and> MaxFileSize (opts init) = m_MaxFileSize m"

text \<open>A requested configuration and a stored record that differ in \<open>NumUnits\<close> only.\<close>

definition exampleInit :: "u32 \<Rightarrow> Initializer" where
  "exampleInit n =
     \<lparr>nodeId = replicate 32 1, commitmentAtxId = replicate 32 2, commitment = [],
      cfg = \<lparr>LabelsPerUnit = 4\<rparr>,
      opts = \<lparr>DataDir = ''data'', NumUnits = n, MaxFileSize = 32, ProviderID = ''0'',
              ComputeBatchSize = 2, FromFileIdx = 0, ToFileIdx = None\<rparr>,
      nonceValue = None, nonce = None, lastPosition = None, numLabelsWritten = 0,
      mtx = False, files = [], metadata = None, clock = 0\<rparr>"

definition exampleMeta :: "u32 \<Rightarrow> PostMetadata" where
  "exampleMeta n =
     \<lparr>m_NodeId = replicate 32 1, m_CommitmentAtxId = replicate 32 2, m_LabelsPerUnit = 4,
      m_NumUnits = n, m_MaxFileSize = 32, m_Nonce = None, m_LastPosition = None\<rparr>"

section \<open>Command-line flags\<close>

text \<open>
  The values the \<^verbatim>\<open>flag\<close> package has parsed when \<^verbatim>\<open>flag.Parse()\<close>
  returns in \<^verbatim>\<open>parseFlags\<close> (main.go, lines 43 to 68); a flag that is not given
  holds its default. \<open>flag_numUnits\<close> is the \<^verbatim>\<open>uint64\<close> behind
  \<^verbatim>\<open>flag.Uint64("numUnits", ...)\<close>.
\<close>

record Flags =
  flag_datadir :: string
  flag_maxFileSize :: u64
  flag_provider :: string
  flag_labelsPerUnit :: u64
  flag_numUnits :: u64
  flag_fromFile :: int
  flag_toFile :: int

text \<open>\<^verbatim>\<open>math.MaxInt\<close> on a 64-bit platform.\<close>

definition MaxInt :: int where
  "MaxInt = 2 ^ 63 - 1"

text \<open>
  \<^verbatim>\<open>parseFlags\<close>: the package variables \<^verbatim>\<open>cfg\<close> and \<^verbatim>\<open>opts\<close>
  after the call. The conversion \<^verbatim>\<open>uint32(*numUnits)\<close> keeps the low 32 bits.
\<close>

definition parseFlags :: "Flags \<Rightarrow> Config \<times> InitOpts \<Rightarrow> Config \<times> InitOpts" where
  "parseFlags fl co =
     (case co of (c, io) \<Rightarrow>
        (c\<lparr>LabelsPerUnit := flag_labelsPerUnit fl\<rparr>,
         io\<lparr>DataDir := flag_datadir fl,
           MaxFileSize := flag_maxFileSize fl,
           ProviderID := flag_provider fl,
           FromFileIdx := flag_fromFile fl,
           ToFileIdx := (if flag_toFile fl \<noteq> MaxInt then Some (flag_toFile fl) else ToFileIdx io),
           NumUnits := ucast (flag_numUnits fl)\<rparr>))"

section \<open>Partition of the files among the providers\<close>

text \<open>
  Go's \<^verbatim>\<open>int\<close> is a 64-bit signed integer: \<open>int64\<close> is the wrap-around of its
  arithmetic, \<open>quo\<close> its division, which truncates towards zero.
\<close>

definition int64 :: "int \<Rightarrow> int" where
  "int64 x = (x + 2 ^ 63) mod 2 ^ 64 - 2 ^ 63"

definition quo :: "int \<Rightarrow> int \<Rightarrow> int" where
  "quo a b = int64 (sgn a * sgn b * (\<bar>a\<bar> div \<bar>b\<bar>))"

text \<open>
  The body of the loop of \<^verbatim>\<open>main\<close> (main.go, lines 146 to 167) for provider
  \<open>w\<close>: the pair \<^verbatim>\<open>(opts.FromFileIdx, *opts.ToFileIdx)\<close> handed to
  \<^verbatim>\<open>do\<close>, both bounds inclusive. \<open>n\<close> is \<^verbatim>\<open>ProviderIDs_len\<close>, which is
  at least one since \<^verbatim>\<open>strings.Split\<close> returns at least one element.
\<close>

definition providerRange :: "int \<Rightarrow> int \<Rightarrow> int \<Rightarrow> int \<times> int" where
  "providerRange totalFiles n w =
     (let each_Files = quo totalFiles n;
          fromFileIdx = int64 (w * each_Files)
      in if w = int64 (n - 1) then (fromFileIdx, int64 (totalFiles - 1))
         else (fromFileIdx, int64 (int64 (int64 (w + 1) * each_Files) - 1)))"

text \<open>The ranges in the order the loop launches the providers.\<close>

definition providerRanges :: "int \<Rightarrow> int \<Rightarrow> (int \<times> int) list" where
  "providerRanges totalFiles n = map (providerRange totalFiles n) [0..n - 1]"

text \<open>File index \<open>i\<close> lies in the inclusive range \<open>r\<close>.\<close>

definition inRange :: "int \<Rightarrow> int \<times> int \<Rightarrow> bool" where
  "inRange i r \<longleftrightarrow> fst r \<le> i \<and> i \<le> snd r"

section \<open>The environment of the engine\<close>

text \<open>
  The calls that leave the package, by kind. The environment says for each kind and each
  instant whether the call fails there, and with which error.
\<close>

datatype IoOp =
    OpDiskNumLabelsWritten
  | OpDiskNumFilesWritten
  | OpReadDir
  | OpRemoveFile
  | OpNewLabelsWriter
  | OpWriterNumLabelsWritten
  | OpTruncate
  | OpWrite
  | OpFlush
  | OpSaveMetadata
  | OpLoadMetadata
  | OpOracleNew

text \<open>\<^verbatim>\<open>filesLayout\<close>, the result of \<^verbatim>\<open>deriveFilesLayout\<close>.\<close>

record filesLayout =
  NumFiles :: u64
  FileNumLabels :: u64
  LastFileNumLabels :: u64

text \<open>The result of \<^verbatim>\<open>wo.Positions\<close>: the label bytes and the nonce it reports.\<close>

record PositionsResult =
  Output :: "byte list"
  res_Nonce :: "u64 option"

text \<open>
  What the code under verification calls and this development does not define:
  \<^verbatim>\<open>deriveFilesLayout\<close>, \<^verbatim>\<open>oracle.CommitmentBytes\<close>,
  \<^verbatim>\<open>config.Validate\<close>, the work oracle's
  \<^verbatim>\<open>Positions\<close> (of the oracle built from the commitment and the difficulty), the
  cancellation of the context, and the failures of the file system. The first argument of
  \<open>Positions\<close>, and the argument of \<open>ctxDone\<close>, is the instant of the call. A failure
  of the environment is a message: the engine sees it as an \<open>OracleErr\<close>, an \<open>IOErr\<close>
  or an \<open>OptionErr\<close>, never as one of the errors the package itself makes.
\<close>

record Env =
  deriveFilesLayout :: "Config \<Rightarrow> InitOpts \<Rightarrow> filesLayout"
  CommitmentBytes :: "byte list \<Rightarrow> byte list \<Rightarrow> byte list"
  Validate :: "Config \<Rightarrow> InitOpts \<Rightarrow> string option"
  Positions :: "nat \<Rightarrow> u64 \<Rightarrow> u64 \<Rightarrow> string + PositionsResult"
  ctxDone :: "nat \<Rightarrow> bool"
  ioErr :: "IoOp \<Rightarrow> nat \<Rightarrow> string option"

definition tick :: "Initializer \<Rightarrow> Initializer" where
  "tick s = s\<lparr>clock := Suc (clock s)\<rparr>"

text \<open>\<^verbatim>\<open>math.MaxUint64\<close>.\<close>

definition MaxUint64 :: u64 where
  "MaxUint64 = 18446744073709551615"

section \<open>Label files and the metadata file\<close>

text \<open>
  Modelled from the spec: \<^verbatim>\<open>config.BitsPerLabel\<close> is not among the sources; a label
  is 16 bytes (section 6 of the specification, and the slice arithmetic of
  \<^verbatim>\<open>initFile\<close>).
\<close>

definition labelSize :: nat where
  "labelSize = 16"

definition fileContent :: "Initializer \<Rightarrow> nat \<Rightarrow> byte list" where
  "fileContent s i = (case map_of (files s) i of None \<Rightarrow> [] | Some c \<Rightarrow> c)"

text \<open>
  Modelled from the spec: \<^verbatim>\<open>DiskState\<close> is not among the sources. Its
  \<^verbatim>\<open>NumLabelsWritten\<close> is the count of labels durably written, computed from the
  sizes of the label files, and \<^verbatim>\<open>NumFilesWritten\<close> the count of label files (a
  directory lists a file once).
\<close>

definition labelsOnDisk :: "Initializer \<Rightarrow> u64" where
  "labelsOnDisk s = of_nat (sum_list (map (\<lambda>f. length (snd f)) (files s)) div labelSize)"

definition diskState_NumLabelsWritten :: "Env \<Rightarrow> Initializer \<Rightarrow> (error + u64) \<times> Initializer" where
  "diskState_NumLabelsWritten env s =
     (case ioErr env OpDiskNumLabelsWritten (clock s) of
        Some e \<Rightarrow> (Inl (IOErr e), tick s)
      | None \<Rightarrow> (Inr (labelsOnDisk s), tick s))"

definition diskState_NumFilesWritten :: "Env \<Rightarrow> Initializer \<Rightarrow> (error + int) \<times> Initializer" where
  "diskState_NumFilesWritten env s =
     (case ioErr env OpDiskNumFilesWritten (clock s) of
        Some e \<Rightarrow> (Inl (IOErr e), tick s)
      | None \<Rightarrow> (Inr (int (length (files s))), tick s))"

text \<open>
  Modelled from the spec: the label writer of package \<^verbatim>\<open>persistence\<close> is not among
  the sources. A label file is the concatenation of the labels written to it, without a
  header; opening the writer creates a missing file, \<^verbatim>\<open>Write\<close> appends,
  \<^verbatim>\<open>Truncate\<close> cuts the file down to a number of labels,
  \<^verbatim>\<open>NumLabelsWritten\<close> is the size of the file in labels. A call that fails leaves
  the file as it was. Buffering is not modelled: a write reaches the file at once.
\<close>

definition NewLabelsWriter :: "Env \<Rightarrow> nat \<Rightarrow> Initializer \<Rightarrow> error option \<times> Initializer" where
  "NewLabelsWriter env fileIndex s =
     (case ioErr env OpNewLabelsWriter (clock s) of
        Some e \<Rightarrow> (Some (IOErr e), tick s)
      | None \<Rightarrow>
          (None, tick (if map_of (files s) fileIndex = None
                       then s\<lparr>files := AList.update fileIndex [] (files s)\<rparr> else s)))"

definition writer_NumLabelsWritten :: "Env \<Rightarrow> nat \<Rightarrow> Initializer \<Rightarrow> (error + u64) \<times> Initializer" where
  "writer_NumLabelsWritten env fileIndex s =
     (case ioErr env OpWriterNumLabelsWritten (clock s) of
        Some e \<Rightarrow> (Inl (IOErr e), tick s)
      | None \<Rightarrow> (Inr (of_nat (length (fileContent s fileIndex) div labelSize)), tick s))"

definition writer_Truncate :: "Env \<Rightarrow> nat \<Rightarrow> u64 \<Rightarrow> Initializer \<Rightarrow> error option \<times> Initializer" where
  "writer_Truncate env fileIndex numLabels s =
     (case ioErr env OpTruncate (clock s) of
        Some e \<Rightarrow> (Some (IOErr e), tick s)
      | None \<Rightarrow>
          (None, tick (s\<lparr>files := AList.update fileIndex
                         (take (unat numLabels * labelSize) (fileContent s fileIndex)) (files s)\<rparr>)))"

definition writer_Write :: "Env \<Rightarrow> nat \<Rightarrow> byte list \<Rightarrow> Initializer \<Rightarrow> error option \<times> Initializer" where
  "writer_Write env fileIndex b s =
     (case ioErr env OpWrite (clock s) of
        Some e \<Rightarrow> (Some (IOErr e), tick s)
      | None \<Rightarrow>
          (None, tick (s\<lparr>files := AList.update fileIndex (fileContent s fileIndex @ b) (files s)\<rparr>)))"

definition writer_Flush :: "Env \<Rightarrow> nat \<Rightarrow> Initializer \<Rightarrow> error option \<times> Initializer" where
  "writer_Flush env fileIndex s = (map_option IOErr (ioErr env OpFlush (clock s)), tick s)"

text \<open>
  Modelled from the spec: \<^verbatim>\<open>SaveMetadata\<close> and \<^verbatim>\<open>LoadMetadata\<close> are not
  among the sources. Saving replaces the record of the directory atomically; loading
  fails with \<^verbatim>\<open>ErrStateMetadataFileMissing\<close> when there is none.
\<close>

definition SaveMetadata :: "Env \<Rightarrow> PostMetadata \<Rightarrow> Initializer \<Rightarrow> error option \<times> Initializer" where
  "SaveMetadata env v s =
     (case ioErr env OpSaveMetadata (clock s) of
        Some e \<Rightarrow> (Some (IOErr e), tick s)
      | None \<Rightarrow> (None, tick (s\<lparr>metadata := Some v\<rparr>)))"

definition LoadMetadata :: "Env \<Rightarrow> Initializer \<Rightarrow> (error + PostMetadata) \<times> Initializer" where
  "LoadMetadata env s =
     (case ioErr env OpLoadMetadata (clock s) of
        Some e \<Rightarrow> (Inl (IOErr e), tick s)
      | None \<Rightarrow>
          (case metadata s of
             None \<Rightarrow> (Inl ErrStateMetadataFileMissing, tick s)
           | Some m \<Rightarrow> (Inr m, tick s)))"

text \<open>\<^verbatim>\<open>saveMetadata\<close> (initialization.go, lines 585 to 596).\<close>

definition saveMetadata :: "Env \<Rightarrow> Initializer \<Rightarrow> error option \<times> Initializer" where
  "saveMetadata env init =
     SaveMetadata env
       \<lparr>m_NodeId = nodeId init,
        m_CommitmentAtxId = commitmentAtxId init,
        m_LabelsPerUnit = LabelsPerUnit (cfg init),
        m_NumUnits = NumUnits (opts init),
        m_MaxFileSize = MaxFileSize (opts init),
        m_Nonce = nonce init,
        m_LastPosition = lastPosition init\<rparr> init"

text \<open>\<^verbatim>\<open>loadMetadata\<close> (lines 598 to 600).\<close>

definition loadMetadata :: "Env \<Rightarrow> Initializer \<Rightarrow> (error + PostMetadata) \<times> Initializer" where
  "loadMetadata env init = LoadMetadata env init"

section \<open>Status\<close>

datatype Status =
    StatusNotStarted
  | StatusStarted
  | StatusInitializing
  | StatusCompleted
  | StatusError

text \<open>
  \<^verbatim>\<open>Status\<close> (lines 391 to 412). \<^verbatim>\<open>TryLock\<close> fails exactly when the lock is
  held; the lock taken here is released on return, so that the Initializer is left as it
  was.
\<close>

definition Status :: "Env \<Rightarrow> Initializer \<Rightarrow> Status" where
  "Status env init =
     (if mtx init then StatusInitializing
      else
        (case fst (diskState_NumLabelsWritten env init) of
           Inl e \<Rightarrow> StatusError
         | Inr written \<Rightarrow>
             (let target = ucast (NumUnits (opts init)) * LabelsPerUnit (cfg init)
              in if written = target then StatusCompleted
                 else if written > 0 then StatusStarted
                 else StatusNotStarted)))"

section \<open>Construction\<close>

text \<open>
  The \<^verbatim>\<open>option\<close> struct once the \<^verbatim>\<open>OptionFunc\<close>s have run, and its
  \<^verbatim>\<open>validate\<close> (lines 71 to 91).
\<close>

record options =
  o_nodeId :: "byte list option"
  o_commitmentAtxId :: "byte list option"
  o_cfg :: "Config option"
  o_initOpts :: "InitOpts option"

definition validate :: "Env \<Rightarrow> options \<Rightarrow> error option" where
  "validate env os =
     (if o_nodeId os = None then Some (OptionErr ''`nodeId` is required'')
      else if o_commitmentAtxId os = None then Some (OptionErr ''`commitmentAtxId` is required'')
      else if o_cfg os = None then Some (OptionErr ''no config provided'')
      else if o_initOpts os = None then Some (OptionErr ''no init options provided'')
      else map_option OptionErr (Validate env (the (o_cfg os)) (the (o_initOpts os))))"

text \<open>
  \<^verbatim>\<open>NewInitializer\<close> (lines 177 to 227) from the call of \<^verbatim>\<open>validate\<close> on,
  in a data directory holding the label files \<open>fs\<close> and the metadata file \<open>md\<close>, at
  instant \<open>clk\<close>.
\<close>

definition NewInitializer ::
  "Env \<Rightarrow> options \<Rightarrow> (nat \<times> byte list) list \<Rightarrow> PostMetadata option \<Rightarrow> nat \<Rightarrow> error + Initializer" where
  "NewInitializer env os fs md clk =
     (case validate env os of
        Some e \<Rightarrow> Inl e
      | None \<Rightarrow>
          (let init = \<lparr>nodeId = the (o_nodeId os),
                       commitmentAtxId = the (o_commitmentAtxId os),
                       commitment = CommitmentBytes env (the (o_nodeId os)) (the (o_commitmentAtxId os)),
                       cfg = the (o_cfg os),
                       opts = the (o_initOpts os),
                       nonceValue = None, nonce = None, lastPosition = None,
                       numLabelsWritten = 0, mtx = False,
                       files = fs, metadata = md, clock = clk\<rparr>
           in case diskState_NumLabelsWritten env init of
                (Inl e, s1) \<Rightarrow> Inl e
              | (Inr written, s1) \<Rightarrow>
                  (case (if written > 0 then
                           (case loadMetadata env s1 of
                              (Inl e, s2) \<Rightarrow> Inl e
                            | (Inr m, s2) \<Rightarrow>
                                (case verifyMetadata s2 m of
                                   Some e \<Rightarrow> Inl e
                                 | None \<Rightarrow> Inr (s2\<lparr>nonce := m_Nonce m,
                                                      lastPosition := m_LastPosition m\<rparr>)))
                         else Inr s1) of
                     Inl e \<Rightarrow> Inl e
                   | Inr s3 \<Rightarrow>
                       (case saveMetadata env s3 of
                          (Some e, s4) \<Rightarrow> Inl e
                        | (None, s4) \<Rightarrow> Inr s4))))"

section \<open>Writing one file\<close>

text \<open>
  \<^verbatim>\<open>bytes.Compare\<close> of the Go library: the lexicographic comparison of two byte
  slices, bytes compared as unsigned numbers; the result is -1, 0 or 1.
\<close>

fun bytes_Compare :: "byte list \<Rightarrow> byte list \<Rightarrow> int" where
  "bytes_Compare [] [] = 0"
| "bytes_Compare [] (y # ys) = - 1"
| "bytes_Compare (x # xs) [] = 1"
| "bytes_Compare (x # xs) (y # ys) =
     (if x < y then - 1 else if y < x then 1 else bytes_Compare xs ys)"

text \<open>
  Lines 491 and 492 of \<^verbatim>\<open>initFile\<close>: the 16 bytes of the reported position, cut out
  of the output of the batch. Either slice expression panics when it reaches beyond the
  slice (whose capacity is taken to be its length).
\<close>

definition nonceCandidate :: "PositionsResult \<Rightarrow> u64 \<Rightarrow> u64 \<Rightarrow> error + byte list" where
  "nonceCandidate res n startPosition =
     (let off = unat ((n - startPosition) * 16)
      in if off \<le> length (Output res) \<and> 16 \<le> length (Output res) - off
         then Inr (take 16 (drop off (Output res)))
         else Inl IndexPanic)"

text \<open>
  Lines 501 to 509 of \<^verbatim>\<open>initFile\<close>: the candidate replaces the retained nonce when
  none is retained or when it compares smaller, and the metadata is saved at once; the
  result of that save is dropped. \<^verbatim>\<open>copy\<close> into a fresh slice of 16 bytes keeps the
  first 16 bytes of the candidate, filled up with zeros.
\<close>

definition retainNonce :: "Env \<Rightarrow> u64 \<Rightarrow> byte list \<Rightarrow> Initializer \<Rightarrow> Initializer" where
  "retainNonce env n candidate init =
     (if nonceValue init = None \<or> bytes_Compare candidate (the (nonceValue init)) < 0
      then snd (saveMetadata env
                 (init\<lparr>nonceValue := Some (take 16 (candidate @ replicate 16 0)),
                       nonce := Some n\<rparr>))
      else init)"

text \<open>
  Lines 490 to 510 of \<^verbatim>\<open>initFile\<close>, on the result of the oracle for the batch that
  starts at \<open>startPosition\<close>: \<open>Inl\<close> is the panic of the slice expression.
\<close>

definition initFile_nonce ::
  "Env \<Rightarrow> PositionsResult \<Rightarrow> u64 \<Rightarrow> Initializer \<Rightarrow> (error \<times> Initializer) + Initializer" where
  "initFile_nonce env res startPosition s =
     (case res_Nonce res of
        None \<Rightarrow> Inr s
      | Some n \<Rightarrow>
          (case nonceCandidate res n startPosition of
             Inl e \<Rightarrow> Inl (e, s)
           | Inr candidate \<Rightarrow> Inr (retainNonce env n candidate s)))"


text \<open>The unsigned order of the bytes, which \<^verbatim>\<open>bytes.Compare\<close> extends to slices.\<close>

definition byteLess :: "(byte \<times> byte) set" where
  "byteLess = {(x, y). unat x < unat y}"

text \<open>
  One turn of the loop of \<^verbatim>\<open>initFile\<close> (lines 457 to 518): \<open>Inl\<close> is a return
  from \<^verbatim>\<open>initFile\<close> with an error, \<open>Inr\<close> the batch size and the state the next turn
  starts from.
\<close>

definition initFile_batch ::
  "Env \<Rightarrow> nat \<Rightarrow> u64 \<Rightarrow> u64 \<Rightarrow> u64 \<Rightarrow> u64 \<Rightarrow> Initializer
     \<Rightarrow> (error \<times> Initializer) + (u64 \<times> Initializer)" where
  "initFile_batch env fileIndex batchSize fileOffset fileNumLabels currentPosition s =
     (if ctxDone env (clock s) then
        (case writer_Flush env fileIndex (tick s) of
           (Some e, s1) \<Rightarrow> Inl (e, s1)
         | (None, s1) \<Rightarrow> Inl (ContextErr, s1))
      else
        (let s1 = tick s;
             remaining = fileNumLabels - currentPosition;
             batchSize' = (if remaining < batchSize then remaining else batchSize);
             startPosition = fileOffset + currentPosition;
             endPosition = startPosition + batchSize' - 1
         in case Positions env (clock s1) startPosition endPosition of
              Inl e \<Rightarrow> Inl (OracleErr e, tick s1)
            | Inr res \<Rightarrow>
                (case initFile_nonce env res startPosition (tick s1) of
                   Inl r \<Rightarrow> Inl r
                 | Inr s2 \<Rightarrow>
                     (case writer_Write env fileIndex (Output res) s2 of
                        (Some e, s3) \<Rightarrow> Inl (e, s3)
                      | (None, s3) \<Rightarrow>
                          Inr (batchSize',
                               s3\<lparr>numLabelsWritten := fileOffset + currentPosition + batchSize'\<rparr>)))))"

text \<open>
  The loop itself. It need not end (a batch size of zero never advances), so it runs on
  fuel: \<open>None\<close> is the loop still running when the fuel is used up, \<open>Some (None, s)\<close> the
  loop left at its condition, \<open>Some (Some e, s)\<close> a return with an error.
\<close>

fun initFile_loop ::
  "nat \<Rightarrow> Env \<Rightarrow> nat \<Rightarrow> u64 \<Rightarrow> u64 \<Rightarrow> u64 \<Rightarrow> u64 \<Rightarrow> Initializer
     \<Rightarrow> (error option \<times> Initializer) option" where
  "initFile_loop 0 env fileIndex batchSize fileOffset fileNumLabels currentPosition s = None"
| "initFile_loop (Suc fuel) env fileIndex batchSize fileOffset fileNumLabels currentPosition s =
     (if currentPosition < fileNumLabels then
        (case initFile_batch env fileIndex batchSize fileOffset fileNumLabels currentPosition s of
           Inl (e, s') \<Rightarrow> Some (Some e, s')
         | Inr (batchSize', s') \<Rightarrow>
             initFile_loop fuel env fileIndex batchSize' fileOffset fileNumLabels
               (currentPosition + batchSize') s')
      else Some (None, s))"

text \<open>\<^verbatim>\<open>initFile\<close> (lines 414 to 534).\<close>

definition initFile ::
  "nat \<Rightarrow> Env \<Rightarrow> nat \<Rightarrow> u64 \<Rightarrow> u64 \<Rightarrow> u64 \<Rightarrow> Initializer
     \<Rightarrow> (error option \<times> Initializer) option" where
  "initFile fuel env fileIndex batchSize fileOffset fileNumLabels init =
     (let fileTargetPosition = fileOffset + fileNumLabels
      in case NewLabelsWriter env fileIndex init of
           (Some e, s1) \<Rightarrow> Some (Some e, s1)
         | (None, s1) \<Rightarrow>
             (case writer_NumLabelsWritten env fileIndex s1 of
                (Inl e, s2) \<Rightarrow> Some (Some e, s2)
              | (Inr written, s2) \<Rightarrow>
                  if written = fileNumLabels then
                    Some (None, s2\<lparr>numLabelsWritten := fileTargetPosition\<rparr>)
                  else if written > fileNumLabels then
                    (case writer_Truncate env fileIndex fileNumLabels s2 of
                       (Some e, s3) \<Rightarrow> Some (Some e, s3)
                     | (None, s3) \<Rightarrow> Some (None, s3\<lparr>numLabelsWritten := fileTargetPosition\<rparr>))
                  else
                    (case initFile_loop fuel env fileIndex batchSize fileOffset fileNumLabels
                            written s2 of
                       None \<Rightarrow> None
                     | Some (Some e, s3) \<Rightarrow> Some (Some e, s3)
                     | Some (None, s3) \<Rightarrow>
                         (case writer_Flush env fileIndex s3 of
                            (Some e, s4) \<Rightarrow> Some (Some e, s4)
                          | (None, s4) \<Rightarrow>
                              (case writer_NumLabelsWritten env fileIndex s4 of
                                 (Inl e, s5) \<Rightarrow> Some (Some e, s5)
                               | (Inr written', s5) \<Rightarrow> Some (None, s5))))))"

section \<open>Removing files\<close>

text \<open>
  The names \<^verbatim>\<open>RemoveFile\<close> is called with: \<^verbatim>\<open>shared.InitFileName(i)\<close> and
  \<^verbatim>\<open>metadataFileName\<close>.
\<close>

datatype fileName = InitFileName int | metadataFileName

text \<open>
  \<^verbatim>\<open>RemoveFile\<close> (lines 382 to 389): \<^verbatim>\<open>os.Remove\<close> fails on a file that does
  not exist, and every failure is wrapped into a new error.
\<close>

definition RemoveFile :: "Env \<Rightarrow> fileName \<Rightarrow> Initializer \<Rightarrow> error option \<times> Initializer" where
  "RemoveFile env name init =
     (case ioErr env OpRemoveFile (clock init) of
        Some e \<Rightarrow> (Some (IOErr ''failed to delete file''), tick init)
      | None \<Rightarrow>
          (case name of
             InitFileName i \<Rightarrow>
               if 0 \<le> i \<and> map_of (files init) (nat i) \<noteq> None
               then (None, tick (init\<lparr>files := AList.delete (nat i) (files init)\<rparr>))
               else (Some (IOErr ''failed to delete file''), tick init)
           | metadataFileName \<Rightarrow>
               if metadata init \<noteq> None
               then (None, tick (init\<lparr>metadata := None\<rparr>))
               else (Some (IOErr ''failed to delete file''), tick init)))"

text \<open>The two loops that call \<^verbatim>\<open>RemoveFile\<close> return at the first failure.\<close>

fun removeFiles :: "Env \<Rightarrow> fileName list \<Rightarrow> Initializer \<Rightarrow> error option \<times> Initializer" where
  "removeFiles env [] s = (None, s)"
| "removeFiles env (name # names) s =
     (case RemoveFile env name s of
        (Some e, s') \<Rightarrow> (Some e, s')
      | (None, s') \<Rightarrow> removeFiles env names s')"

text \<open>\<^verbatim>\<open>removeRedundantFiles\<close> (lines 328 to 345).\<close>

definition removeRedundantFiles :: "Env \<Rightarrow> filesLayout \<Rightarrow> Initializer \<Rightarrow> error option \<times> Initializer" where
  "removeRedundantFiles env layout init =
     (case diskState_NumFilesWritten env init of
        (Inl e, s1) \<Rightarrow> (Some e, s1)
      | (Inr numFiles, s1) \<Rightarrow>
          removeFiles env (map InitFileName [sint (NumFiles layout)..numFiles - 1]) s1)"

section \<open>Initialize\<close>

text \<open>
  The loop over the files of \<^verbatim>\<open>Initialize\<close> (lines 269 to 279), over the indices
  still to do. Inside the loop \<^verbatim>\<open>int(layout.NumFiles)\<close> is positive, so that
  \<^verbatim>\<open>int(layout.NumFiles)-1\<close> does not wrap.
\<close>

fun initFiles ::
  "nat \<Rightarrow> Env \<Rightarrow> filesLayout \<Rightarrow> u64 \<Rightarrow> nat list \<Rightarrow> Initializer
     \<Rightarrow> (error option \<times> Initializer) option" where
  "initFiles fuel env layout batchSize [] s = Some (None, s)"
| "initFiles fuel env layout batchSize (i # is) s =
     (let fileOffset = of_nat i * FileNumLabels layout;
          fileNumLabels = (if int i = sint (NumFiles layout) - 1
                           then LastFileNumLabels layout else FileNumLabels layout)
      in case initFile fuel env i batchSize fileOffset fileNumLabels s of
           None \<Rightarrow> None
         | Some (Some e, s') \<Rightarrow> Some (Some e, s')
         | Some (None, s') \<Rightarrow> initFiles fuel env layout batchSize is s')"

text \<open>
  One turn of the loop that continues the search for a nonce past the labels (lines 295
  to 322): \<open>Inl\<close> is a return from \<^verbatim>\<open>Initialize\<close>, \<open>Inr\<close> the state the next turn
  starts from.
\<close>

definition searchNonce_batch ::
  "Env \<Rightarrow> u64 \<Rightarrow> u64 \<Rightarrow> Initializer \<Rightarrow> (error option \<times> Initializer) + Initializer" where
  "searchNonce_batch env batchSize i s =
     (let s1 = s\<lparr>lastPosition := Some i\<rparr>
      in if ctxDone env (clock s1) then Inl (Some ContextErr, tick s1)
         else
           (case Positions env (clock (tick s1)) i (i + batchSize - 1) of
              Inl e \<Rightarrow> Inl (Some (OracleErr e), tick (tick s1))
            | Inr res \<Rightarrow>
                (case res_Nonce res of
                   Some n \<Rightarrow> Inl (None, (tick (tick s1))\<lparr>nonce := Some n\<rparr>)
                 | None \<Rightarrow> Inr (tick (tick s1)))))"

text \<open>
  The loop (line 294) and the return after it (line 325). \<open>None\<close> is the loop still
  running when the fuel is used up.
\<close>

fun searchNonce ::
  "nat \<Rightarrow> Env \<Rightarrow> u64 \<Rightarrow> u64 \<Rightarrow> Initializer \<Rightarrow> (error option \<times> Initializer) option" where
  "searchNonce 0 env batchSize i s = None"
| "searchNonce (Suc fuel) env batchSize i s =
     (if i < MaxUint64 then
        (case searchNonce_batch env batchSize i s of
           Inl r \<Rightarrow> Some r
         | Inr s' \<Rightarrow> searchNonce fuel env batchSize (i + batchSize) s')
      else Some (Some ErrNoNonceFound, s))"

text \<open>
  Lines 285 to 325 of \<^verbatim>\<open>Initialize\<close>: the search starts at the later of the number of
  labels and the recorded last position; the deferred \<^verbatim>\<open>saveMetadata\<close> runs when the
  function returns, and its result is dropped.
\<close>

definition continueSearch ::
  "nat \<Rightarrow> Env \<Rightarrow> u64 \<Rightarrow> u64 \<Rightarrow> Initializer \<Rightarrow> (error option \<times> Initializer) option" where
  "continueSearch fuel env numLabels batchSize s =
     (let s1 = (if lastPosition s = None \<or> the (lastPosition s) < numLabels
                then s\<lparr>lastPosition := Some numLabels\<rparr> else s)
      in case searchNonce fuel env batchSize (the (lastPosition s1)) s1 of
           None \<Rightarrow> None
         | Some (r, s2) \<Rightarrow> Some (r, snd (saveMetadata env s2)))"

text \<open>\<^verbatim>\<open>Initialize\<close> between taking the lock and releasing it (lines 237 to 325).\<close>

definition Initialize_locked ::
  "nat \<Rightarrow> Env \<Rightarrow> Initializer \<Rightarrow> (error option \<times> Initializer) option" where
  "Initialize_locked fuel env init =
     (let layout = deriveFilesLayout env (cfg init) (opts init)
      in case removeRedundantFiles env layout init of
           (Some e, s1) \<Rightarrow> Some (Some e, s1)
         | (None, s1) \<Rightarrow>
             (let numLabels = ucast (NumUnits (opts s1)) * LabelsPerUnit (cfg s1);
                  batchSize = ComputeBatchSize (opts s1)
              in case ioErr env OpOracleNew (clock s1) of
                   Some e \<Rightarrow> Some (Some (OracleErr e), tick s1)
                 | None \<Rightarrow>
                     (case initFiles fuel env layout batchSize
                             [0..<nat (sint (NumFiles layout))] (tick s1) of
                        None \<Rightarrow> None
                      | Some (Some e, s2) \<Rightarrow> Some (Some e, s2)
                      | Some (None, s2) \<Rightarrow>
                          if nonce s2 \<noteq> None then Some (None, s2)
                          else continueSearch fuel env numLabels batchSize s2)))"

text \<open>
  \<^verbatim>\<open>Initialize\<close> (lines 231 to 326): \<^verbatim>\<open>TryLock\<close> fails when the lock is held;
  otherwise the lock is taken and the deferred \<^verbatim>\<open>Unlock\<close> releases it when the
  function returns.
\<close>

definition Initialize :: "nat \<Rightarrow> Env \<Rightarrow> Initializer \<Rightarrow> (error option \<times> Initializer) option" where
  "Initialize fuel env init =
     (if mtx init then Some (Some ErrAlreadyInitializing, init)
      else
        (case Initialize_locked fuel env (init\<lparr>mtx := True\<rparr>) of
           None \<Rightarrow> None
         | Some (r, s) \<Rightarrow> Some (r, s\<lparr>mtx := False\<rparr>)))"

section \<open>What the environment answers during a run\<close>

text \<open>
  The first \<open>k\<close> turns of the search past the labels, from position \<open>i\<close> at instant
  \<open>t\<close>, pass quietly: each starts below \<^verbatim>\<open>math.MaxUint64\<close>, finds the context not
  cancelled, and gets from the oracle an answer that is no error and reports no nonce. A
  turn takes two instants, the poll of the context and the call of the oracle.
\<close>

fun quietBatches :: "Env \<Rightarrow> u64 \<Rightarrow> u64 \<Rightarrow> nat \<Rightarrow> nat \<Rightarrow> bool" where
  "quietBatches env batchSize i t 0 = True"
| "quietBatches env batchSize i t (Suc k) =
     (i < MaxUint64 \<and> \<not> ctxDone env t \<and>
      (case Positions env (Suc t) i (i + batchSize - 1) of
         Inl e \<Rightarrow> False
       | Inr res \<Rightarrow> res_Nonce res = None) \<and>
      quietBatches env batchSize (i + batchSize) (Suc (Suc t)) k)"




section \<open>Reset\<close>

text \<open>
  \<^verbatim>\<open>Reset\<close> between taking the lock and releasing it (lines 361 to 379): the
  directory lists the label files and, when there is one, the metadata file; entries
  that are neither are passed over and are not modelled.
\<close>

definition Reset_locked :: "Env \<Rightarrow> Initializer \<Rightarrow> error option \<times> Initializer" where
  "Reset_locked env init =
     (case ioErr env OpReadDir (clock init) of
        Some e \<Rightarrow> (Some (IOErr e), tick init)
      | None \<Rightarrow>
          removeFiles env
            (map (\<lambda>f. InitFileName (int (fst f))) (files init) @
             (if metadata init \<noteq> None then [metadataFileName] else []))
            (tick init))"

text \<open>\<^verbatim>\<open>Reset\<close> (lines 355 to 380).\<close>

definition Reset :: "Env \<Rightarrow> Initializer \<Rightarrow> error option \<times> Initializer" where
  "Reset env init =
     (if mtx init then (Some ErrCannotResetWhileInitializing, init)
      else
        (case Reset_locked env (init\<lparr>mtx := True\<rparr>) of
           (r, s) \<Rightarrow> (r, s\<lparr>mtx := False\<rparr>)))"

section \<open>What a run leaves alone\<close>

text \<open>
  The fields of the Initializer that no statement of \<^verbatim>\<open>Initialize\<close> or
  \<^verbatim>\<open>Reset\<close> assigns between taking the lock and releasing it: the identity, the
  configuration and the lock.
\<close>

definition sameConfig :: "Initializer \<Rightarrow> Initializer \<Rightarrow> bool" where
  "sameConfig s s' \<longleftrightarrow>
     nodeId s' = nodeId s \<and> commitmentAtxId s' = commitmentAtxId s \<and>
     commitment s' = commitment s \<and> cfg s' = cfg s \<and> opts s' = opts s \<and> mtx s' = mtx s"

text \<open>
  The labels of \<open>k\<close> successive positions from \<open>a\<close> on, when \<open>label\<close> gives the bytes of
  the label of a position.
\<close>

definition labelsFrom :: "(u64 \<Rightarrow> byte list) \<Rightarrow> u64 \<Rightarrow> nat \<Rightarrow> byte list" where
  "labelsFrom label a k = concat (map (\<lambda>j. label (a + of_nat j)) [0..<k])"

text \<open>
  The retained value has not grown from \<open>s\<close> to \<open>s'\<close>: a value retained in \<open>s\<close> is
  still matched or undercut, in the order of \<^verbatim>\<open>bytes.Compare\<close>, by the value retained
  in \<open>s'\<close>.
\<close>

definition nonceNotWorse :: "Initializer \<Rightarrow> Initializer \<Rightarrow> bool" where
  "nonceNotWorse s s' \<longleftrightarrow>
     (case nonceValue s of
        None \<Rightarrow> True
      | Some v \<Rightarrow>
          (case nonceValue s' of
             None \<Rightarrow> False
           | Some v' \<Rightarrow> bytes_Compare v' v \<le> 0))"

text \<open>Two states retain the same nonce: the same position and the same 16 bytes.\<close>

definition sameNonce :: "Initializer \<Rightarrow> Initializer \<Rightarrow> bool" where
  "sameNonce s t \<longleftrightarrow> nonce s = nonce t \<and> nonceValue s = nonceValue t"

text \<open>
  The environment \<open>env\<close> with the failures of \<^verbatim>\<open>SaveMetadata\<close> replaced by those of
  \<open>f\<close>, and a result with the metadata file replaced by \<open>m\<close>: two runs that differ in
  nothing but the metadata file differ by a \<open>setMetadata\<close>.
\<close>

definition savesFail :: "Env \<Rightarrow> (nat \<Rightarrow> string option) \<Rightarrow> Env" where
  "savesFail env f =
     env\<lparr>ioErr := \<lambda>op t. if op = OpSaveMetadata then f t else ioErr env op t\<rparr>"

definition setMetadata :: "PostMetadata option \<Rightarrow> 'a \<times> Initializer \<Rightarrow> 'a \<times> Initializer" where
  "setMetadata m p = (fst p, (snd p)\<lparr>metadata := m\<rparr>)"

section \<open>A small instance\<close>

text \<open>
  One unit of four labels in two files of two labels each, written in batches of two. The
  oracle of the instance answers every range with one label of 16 bytes a position, and
  reports the first position of the range that \<open>isNonce\<close> holds of. Nothing fails and
  nothing is cancelled; the variants below change one answer each.
\<close>

definition exampleLabel :: "u64 \<Rightarrow> byte list" where
  "exampleLabel p = replicate 15 0 @ [ucast (200 - 3 * p)]"

definition examplePositions :: "(u64 \<Rightarrow> bool) \<Rightarrow> nat \<Rightarrow> u64 \<Rightarrow> u64 \<Rightarrow> string + PositionsResult" where
  "examplePositions isNonce t a b =
     (let ps = map (\<lambda>k. a + of_nat k) [0..<Suc (unat (b - a))]
      in Inr \<lparr>Output = concat (map exampleLabel ps),
              res_Nonce = (case filter isNonce ps of [] \<Rightarrow> None | p # _ \<Rightarrow> Some p)\<rparr>)"

definition exampleEnv :: "(u64 \<Rightarrow> bool) \<Rightarrow> Env" where
  "exampleEnv isNonce =
     \<lparr>deriveFilesLayout = (\<lambda>c io. \<lparr>NumFiles = 2, FileNumLabels = 2, LastFileNumLabels = 2\<rparr>),
      CommitmentBytes = (\<lambda>a b. a @ b),
      Validate = (\<lambda>c io. None),
      Positions = examplePositions isNonce,
      ctxDone = (\<lambda>t. False),
      ioErr = (\<lambda>op t. None)\<rparr>"

text \<open>The instance with both files written in full and no nonce retained.\<close>

definition exampleDone :: Initializer where
  "exampleDone = (exampleInit 1)\<lparr>files := [(0, replicate 32 7), (1, replicate 32 9)]\<rparr>"

definition exampleFlags :: "u64 \<Rightarrow> Flags" where
  "exampleFlags v =
     \<lparr>flag_datadir = ''data'', flag_maxFileSize = 32, flag_provider = ''0,1'',
      flag_labelsPerUnit = 4, flag_numUnits = v, flag_fromFile = 0, flag_toFile = MaxInt\<rparr>"

text \<open>The environment of the instance with an oracle that reports no nonce at all.\<close>

definition exampleQuiet :: Env where
  "exampleQuiet = exampleEnv (\<lambda>p. False)"

text \<open>The same, with the context cancelled from instant 4 on.\<close>

definition exampleCancel :: Env where
  "exampleCancel = exampleQuiet\<lparr>ctxDone := \<lambda>t. 4 \<le> t\<rparr>"

text \<open>
  The instance with its files written and a metadata file that records no search
  position; the same after a search cancelled at position 8; the same with a recorded
  position two below the end of the position space.
\<close>

definition exampleSearching :: Initializer where
  "exampleSearching = exampleDone\<lparr>metadata := Some (exampleMeta 1)\<rparr>"

definition exampleCancelled :: Initializer where
  "exampleCancelled = exampleSearching\<lparr>lastPosition := Some 8, clock := 6,
     metadata := Some ((exampleMeta 1)\<lparr>m_LastPosition := Some 8\<rparr>)\<rparr>"

definition exampleAtBound :: Initializer where
  "exampleAtBound = exampleDone\<lparr>lastPosition := Some 18446744073709551613\<rparr>"

text \<open>The options the instance is constructed from.\<close>

definition exampleOptions :: options where
  "exampleOptions = \<lparr>o_nodeId = Some (replicate 32 1), o_commitmentAtxId = Some (replicate 32 2),
     o_cfg = Some (cfg (exampleInit 1)), o_initOpts = Some (opts (exampleInit 1))\<rparr>"

text \<open>
  The environment of the instance with an oracle that reports positions 1 and 3, and
  three candidates as that oracle would report them one by one.
\<close>

definition exampleNonces :: Env where
  "exampleNonces = exampleEnv (\<lambda>p. p = 1 \<or> p = 3)"


text \<open>The same oracle on a disk where every save of the metadata fails.\<close>

definition exampleDiskFull :: Env where
  "exampleDiskFull = savesFail exampleNonces (\<lambda>t. Some ''no space left on device'')"

text \<open>The answer of that oracle for the first batch of the first file.\<close>

definition exampleBatch :: PositionsResult where
  "exampleBatch = \<lparr>Output = exampleLabel 0 @ exampleLabel 1, res_Nonce = Some 1\<rparr>"

text \<open>
  Variants of the quiet environment for an instance whose files are written: the context
  cancelled from instant 8 on, which is the poll of the second turn of the search; an
  oracle that fails from instant 9 on, which is the call of that turn; an oracle that
  reports position 7; and a disk on which every write of labels fails.
\<close>

definition exampleStop :: Env where
  "exampleStop = exampleQuiet\<lparr>ctxDone := \<lambda>t. 8 \<le> t\<rparr>"

definition exampleOracleDown :: Env where
  "exampleOracleDown =
     exampleQuiet\<lparr>Positions := \<lambda>t a b. if 9 \<le> t then Inl ''oracle closed''
                                         else examplePositions (\<lambda>p. False) t a b\<rparr>"

definition exampleLate :: Env where
  "exampleLate = exampleEnv (\<lambda>p. p = 7)"

definition exampleWriteFails :: Env where
  "exampleWriteFails =
     exampleQuiet\<lparr>ioErr := \<lambda>op t. if op = OpWrite then Some ''disk full'' else None\<rparr>"

text \<open>
  An oracle whose labels rise with the position and which reports positions 1 and 3, so
  that the later candidate is the larger one; the same with the context cancelled from
  instant 12 on, which is the first poll of the second file; the state in which a run
  cancelled there leaves a fresh instance; and the Initializer constructed afterwards
  on the directory of that state.
\<close>

definition exampleRisingLabel :: "u64 \<Rightarrow> byte list" where
  "exampleRisingLabel p = replicate 15 0 @ [ucast (3 * p + 5)]"

definition exampleRisingPositions :: "nat \<Rightarrow> u64 \<Rightarrow> u64 \<Rightarrow> string + PositionsResult" where
  "exampleRisingPositions t a b =
     (let ps = map (\<lambda>k. a + of_nat k) [0..<Suc (unat (b - a))]
      in Inr \<lparr>Output = concat (map exampleRisingLabel ps),
              res_Nonce = (case filter (\<lambda>p. p = 1 \<or> p = 3) ps of [] \<Rightarrow> None | p # _ \<Rightarrow> Some p)\<rparr>)"

definition exampleRising :: Env where
  "exampleRising = exampleQuiet\<lparr>Positions := exampleRisingPositions\<rparr>"

definition exampleRisingCancel :: Env where
  "exampleRisingCancel = exampleRising\<lparr>ctxDone := \<lambda>t. 12 \<le> t\<rparr>"

definition exampleInterrupted :: Initializer where
  "exampleInterrupted = snd (the (Initialize 10 exampleRisingCancel (exampleInit 1)))"

definition exampleRestarted :: Initializer where
  "exampleRestarted =
     (case NewInitializer exampleRising exampleOptions (files exampleInterrupted)
             (metadata exampleInterrupted) 0 of
        Inl e \<Rightarrow> exampleInit 1
      | Inr init \<Rightarrow> init)"

section \<open>Auxiliary facts\<close>

subsection \<open>Arithmetic of the partition\<close>

lemma int64_id: "- (2 ^ 63) \<le> x \<Longrightarrow> x < 2 ^ 63 \<Longrightarrow> int64 x = x"
  by (simp add: int64_def)

lemma quo_nonneg:
  assumes a: "0 \<le> a" "a \<le> MaxInt" "1 \<le> b"
  shows "quo a b = a div b"
proof -
  have le: "a div b \<le> a" using a
    by (metis div_by_1 zdiv_mono2 zero_less_one)
  have ge: "0 \<le> a div b" using a by (simp add: pos_imp_zdiv_nonneg_iff)
  have "sgn a * sgn b * (\<bar>a\<bar> div \<bar>b\<bar>) = a div b"
    using a by (cases "a = 0") (auto simp: sgn_if)
  then have "quo a b = int64 (a div b)" by (simp add: quo_def)
  also have "\<dots> = a div b"
    using le ge a(2) by (intro int64_id) (simp_all add: MaxInt_def)
  finally show ?thesis .
qed

lemma each_bounds:
  fixes n F w :: int
  assumes "1 \<le> n" "0 \<le> F" "0 \<le> w" "w \<le> n"
  shows "0 \<le> w * (F div n)" "w * (F div n) \<le> F"
proof -
  have "0 < n" using assms(1) by simp
  then have e0: "0 \<le> F div n" using assms(2) by (simp add: pos_imp_zdiv_nonneg_iff)
  show "0 \<le> w * (F div n)" using e0 assms by simp
  have "w * (F div n) \<le> n * (F div n)" using assms e0 by (simp add: mult_right_mono)
  also have "\<dots> \<le> F"
  proof -
    have "n * (F div n) + F mod n = F" by simp
    moreover have "0 \<le> F mod n" using assms(1) by simp
    ultimately show ?thesis by linarith
  qed
  finally show "w * (F div n) \<le> F" .
qed

lemma providerRange_eq:
  assumes "1 \<le> n" "n \<le> MaxInt" "0 \<le> F" "F \<le> MaxInt" "0 \<le> w" "w < n"
  shows "providerRange F n w =
     (if w = n - 1 then ((n - 1) * (F div n), F - 1) else (w * (F div n), (w + 1) * (F div n) - 1))"
proof -
  have q: "quo F n = F div n" using assms by (simp add: quo_nonneg)
  have n1: "int64 (n - 1) = n - 1" using assms by (intro int64_id) (simp_all add: MaxInt_def)
  have w0: "0 \<le> w * (F div n)" "w * (F div n) \<le> F" using each_bounds [of n F w] assms by simp_all
  have fw: "int64 (w * (F div n)) = w * (F div n)"
    using w0 assms by (intro int64_id) (simp_all add: MaxInt_def)
  have f1: "int64 (F - 1) = F - 1" using assms by (intro int64_id) (simp_all add: MaxInt_def)
  show ?thesis
  proof (cases "w = n - 1")
    case True
    then show ?thesis using q n1 fw f1 by (simp add: providerRange_def Let_def)
  next
    case False
    then have wn: "w + 1 \<le> n" using assms by simp
    have w1: "int64 (w + 1) = w + 1" using assms wn by (intro int64_id) (simp_all add: MaxInt_def)
    have b: "0 \<le> (w + 1) * (F div n)" "(w + 1) * (F div n) \<le> F"
      using each_bounds [of n F "w + 1"] assms wn by simp_all
    have m: "int64 ((w + 1) * (F div n)) = (w + 1) * (F div n)"
      using b assms by (intro int64_id) (simp_all add: MaxInt_def)
    have m1: "int64 ((w + 1) * (F div n) - 1) = (w + 1) * (F div n) - 1"
      using b assms by (intro int64_id) (simp_all add: MaxInt_def)
    show ?thesis using False q n1 fw w1 m m1 by (simp add: providerRange_def Let_def)
  qed
qed


subsection \<open>The identity, the configuration and the lock are left alone\<close>

lemma sameConfig_refl [simp]: "sameConfig s s"
  by (simp add: sameConfig_def)

lemma sameConfig_trans: "sameConfig s t \<Longrightarrow> sameConfig t u \<Longrightarrow> sameConfig s u"
  by (simp add: sameConfig_def)

lemma sameConfig_tick [simp]: "sameConfig s (tick t) = sameConfig s t"
  by (simp add: sameConfig_def tick_def)

lemma sameConfig_upd [simp]:
  "sameConfig s (t\<lparr>files := fs\<rparr>) = sameConfig s t"
  "sameConfig s (t\<lparr>metadata := md\<rparr>) = sameConfig s t"
  "sameConfig s (t\<lparr>numLabelsWritten := w\<rparr>) = sameConfig s t"
  "sameConfig s (t\<lparr>nonce := n\<rparr>) = sameConfig s t"
  "sameConfig s (t\<lparr>nonceValue := nv\<rparr>) = sameConfig s t"
  "sameConfig s (t\<lparr>lastPosition := lp\<rparr>) = sameConfig s t"
  by (simp_all add: sameConfig_def)

lemma sameConfig_SaveMetadata [simp]: "sameConfig s (snd (SaveMetadata env v t)) = sameConfig s t"
  by (simp add: SaveMetadata_def split: option.split)

lemma sameConfig_saveMetadata [simp]: "sameConfig s (snd (saveMetadata env t)) = sameConfig s t"
  by (simp add: saveMetadata_def)

lemma sameConfig_NewLabelsWriter [simp]: "sameConfig s (snd (NewLabelsWriter env i t)) = sameConfig s t"
  by (simp add: NewLabelsWriter_def split: option.split)

lemma sameConfig_writer_NumLabelsWritten [simp]:
  "sameConfig s (snd (writer_NumLabelsWritten env i t)) = sameConfig s t"
  by (simp add: writer_NumLabelsWritten_def split: option.split)

lemma sameConfig_writer_Truncate [simp]: "sameConfig s (snd (writer_Truncate env i n t)) = sameConfig s t"
  by (simp add: writer_Truncate_def split: option.split)

lemma sameConfig_writer_Write [simp]: "sameConfig s (snd (writer_Write env i b t)) = sameConfig s t"
  by (simp add: writer_Write_def split: option.split)

lemma sameConfig_writer_Flush [simp]: "sameConfig s (snd (writer_Flush env i t)) = sameConfig s t"
  by (simp add: writer_Flush_def)

lemma sameConfig_retainNonce [simp]: "sameConfig s (retainNonce env n c t) = sameConfig s t"
  by (simp add: retainNonce_def)

lemma sameConfig_initFile_nonce:
  "case initFile_nonce env res sp t of
     Inl (e, t') \<Rightarrow> sameConfig s t' = sameConfig s t
   | Inr t' \<Rightarrow> sameConfig s t' = sameConfig s t"
  by (simp add: initFile_nonce_def split: option.split sum.split)

lemma sameConfig_initFile_batch:
  "case initFile_batch env fi bs fo fn cur t of
     Inl (e, t') \<Rightarrow> sameConfig t t'
   | Inr (bs', t') \<Rightarrow> sameConfig t t'"
proof (cases "ctxDone env (clock t)")
  case True
  then show ?thesis
    by (simp add: initFile_batch_def case_prod_unfold split: option.split)
next
  case False
  let ?bs = "if fn - cur < bs then fn - cur else bs"
  show ?thesis
  proof (cases "Positions env (clock (tick t)) (fo + cur) (fo + cur + ?bs - 1)")
    case (Inl e)
    then show ?thesis using False by (simp add: initFile_batch_def Let_def)
  next
    case (Inr res)
    show ?thesis
    proof (cases "initFile_nonce env res (fo + cur) (tick (tick t))")
      case (Inl r)
      then show ?thesis
        using False Inr sameConfig_initFile_nonce [where env = env and res = res and sp = "fo + cur" and t = "tick (tick t)" and s = t]
        by (cases r) (simp add: initFile_batch_def Let_def)
    next
      case (Inr t2)
      then have "sameConfig t t2"
        using sameConfig_initFile_nonce [where env = env and res = res and sp = "fo + cur" and t = "tick (tick t)" and s = t] by simp
      then have "sameConfig t (snd (writer_Write env fi (Output res) t2))" by simp
      then show ?thesis
        using False \<open>Positions env (clock (tick t)) (fo + cur) (fo + cur + ?bs - 1) = Inr res\<close> Inr
        by (simp add: initFile_batch_def Let_def case_prod_unfold split: option.split)
    qed
  qed
qed

lemma sameConfig_initFile_loop:
  "initFile_loop fuel env fi bs fo fn cur s = Some (r, s') \<Longrightarrow> sameConfig s s'"
proof (induction fuel arbitrary: bs cur s)
  case 0
  then show ?case by simp
next
  case (Suc fuel)
  show ?case
  proof (cases "cur < fn")
    case False
    with Suc.prems show ?thesis by simp
  next
    case True
    show ?thesis
    proof (cases "initFile_batch env fi bs fo fn cur s")
      case (Inl a)
      then show ?thesis using Suc.prems True sameConfig_initFile_batch [where env = env and fi = fi and bs = bs and fo = fo and fn = fn and cur = cur and t = s]
        by (cases a) auto
    next
      case (Inr b)
      obtain bs' s1 where b: "b = (bs', s1)" by (cases b)
      have "sameConfig s s1" using Inr b sameConfig_initFile_batch [where env = env and fi = fi and bs = bs and fo = fo and fn = fn and cur = cur and t = s] by simp
      moreover have "initFile_loop fuel env fi bs' fo fn (cur + bs') s1 = Some (r, s')"
        using Suc.prems True Inr b by simp
      ultimately show ?thesis using Suc.IH sameConfig_trans by blast
    qed
  qed
qed


lemma sameConfig_initFile:
  assumes "initFile fuel env fi bs fo fn s = Some (r, s')"
  shows "sameConfig s s'"
proof -
  let ?s1 = "snd (NewLabelsWriter env fi s)"
  let ?s2 = "snd (writer_NumLabelsWritten env fi ?s1)"
  have c1: "sameConfig s ?s1" by simp
  have c2: "sameConfig s ?s2" by simp
  show ?thesis
  proof (cases "fst (NewLabelsWriter env fi s)")
    case (Some e)
    then show ?thesis using assms c1
      by (auto simp: initFile_def Let_def case_prod_unfold)
  next
    case None
    note nw = None
    show ?thesis
    proof (cases "fst (writer_NumLabelsWritten env fi ?s1)")
      case (Inl e)
      then show ?thesis using assms nw c2
        by (auto simp: initFile_def Let_def case_prod_unfold)
    next
      case (Inr written)
      note w = Inr
      consider (eq) "written = fn" | (gt) "written \<noteq> fn" "fn < written"
        | (lt) "written \<noteq> fn" "\<not> fn < written" by blast
      then show ?thesis
      proof cases
        case eq
        then show ?thesis using assms nw w c2
          by (auto simp: initFile_def Let_def case_prod_unfold)
      next
        case gt
        have "sameConfig s (snd (writer_Truncate env fi fn ?s2))" by simp
        then show ?thesis using assms nw w gt
          by (auto simp: initFile_def Let_def case_prod_unfold split: option.splits)
      next
        case lt
        show ?thesis
        proof (cases "initFile_loop fuel env fi bs fo fn written ?s2")
          case None
          then show ?thesis using assms nw w lt
            by (simp add: initFile_def Let_def case_prod_unfold)
        next
          case (Some p)
          obtain r3 s3 where p: "p = (r3, s3)" by (cases p)
          have c3: "sameConfig s s3"
            using sameConfig_initFile_loop Some p c2 sameConfig_trans by blast
          have c4: "sameConfig s (snd (writer_Flush env fi s3))" using c3 by simp
          have c5: "sameConfig s (snd (writer_NumLabelsWritten env fi (snd (writer_Flush env fi s3))))"
            using c3 by simp
          show ?thesis using assms nw w lt Some p c3 c4 c5
            by (auto simp: initFile_def Let_def case_prod_unfold split: option.splits sum.splits)
        qed
      qed
    qed
  qed
qed

lemma sameConfig_initFiles:
  "initFiles fuel env layout bs is s = Some (r, s') \<Longrightarrow> sameConfig s s'"
proof (induction "is" arbitrary: s)
  case Nil
  then show ?case by simp
next
  case (Cons i "is")
  let ?fn = "if int i = sint (NumFiles layout) - 1 then LastFileNumLabels layout else FileNumLabels layout"
  show ?case
  proof (cases "initFile fuel env i bs (of_nat i * FileNumLabels layout) ?fn s")
    case None
    then show ?thesis using Cons.prems by (simp add: Let_def)
  next
    case (Some p)
    obtain r1 s1 where p: "p = (r1, s1)" by (cases p)
    have c: "sameConfig s s1" using sameConfig_initFile Some p by blast
    show ?thesis
    proof (cases r1)
      case None
      then have "initFiles fuel env layout bs is s1 = Some (r, s')"
        using Cons.prems Some p by (simp add: Let_def)
      then show ?thesis using Cons.IH c sameConfig_trans by blast
    next
      case (Some e)
      then show ?thesis using Cons.prems \<open>initFile fuel env i bs (of_nat i * FileNumLabels layout) ?fn s = Some p\<close> p c
        by (simp add: Let_def)
    qed
  qed
qed

lemma sameConfig_searchNonce_batch:
  "case searchNonce_batch env bs i t of
     Inl (r, t') \<Rightarrow> sameConfig t t'
   | Inr t' \<Rightarrow> sameConfig t t'"
  by (simp add: searchNonce_batch_def Let_def split: sum.split option.split)

lemma sameConfig_searchNonce:
  "searchNonce fuel env bs i s = Some (r, s') \<Longrightarrow> sameConfig s s'"
proof (induction fuel arbitrary: i s)
  case 0
  then show ?case by simp
next
  case (Suc fuel)
  show ?case
  proof (cases "i < MaxUint64")
    case False
    with Suc.prems show ?thesis by simp
  next
    case True
    show ?thesis
    proof (cases "searchNonce_batch env bs i s")
      case (Inl a)
      then show ?thesis
        using Suc.prems True sameConfig_searchNonce_batch [where env = env and bs = bs and i = i and t = s]
        by (cases a) auto
    next
      case (Inr s1)
      then have "sameConfig s s1"
        using sameConfig_searchNonce_batch [where env = env and bs = bs and i = i and t = s] by simp
      moreover have "searchNonce fuel env bs (i + bs) s1 = Some (r, s')"
        using Suc.prems True Inr by simp
      ultimately show ?thesis using Suc.IH sameConfig_trans by blast
    qed
  qed
qed

lemma sameConfig_continueSearch:
  assumes "continueSearch fuel env nl bs s = Some (r, s')"
  shows "sameConfig s s'"
proof -
  let ?s1 = "if lastPosition s = None \<or> the (lastPosition s) < nl
             then s\<lparr>lastPosition := Some nl\<rparr> else s"
  obtain s2 where s2: "searchNonce fuel env bs (the (lastPosition ?s1)) ?s1 = Some (r, s2)"
    and s': "s' = snd (saveMetadata env s2)"
    using assms by (auto simp: continueSearch_def Let_def split: option.splits)
  have "sameConfig ?s1 s2" using sameConfig_searchNonce s2 by blast
  moreover have "sameConfig s ?s1" by simp
  ultimately have "sameConfig s s2" using sameConfig_trans by blast
  then show ?thesis using s' by simp
qed

lemma sameConfig_RemoveFile [simp]: "sameConfig s (snd (RemoveFile env name t)) = sameConfig s t"
  by (simp add: RemoveFile_def split: option.split fileName.split)

lemma sameConfig_removeFiles: "sameConfig s (snd (removeFiles env names s))"
proof (induction names arbitrary: s)
  case Nil
  then show ?case by simp
next
  case (Cons name names)
  have c: "sameConfig s (snd (RemoveFile env name s))" by simp
  show ?case
  proof (cases "fst (RemoveFile env name s)")
    case None
    then have "removeFiles env (name # names) s = removeFiles env names (snd (RemoveFile env name s))"
      by (simp add: case_prod_unfold)
    then show ?thesis using Cons.IH [of "snd (RemoveFile env name s)"] c sameConfig_trans by metis
  next
    case (Some e)
    then show ?thesis using c by (simp add: case_prod_unfold)
  qed
qed

lemma sameConfig_diskState_NumFilesWritten [simp]:
  "sameConfig s (snd (diskState_NumFilesWritten env t)) = sameConfig s t"
  by (simp add: diskState_NumFilesWritten_def split: option.split)

lemma sameConfig_removeRedundantFiles: "sameConfig s (snd (removeRedundantFiles env layout s))"
proof (cases "fst (diskState_NumFilesWritten env s)")
  case (Inl e)
  then show ?thesis by (simp add: removeRedundantFiles_def case_prod_unfold)
next
  case (Inr n)
  let ?s1 = "snd (diskState_NumFilesWritten env s)"
  have "sameConfig s ?s1" by simp
  moreover have "sameConfig ?s1 (snd (removeFiles env (map InitFileName [sint (NumFiles layout)..n - 1]) ?s1))"
    by (rule sameConfig_removeFiles)
  ultimately have "sameConfig s (snd (removeFiles env (map InitFileName [sint (NumFiles layout)..n - 1]) ?s1))"
    by (rule sameConfig_trans)
  then show ?thesis using Inr
    by (simp add: removeRedundantFiles_def case_prod_unfold)
qed

lemma sameConfig_Initialize_locked:
  assumes "Initialize_locked fuel env s = Some (r, s')"
  shows "sameConfig s s'"
proof -
  let ?layout = "deriveFilesLayout env (cfg s) (opts s)"
  let ?s1 = "snd (removeRedundantFiles env ?layout s)"
  have c1: "sameConfig s ?s1" by (rule sameConfig_removeRedundantFiles)
  show ?thesis
  proof (cases "fst (removeRedundantFiles env ?layout s)")
    case (Some e)
    then show ?thesis using assms c1 by (auto simp: Initialize_locked_def Let_def case_prod_unfold)
  next
    case None
    note rr = None
    show ?thesis
    proof (cases "ioErr env OpOracleNew (clock ?s1)")
      case (Some e)
      then show ?thesis using assms c1 rr
        by (auto simp: Initialize_locked_def Let_def case_prod_unfold)
    next
      case None
      note on = None
      let ?bs = "ComputeBatchSize (opts ?s1)"
      let ?nl = "ucast (NumUnits (opts ?s1)) * LabelsPerUnit (cfg ?s1)"
      show ?thesis
      proof (cases "initFiles fuel env ?layout ?bs [0..<nat (sint (NumFiles ?layout))] (tick ?s1)")
        case None
        then show ?thesis using assms rr on
          by (simp add: Initialize_locked_def Let_def case_prod_unfold)
      next
        case (Some p)
        obtain r2 s2 where p: "p = (r2, s2)" by (cases p)
        have "sameConfig (tick ?s1) s2" using sameConfig_initFiles Some p by blast
        then have c2: "sameConfig s s2" using c1 sameConfig_trans [of s "tick ?s1" s2] by simp
        show ?thesis
        proof (cases r2)
          case (Some e)
          then show ?thesis
            using assms rr on p c2
              \<open>initFiles fuel env ?layout ?bs [0..<nat (sint (NumFiles ?layout))] (tick ?s1) = Some p\<close>
            by (simp add: Initialize_locked_def Let_def case_prod_unfold)
        next
          case None
          show ?thesis
          proof (cases "nonce s2")
            case (Some n)
            then show ?thesis
              using assms rr on p c2 None
                \<open>initFiles fuel env ?layout ?bs [0..<nat (sint (NumFiles ?layout))] (tick ?s1) = Some p\<close>
              by (simp add: Initialize_locked_def Let_def case_prod_unfold)
          next
            case nn: None
            have "continueSearch fuel env ?nl ?bs s2 = Some (r, s')"
              using assms rr on p None nn
                \<open>initFiles fuel env ?layout ?bs [0..<nat (sint (NumFiles ?layout))] (tick ?s1) = Some p\<close>
              by (simp add: Initialize_locked_def Let_def case_prod_unfold)
            then show ?thesis using sameConfig_continueSearch c2 sameConfig_trans by blast
          qed
        qed
      qed
    qed
  qed
qed

lemma sameConfig_Reset_locked: "sameConfig s (snd (Reset_locked env s))"
proof (cases "ioErr env OpReadDir (clock s)")
  case (Some e)
  then show ?thesis by (simp add: Reset_locked_def)
next
  case None
  have "sameConfig (tick s) (snd (removeFiles env
            (map (\<lambda>f. InitFileName (int (fst f))) (files s) @
             (if metadata s \<noteq> None then [metadataFileName] else [])) (tick s)))"
    by (rule sameConfig_removeFiles)
  then show ?thesis using None sameConfig_trans [of s "tick s"]
    by (simp add: Reset_locked_def)
qed

subsection \<open>Where the errors of a run come from\<close>

lemma initFile_nonce_no_ErrNoNonceFound:
  "initFile_nonce env res sp s = Inl (e, s') \<Longrightarrow> e = IndexPanic"
  by (auto simp: initFile_nonce_def nonceCandidate_def Let_def split: option.splits sum.splits if_splits)

lemma initFile_batch_error:
  assumes "initFile_batch env fi bs fo fn cur s = Inl (e, s')"
  shows "e \<noteq> ErrNoNonceFound"
proof (cases "ctxDone env (clock s)")
  case True
  then show ?thesis using assms
    by (auto simp: initFile_batch_def writer_Flush_def split: option.splits)
next
  case False
  let ?bs = "if fn - cur < bs then fn - cur else bs"
  show ?thesis
  proof (cases "Positions env (clock (tick s)) (fo + cur) (fo + cur + ?bs - 1)")
    case (Inl m)
    then show ?thesis using assms False by (auto simp: initFile_batch_def Let_def)
  next
    case (Inr res)
    show ?thesis
    proof (cases "initFile_nonce env res (fo + cur) (tick (tick s))")
      case (Inl r)
      then show ?thesis
        using assms False Inr initFile_nonce_no_ErrNoNonceFound [of env res "fo + cur" "tick (tick s)"]
        by (cases r) (auto simp: initFile_batch_def Let_def)
    next
      case (Inr s2)
      then show ?thesis
        using assms False \<open>Positions env (clock (tick s)) (fo + cur) (fo + cur + ?bs - 1) = Inr res\<close>
        by (auto simp: initFile_batch_def Let_def writer_Write_def split: option.splits)
    qed
  qed
qed

lemma initFile_loop_error:
  "initFile_loop fuel env fi bs fo fn cur s = Some (Some e, s') \<Longrightarrow> e \<noteq> ErrNoNonceFound"
proof (induction fuel arbitrary: bs cur s)
  case 0
  then show ?case by simp
next
  case (Suc fuel)
  show ?case
  proof (cases "cur < fn")
    case False
    with Suc.prems show ?thesis by simp
  next
    case True
    show ?thesis
    proof (cases "initFile_batch env fi bs fo fn cur s")
      case (Inl a)
      then show ?thesis using Suc.prems True initFile_batch_error [of env fi bs fo fn cur s]
        by (cases a) auto
    next
      case (Inr b)
      then show ?thesis using Suc.prems True Suc.IH by (cases b) auto
    qed
  qed
qed

lemma initFile_error:
  assumes "initFile fuel env fi bs fo fn s = Some (Some e, s')"
  shows "e \<noteq> ErrNoNonceFound"
proof
  assume e: "e = ErrNoNonceFound"
  have l: "\<And>w t t'. initFile_loop fuel env fi bs fo fn w t \<noteq> Some (Some ErrNoNonceFound, t')"
    using initFile_loop_error by blast
  show False using assms e l
    by (auto simp: initFile_def Let_def NewLabelsWriter_def writer_NumLabelsWritten_def
        writer_Truncate_def writer_Flush_def
        split: option.splits sum.splits if_splits prod.splits)
qed

lemma initFiles_error:
  "initFiles fuel env layout bs is s = Some (Some e, s') \<Longrightarrow> e \<noteq> ErrNoNonceFound"
proof (induction "is" arbitrary: s)
  case Nil
  then show ?case by simp
next
  case (Cons i "is")
  then show ?case
    using initFile_error
    by (auto simp: Let_def split: option.splits prod.splits)
qed

lemma RemoveFile_error: "fst (RemoveFile env name s) \<noteq> Some ErrNoNonceFound"
  by (simp add: RemoveFile_def split: option.split fileName.split)

lemma removeFiles_error: "fst (removeFiles env names s) \<noteq> Some ErrNoNonceFound"
proof (induction names arbitrary: s)
  case Nil
  then show ?case by simp
next
  case (Cons name names)
  show ?case using RemoveFile_error [of env name s] Cons.IH
    by (cases "RemoveFile env name s") (auto split: option.splits)
qed

lemma removeRedundantFiles_error: "fst (removeRedundantFiles env layout s) \<noteq> Some ErrNoNonceFound"
  using removeFiles_error
  by (auto simp: removeRedundantFiles_def diskState_NumFilesWritten_def split: option.splits)

lemma searchNonce_batch_result:
  "case searchNonce_batch env bs i s of
     Inl (r, s') \<Rightarrow> r \<noteq> Some ErrNoNonceFound \<and> metadata s' = metadata s \<and> lastPosition s' = Some i
   | Inr s' \<Rightarrow> metadata s' = metadata s \<and> lastPosition s' = Some i \<and> nonce s' = nonce s \<and>
       files s' = files s \<and> nonceValue s' = nonceValue s"
  by (simp add: searchNonce_batch_def Let_def tick_def split: sum.split option.split)

lemma MaxUint64_reached: "\<not> i < MaxUint64 \<Longrightarrow> i = MaxUint64"
proof -
  assume a: "\<not> i < MaxUint64"
  have "unat i < 2 ^ 64" using unsigned_less [of i, where ?'a = nat] by simp
  moreover have "\<not> unat i < 18446744073709551615"
    using a by (simp add: MaxUint64_def word_less_nat_alt)
  ultimately have "unat i = unat MaxUint64" by (simp add: MaxUint64_def)
  then show ?thesis by (simp only: word_unat_eq_iff)
qed

lemma searchNonce_exhausted:
  "searchNonce fuel env bs i s = Some (Some ErrNoNonceFound, s') \<Longrightarrow>
     nonce s' = nonce s \<and>
     (i = MaxUint64 \<and> s' = s \<or> (\<exists>p. lastPosition s' = Some p \<and> p + bs = MaxUint64))"
proof (induction fuel arbitrary: i s)
  case 0
  then show ?case by simp
next
  case (Suc fuel)
  show ?case
  proof (cases "i < MaxUint64")
    case False
    then have "i = MaxUint64" by (rule MaxUint64_reached)
    with Suc.prems show ?thesis by simp
  next
    case True
    show ?thesis
    proof (cases "searchNonce_batch env bs i s")
      case (Inl a)
      then show ?thesis
        using Suc.prems True searchNonce_batch_result [where env = env and bs = bs and i = i and s = s]
        by (cases a) auto
    next
      case (Inr s1)
      then have s1: "lastPosition s1 = Some i" "nonce s1 = nonce s"
        using searchNonce_batch_result [where env = env and bs = bs and i = i and s = s] by simp_all
      have "searchNonce fuel env bs (i + bs) s1 = Some (Some ErrNoNonceFound, s')"
        using Suc.prems True Inr by simp
      from Suc.IH [OF this] s1 show ?thesis by auto
    qed
  qed
qed

subsection \<open>The search past the labels\<close>

lemma saveMetadata_fields [simp]:
  "nonce (snd (saveMetadata env s)) = nonce s"
  "lastPosition (snd (saveMetadata env s)) = lastPosition s"
  "nonceValue (snd (saveMetadata env s)) = nonceValue s"
  "files (snd (saveMetadata env s)) = files s"
  "numLabelsWritten (snd (saveMetadata env s)) = numLabelsWritten s"
  "clock (snd (saveMetadata env s)) = Suc (clock s)"
  by (simp_all add: saveMetadata_def SaveMetadata_def tick_def split: option.split)

lemma saveMetadata_metadata:
  "metadata (snd (saveMetadata env s)) =
     (if ioErr env OpSaveMetadata (clock s) = None
      then Some \<lparr>m_NodeId = nodeId s, m_CommitmentAtxId = commitmentAtxId s,
                 m_LabelsPerUnit = LabelsPerUnit (cfg s), m_NumUnits = NumUnits (opts s),
                 m_MaxFileSize = MaxFileSize (opts s), m_Nonce = nonce s,
                 m_LastPosition = lastPosition s\<rparr>
      else metadata s)"
  by (simp add: saveMetadata_def SaveMetadata_def tick_def split: option.split)

lemma continueSearch_exhausted:
  assumes "continueSearch fuel env nl bs s = Some (Some ErrNoNonceFound, s')"
  shows "nonce s' = nonce s \<and>
         (\<exists>p. lastPosition s' = Some p \<and> (p = MaxUint64 \<or> p + bs = MaxUint64))"
proof -
  define s1 where "s1 = (if lastPosition s = None \<or> the (lastPosition s) < nl
             then s\<lparr>lastPosition := Some nl\<rparr> else s)"
  obtain s2 where s2: "searchNonce fuel env bs (the (lastPosition s1)) s1 = Some (Some ErrNoNonceFound, s2)"
    and s': "s' = snd (saveMetadata env s2)"
    using assms by (auto simp: continueSearch_def Let_def s1_def split: option.splits)
  have lp: "lastPosition s1 = Some (the (lastPosition s1))" by (auto simp: s1_def)
  have n1: "nonce s1 = nonce s" by (simp add: s1_def)
  from searchNonce_exhausted [OF s2] have d:
    "nonce s2 = nonce s1" 
    "the (lastPosition s1) = MaxUint64 \<and> s2 = s1 \<or> (\<exists>p. lastPosition s2 = Some p \<and> p + bs = MaxUint64)"
    by simp_all
  have "\<exists>p. lastPosition s2 = Some p \<and> (p = MaxUint64 \<or> p + bs = MaxUint64)"
  proof (cases "the (lastPosition s1) = MaxUint64 \<and> s2 = s1")
    case True
    then have "lastPosition s2 = Some MaxUint64" using lp by simp
    then show ?thesis by simp
  next
    case False
    then show ?thesis using d(2) by blast
  qed
  then show ?thesis using s' d(1) n1 by simp
qed

lemma Initialize_locked_SomeD:
  assumes "Initialize_locked fuel env s = Some (r, s')"
  defines "layout \<equiv> deriveFilesLayout env (cfg s) (opts s)"
  defines "s1 \<equiv> snd (removeRedundantFiles env layout s)"
  defines "bs \<equiv> ComputeBatchSize (opts s)"
  defines "nl \<equiv> ucast (NumUnits (opts s)) * LabelsPerUnit (cfg s)"
  shows "(\<exists>e. fst (removeRedundantFiles env layout s) = Some e \<and> r = Some e \<and> s' = s1) \<or>
         (\<exists>e. ioErr env OpOracleNew (clock s1) = Some e \<and> r = Some (OracleErr e) \<and> s' = tick s1) \<or>
         (\<exists>e. initFiles fuel env layout bs [0..<nat (sint (NumFiles layout))] (tick s1) = Some (Some e, s')
              \<and> r = Some e) \<or>
         (initFiles fuel env layout bs [0..<nat (sint (NumFiles layout))] (tick s1) = Some (None, s')
              \<and> nonce s' \<noteq> None \<and> r = None) \<or>
         (\<exists>s2. initFiles fuel env layout bs [0..<nat (sint (NumFiles layout))] (tick s1) = Some (None, s2)
              \<and> nonce s2 = None \<and> continueSearch fuel env nl bs s2 = Some (r, s'))"
proof -
  have c1: "sameConfig s s1" unfolding s1_def by (rule sameConfig_removeRedundantFiles)
  then have e: "ComputeBatchSize (opts s1) = bs" "ucast (NumUnits (opts s1)) * LabelsPerUnit (cfg s1) = nl"
    by (simp_all add: sameConfig_def bs_def nl_def)
  have rr: "removeRedundantFiles env layout s = (fst (removeRedundantFiles env layout s), s1)"
    by (simp add: s1_def)
  show ?thesis
  proof (cases "fst (removeRedundantFiles env layout s)")
    case (Some e)
    then have "r = Some e \<and> s' = s1" using assms(1)
      by (simp add: Initialize_locked_def Let_def case_prod_unfold layout_def s1_def)
    then show ?thesis using Some by simp
  next
    case None
    note a = None
    show ?thesis
    proof (cases "ioErr env OpOracleNew (clock s1)")
      case (Some e)
      then show ?thesis using assms(1) a
        by (auto simp: Initialize_locked_def Let_def case_prod_unfold layout_def [symmetric] s1_def [symmetric])
    next
      case None
      note b = None
      show ?thesis
      proof (cases "initFiles fuel env layout bs [0..<nat (sint (NumFiles layout))] (tick s1)")
        case None
        then show ?thesis using assms(1) a b e
          by (simp add: Initialize_locked_def Let_def case_prod_unfold layout_def [symmetric] s1_def [symmetric])
      next
        case (Some p)
        obtain r2 s2 where p: "p = (r2, s2)" by (cases p)
        show ?thesis
        proof (cases r2)
          case (Some x)
          then show ?thesis
            using assms(1) a b e p \<open>initFiles fuel env layout bs [0..<nat (sint (NumFiles layout))] (tick s1) = Some p\<close>
            by (auto simp: Initialize_locked_def Let_def case_prod_unfold layout_def [symmetric] s1_def [symmetric])
        next
          case None
          then show ?thesis
            using assms(1) a b e p \<open>initFiles fuel env layout bs [0..<nat (sint (NumFiles layout))] (tick s1) = Some p\<close>
            by (cases "nonce s2")
              (auto simp: Initialize_locked_def Let_def case_prod_unfold layout_def [symmetric] s1_def [symmetric])
        qed
      qed
    qed
  qed
qed







subsection \<open>The order of the candidates\<close>

lemma bytes_Compare_lexord:
  "(bytes_Compare a b < 0 \<longleftrightarrow> (a, b) \<in> lexord byteLess) \<and>
   (bytes_Compare a b = 0 \<longleftrightarrow> a = b) \<and>
   (bytes_Compare a b > 0 \<longleftrightarrow> (b, a) \<in> lexord byteLess)"
  by (induction a b rule: bytes_Compare.induct)
     (auto simp: byteLess_def word_less_nat_alt word_unat_eq_iff)



lemma bytes_Compare_refl [simp]: "bytes_Compare a a = 0"
  using bytes_Compare_lexord [of a a] by simp









subsection \<open>The retained value never grows\<close>

lemma nonceNotWorse_refl [simp]: "nonceNotWorse s s"
  by (simp add: nonceNotWorse_def split: option.split)


lemma nonceNotWorse_tick [simp]: "nonceNotWorse s (tick t) = nonceNotWorse s t"
  by (simp add: nonceNotWorse_def tick_def cong: option.case_cong)

lemma nonceNotWorse_upd [simp]:
  "nonceNotWorse s (t\<lparr>files := fs\<rparr>) = nonceNotWorse s t"
  "nonceNotWorse s (t\<lparr>metadata := md\<rparr>) = nonceNotWorse s t"
  "nonceNotWorse s (t\<lparr>numLabelsWritten := w\<rparr>) = nonceNotWorse s t"
  "nonceNotWorse s (t\<lparr>nonce := n\<rparr>) = nonceNotWorse s t"
  "nonceNotWorse s (t\<lparr>lastPosition := lp\<rparr>) = nonceNotWorse s t"
  by (simp_all add: nonceNotWorse_def cong: option.case_cong)

lemma nonceNotWorse_SaveMetadata [simp]: "nonceNotWorse s (snd (SaveMetadata env v t)) = nonceNotWorse s t"
  by (simp add: SaveMetadata_def split: option.split)

lemma nonceNotWorse_saveMetadata [simp]: "nonceNotWorse s (snd (saveMetadata env t)) = nonceNotWorse s t"
  by (simp add: saveMetadata_def)

lemma nonceNotWorse_NewLabelsWriter [simp]: "nonceNotWorse s (snd (NewLabelsWriter env i t)) = nonceNotWorse s t"
  by (simp add: NewLabelsWriter_def split: option.split)

lemma nonceNotWorse_writer_NumLabelsWritten [simp]:
  "nonceNotWorse s (snd (writer_NumLabelsWritten env i t)) = nonceNotWorse s t"
  by (simp add: writer_NumLabelsWritten_def split: option.split)

lemma nonceNotWorse_writer_Truncate [simp]: "nonceNotWorse s (snd (writer_Truncate env i n t)) = nonceNotWorse s t"
  by (simp add: writer_Truncate_def split: option.split)

lemma nonceNotWorse_writer_Write [simp]: "nonceNotWorse s (snd (writer_Write env i b t)) = nonceNotWorse s t"
  by (simp add: writer_Write_def split: option.split)

lemma nonceNotWorse_writer_Flush [simp]: "nonceNotWorse s (snd (writer_Flush env i t)) = nonceNotWorse s t"
  by (simp add: writer_Flush_def)

lemma nonceCandidate_length: "nonceCandidate res n sp = Inr c \<Longrightarrow> length c = 16"
  by (auto simp: nonceCandidate_def Let_def split: if_splits)











lemma nonceNotWorse_RemoveFile [simp]: "nonceNotWorse s (snd (RemoveFile env name t)) = nonceNotWorse s t"
  by (simp add: RemoveFile_def split: option.split fileName.split)


lemma nonceNotWorse_diskState_NumFilesWritten [simp]:
  "nonceNotWorse s (snd (diskState_NumFilesWritten env t)) = nonceNotWorse s t"
  by (simp add: diskState_NumFilesWritten_def split: option.split)



lemma nonceNotWorse_mtx [simp]: "nonceNotWorse s (t\<lparr>mtx := b\<rparr>) = nonceNotWorse s t"
  "nonceNotWorse (s\<lparr>mtx := b\<rparr>) t = nonceNotWorse s t"
  by (simp_all add: nonceNotWorse_def cong: option.case_cong)



subsection \<open>Writing a file to its target\<close>

lemma labelsFrom_0 [simp]: "labelsFrom label a 0 = []"
  by (simp add: labelsFrom_def)

lemma labelsFrom_Suc: "labelsFrom label a (Suc k) = labelsFrom label a k @ label (a + of_nat k)"
  by (simp add: labelsFrom_def)

lemma labelsFrom_add:
  "labelsFrom label a (k1 + k2) = labelsFrom label a k1 @ labelsFrom label (a + of_nat k1) k2"
proof (induction k2)
  case 0
  then show ?case by simp
next
  case (Suc k2)
  have "labelsFrom label a (k1 + Suc k2) = labelsFrom label a (k1 + k2) @ label (a + of_nat (k1 + k2))"
    using labelsFrom_Suc [of label a "k1 + k2"] by simp
  also have "\<dots> = labelsFrom label a k1 @ labelsFrom label (a + of_nat k1) k2 @ label (a + of_nat k1 + of_nat k2)"
    using Suc by (simp add: add.assoc)
  also have "\<dots> = labelsFrom label a k1 @ labelsFrom label (a + of_nat k1) (Suc k2)"
    using labelsFrom_Suc [of label "a + of_nat k1" k2] by simp
  finally show ?case .
qed

lemma length_labelsFrom:
  assumes "\<forall>p. length (label p) = 16"
  shows "length (labelsFrom label a k) = 16 * k"
  using assms by (induction k) (simp_all add: labelsFrom_Suc)

lemma word_batch_size:
  fixes cur fn bs :: u64
  assumes "cur < fn" "bs \<noteq> 0"
  shows "(if fn - cur < bs then fn - cur else bs) \<noteq> 0 \<and>
         (if fn - cur < bs then fn - cur else bs) \<le> fn - cur"
  using assms by (auto simp: word_le_nat_alt word_less_nat_alt)

lemma word_batch_advance:
  fixes cur fn b :: u64
  assumes "cur \<le> fn" "b \<le> fn - cur"
  shows "cur + b \<le> fn" "unat (fn - (cur + b)) = unat (fn - cur) - unat b" "unat b \<le> unat (fn - cur)"
  using assms by unat_arith+

lemma word_batch_range:
  fixes a b :: u64
  assumes "b \<noteq> 0"
  shows "Suc (unat (a + b - 1 - a)) = unat b"
proof -
  have "a + b - 1 - a = b - 1" by simp
  moreover have "unat (b - 1) = unat b - 1" using assms by (simp add: unat_minus_one)
  moreover have "unat b \<noteq> 0" using assms by (simp add: unat_eq_zero)
  ultimately show ?thesis by simp
qed

lemma word_offset_bound: "unat ((x :: u64) * 16) \<le> 16 * unat x"
proof -
  have "unat (x * 16) = (unat x * 16) mod 2 ^ 64" by (simp add: unat_word_ariths)
  also have "\<dots> \<le> unat x * 16" by (rule mod_less_eq_dividend)
  finally show ?thesis by simp
qed

lemma fileContent_frame [simp]:
  "fileContent (tick s) j = fileContent s j"
  "fileContent (s\<lparr>numLabelsWritten := w\<rparr>) j = fileContent s j"
  "fileContent (s\<lparr>metadata := md\<rparr>) j = fileContent s j"
  "fileContent (s\<lparr>nonce := n\<rparr>) j = fileContent s j"
  "fileContent (s\<lparr>nonceValue := nv\<rparr>) j = fileContent s j"
  "fileContent (s\<lparr>lastPosition := lp\<rparr>) j = fileContent s j"
  "fileContent (s\<lparr>mtx := b\<rparr>) j = fileContent s j"
  by (simp_all add: fileContent_def tick_def)

lemma fileContent_update [simp]:
  "fileContent (s\<lparr>files := AList.update i c (files s)\<rparr>) j = (if j = i then c else fileContent s j)"
  by (simp add: fileContent_def update_conv')

lemma fileContent_saveMetadata [simp]: "fileContent (snd (saveMetadata env s)) j = fileContent s j"
  by (simp add: fileContent_def)

lemma fileContent_retainNonce [simp]: "fileContent (retainNonce env n c s) j = fileContent s j"
  by (simp add: retainNonce_def)

lemma numLabelsWritten_retainNonce [simp]:
  "numLabelsWritten (retainNonce env n c s) = numLabelsWritten s"
  by (simp add: retainNonce_def)

lemma nonceCandidate_ok:
  assumes "length (Output res) = 16 * Suc k" "unat (n - a) \<le> k"
  shows "\<exists>c. nonceCandidate res n a = Inr c"
proof -
  have "unat ((n - a) * 16) \<le> 16 * k" using word_offset_bound [of "n - a"] assms(2) by simp
  then show ?thesis using assms(1) by (simp add: nonceCandidate_def Let_def)
qed

lemma initFile_nonce_ok:
  assumes "length (Output res) = 16 * Suc k" "\<forall>n. res_Nonce res = Some n \<longrightarrow> unat (n - a) \<le> k"
  shows "\<exists>s'. initFile_nonce env res a s = Inr s' \<and> (\<forall>j. fileContent s' j = fileContent s j)"
proof (cases "res_Nonce res")
  case None
  then show ?thesis by (simp add: initFile_nonce_def)
next
  case (Some n)
  then obtain c where "nonceCandidate res n a = Inr c"
    using nonceCandidate_ok [OF assms(1), of n a] assms(2) by blast
  then show ?thesis using Some by (simp add: initFile_nonce_def)
qed

lemma writer_Write_ok:
  assumes "ioErr env OpWrite (clock s) = None"
  shows "fst (writer_Write env fi b s) = None"
    "fileContent (snd (writer_Write env fi b s)) j = (if j = fi then fileContent s fi @ b else fileContent s j)"
  using assms by (simp_all add: writer_Write_def tick_def fileContent_def update_conv')

lemma initFile_batch_unfold:
  assumes "\<not> ctxDone env (clock s)"
    and "b' = (if fn - cur < bs then fn - cur else bs)"
  shows "initFile_batch env fi bs fo fn cur s =
          (case Positions env (clock (tick s)) (fo + cur) (fo + cur + b' - 1) of
              Inl e \<Rightarrow> Inl (OracleErr e, tick (tick s))
            | Inr res \<Rightarrow>
                (case initFile_nonce env res (fo + cur) (tick (tick s)) of
                   Inl r \<Rightarrow> Inl r
                 | Inr s2 \<Rightarrow>
                     (case writer_Write env fi (Output res) s2 of
                        (Some e, s3) \<Rightarrow> Inl (e, s3)
                      | (None, s3) \<Rightarrow>
                          Inr (b', s3\<lparr>numLabelsWritten := fo + cur + b'\<rparr>))))"
  unfolding initFile_batch_def Let_def assms(2) [symmetric]
  using assms(1) by (simp only: if_False)

lemma initFile_batch_writes:
  assumes O: "\<forall>t a b. \<exists>nf. Positions env t a b =
                Inr \<lparr>Output = labelsFrom label a (Suc (unat (b - a))), res_Nonce = nf\<rparr> \<and>
                (\<forall>n. nf = Some n \<longrightarrow> unat (n - a) \<le> unat (b - a))"
    and nc: "\<forall>t. \<not> ctxDone env t"
    and wr: "\<forall>t. ioErr env OpWrite t = None"
    and len: "\<forall>p. length (label p) = 16"
    and cur: "cur < fn" and bs: "bs \<noteq> 0"
    and b': "b' = (if fn - cur < bs then fn - cur else bs)"
  shows "\<exists>s'. initFile_batch env fi bs fo fn cur s = Inr (b', s') \<and>
              fileContent s' fi = fileContent s fi @ labelsFrom label (fo + cur) (unat b') \<and>
              (\<forall>j. j \<noteq> fi \<longrightarrow> fileContent s' j = fileContent s j) \<and>
              numLabelsWritten s' = fo + cur + b'"
proof -
  have b0: "b' \<noteq> 0" using word_batch_size [OF cur bs] by (simp add: b')
  define a where "a = fo + cur"
  obtain nf where P: "Positions env (clock (tick s)) a (a + b' - 1) =
                Inr \<lparr>Output = labelsFrom label a (Suc (unat (a + b' - 1 - a))), res_Nonce = nf\<rparr>"
    and N: "\<forall>n. nf = Some n \<longrightarrow> unat (n - a) \<le> unat (a + b' - 1 - a)"
    using O by blast
  define res where "res = \<lparr>Output = labelsFrom label a (unat b'), res_Nonce = nf\<rparr>"
  have k: "Suc (unat (a + b' - 1 - a)) = unat b'" using b0 by (rule word_batch_range)
  have P': "Positions env (clock (tick s)) a (a + b' - 1) = Inr res"
    using P by (simp only: k res_def)
  have lo: "length (Output res) = 16 * Suc (unat (a + b' - 1 - a))"
    using length_labelsFrom [OF len, of a "unat b'"] by (simp only: k res_def PositionsResult.simps)
  have nn: "\<forall>n. res_Nonce res = Some n \<longrightarrow> unat (n - a) \<le> unat (a + b' - 1 - a)"
    using N by (simp add: res_def)
  from initFile_nonce_ok [OF lo nn, of env "tick (tick s)"]
  obtain s2 where s2: "initFile_nonce env res a (tick (tick s)) = Inr s2"
    "\<forall>j. fileContent s2 j = fileContent s j"
    by auto
  have w: "ioErr env OpWrite (clock s2) = None" using wr by simp
  define s3 where "s3 = snd (writer_Write env fi (Output res) s2)"
  have ww: "writer_Write env fi (Output res) s2 = (None, s3)"
    using writer_Write_ok(1) [OF w, of fi "Output res"] by (simp add: prod_eq_iff s3_def)
  have c3: "\<And>j. fileContent s3 j = (if j = fi then fileContent s fi @ Output res else fileContent s j)"
    using writer_Write_ok(2) [OF w, of fi "Output res"] s2(2) by (simp add: s3_def)
  have nd: "\<not> ctxDone env (clock s)" using nc by simp
  have r: "initFile_batch env fi bs fo fn cur s = Inr (b', s3\<lparr>numLabelsWritten := fo + cur + b'\<rparr>)"
    unfolding initFile_batch_unfold [OF nd b'] a_def [symmetric]
    by (simp only: P' s2(1) ww sum.case prod.case option.case)
  have f1: "fileContent (s3\<lparr>numLabelsWritten := fo + cur + b'\<rparr>) fi =
      fileContent s fi @ labelsFrom label (fo + cur) (unat b')"
    using c3 [of fi] by (simp add: res_def a_def)
  have f2: "\<forall>j. j \<noteq> fi \<longrightarrow> fileContent (s3\<lparr>numLabelsWritten := fo + cur + b'\<rparr>) j = fileContent s j"
    using c3 by simp
  have f3: "numLabelsWritten (s3\<lparr>numLabelsWritten := fo + cur + b'\<rparr>) = fo + cur + b'" by simp
  show ?thesis
    using r f1 f2 f3 by (intro exI [of _ "s3\<lparr>numLabelsWritten := fo + cur + b'\<rparr>"] conjI)
qed

lemma initFile_loop_completes:
  assumes O: "\<forall>t a b. \<exists>nf. Positions env t a b =
                Inr \<lparr>Output = labelsFrom label a (Suc (unat (b - a))), res_Nonce = nf\<rparr> \<and>
                (\<forall>n. nf = Some n \<longrightarrow> unat (n - a) \<le> unat (b - a))"
    and nc: "\<forall>t. \<not> ctxDone env t"
    and wr: "\<forall>t. ioErr env OpWrite t = None"
    and len: "\<forall>p. length (label p) = 16"
  shows "bs \<noteq> 0 \<Longrightarrow> cur \<le> fn \<Longrightarrow>
         \<exists>fuel s'. initFile_loop fuel env fi bs fo fn cur s = Some (None, s') \<and>
              fileContent s' fi = fileContent s fi @ labelsFrom label (fo + cur) (unat (fn - cur)) \<and>
              (\<forall>j. j \<noteq> fi \<longrightarrow> fileContent s' j = fileContent s j) \<and>
              (cur < fn \<longrightarrow> numLabelsWritten s' = fo + fn)"
proof (induction "unat (fn - cur)" arbitrary: cur bs s rule: less_induct)
  case less
  show ?case
  proof (cases "cur < fn")
    case False
    then have e: "cur = fn" using less.prems(2) by simp
    have "initFile_loop (Suc 0) env fi bs fo fn cur s = Some (None, s)" using False by simp
    then show ?thesis using e False by (intro exI [of _ "Suc 0"] exI [of _ s]) simp
  next
    case True
    define b' where "b' = (if fn - cur < bs then fn - cur else bs)"
    have b0: "b' \<noteq> 0" and ble: "b' \<le> fn - cur"
      using word_batch_size [OF True less.prems(1)] by (simp_all add: b'_def)
    from initFile_batch_writes [OF O nc wr len True less.prems(1) b'_def, of fi fo s]
    obtain s1 where s1: "initFile_batch env fi bs fo fn cur s = Inr (b', s1)"
      "fileContent s1 fi = fileContent s fi @ labelsFrom label (fo + cur) (unat b')"
      "\<forall>j. j \<noteq> fi \<longrightarrow> fileContent s1 j = fileContent s j"
      "numLabelsWritten s1 = fo + cur + b'"
      by blast
    have adv: "cur + b' \<le> fn" "unat (fn - (cur + b')) = unat (fn - cur) - unat b'"
      "unat b' \<le> unat (fn - cur)"
      using word_batch_advance [OF less.prems(2) ble] by simp_all
    have "unat b' \<noteq> 0" using b0 by (simp add: unat_eq_zero)
    then have dec: "unat (fn - (cur + b')) < unat (fn - cur)" using adv(2,3) by simp
    from less.hyps [OF dec b0 adv(1), of s1]
    obtain fuel s' where r: "initFile_loop fuel env fi b' fo fn (cur + b') s1 = Some (None, s')"
      "fileContent s' fi = fileContent s1 fi @ labelsFrom label (fo + (cur + b')) (unat (fn - (cur + b')))"
      "\<forall>j. j \<noteq> fi \<longrightarrow> fileContent s' j = fileContent s1 j"
      "cur + b' < fn \<longrightarrow> numLabelsWritten s' = fo + fn"
      by blast
    have l: "initFile_loop (Suc fuel) env fi bs fo fn cur s = Some (None, s')"
      using True s1(1) r(1) by simp
    have split: "unat (fn - cur) = unat b' + unat (fn - (cur + b'))" using adv(2,3) by simp
    have pos: "fo + cur + of_nat (unat b') = fo + (cur + b')" by (simp add: add.assoc)
    have c: "fileContent s' fi = fileContent s fi @ labelsFrom label (fo + cur) (unat (fn - cur))"
      using r(2) s1(2) labelsFrom_add [of label "fo + cur" "unat b'" "unat (fn - (cur + b'))"]
      by (simp only: split pos append_assoc)
    have o: "\<forall>j. j \<noteq> fi \<longrightarrow> fileContent s' j = fileContent s j" using r(3) s1(3) by simp
    have n: "numLabelsWritten s' = fo + fn"
    proof (cases "cur + b' < fn")
      case True
      then show ?thesis using r(4) by simp
    next
      case False
      then have e: "cur + b' = fn" using adv(1) by simp
      have "fuel \<noteq> 0" using r(1) by (cases fuel) simp_all
      then obtain f' where "fuel = Suc f'" by (cases fuel) simp_all
      then have "s' = s1" using r(1) False by simp
      then show ?thesis using s1(4) e by (simp add: add.assoc)
    qed
    show ?thesis using l c o n by blast
  qed
qed

lemma NewLabelsWriter_ok:
  assumes "ioErr env OpNewLabelsWriter (clock s) = None"
  shows "fst (NewLabelsWriter env fi s) = None"
    "fileContent (snd (NewLabelsWriter env fi s)) j = fileContent s j"
    "nonce (snd (NewLabelsWriter env fi s)) = nonce s"
    "nonceValue (snd (NewLabelsWriter env fi s)) = nonceValue s"
    "metadata (snd (NewLabelsWriter env fi s)) = metadata s"
  using assms
  by (auto simp: NewLabelsWriter_def tick_def fileContent_def update_conv' split: option.splits)

lemma writer_NumLabelsWritten_ok:
  assumes "ioErr env OpWriterNumLabelsWritten (clock s) = None"
  shows "writer_NumLabelsWritten env fi s =
           (Inr (of_nat (length (fileContent s fi) div labelSize)), tick s)"
  using assms by (simp add: writer_NumLabelsWritten_def)

lemma writer_Truncate_ok:
  assumes "ioErr env OpTruncate (clock s) = None"
  shows "fst (writer_Truncate env fi n s) = None"
    "fileContent (snd (writer_Truncate env fi n s)) j =
       (if j = fi then take (unat n * labelSize) (fileContent s fi) else fileContent s j)"
    "nonce (snd (writer_Truncate env fi n s)) = nonce s"
    "nonceValue (snd (writer_Truncate env fi n s)) = nonceValue s"
    "metadata (snd (writer_Truncate env fi n s)) = metadata s"
  using assms by (simp_all add: writer_Truncate_def tick_def fileContent_def update_conv')

lemma writer_Flush_ok:
  assumes "ioErr env OpFlush (clock s) = None"
  shows "writer_Flush env fi s = (None, tick s)"
  using assms by (simp add: writer_Flush_def)

lemma tick_fields [simp]:
  "nonce (tick s) = nonce s" "nonceValue (tick s) = nonceValue s" "metadata (tick s) = metadata s"
  "numLabelsWritten (tick s) = numLabelsWritten s" "files (tick s) = files s"
  by (simp_all add: tick_def)

lemma initFile_prefix:
  assumes "ioErr env OpNewLabelsWriter (clock s) = None"
    and "ioErr env OpWriterNumLabelsWritten (Suc (clock s)) = None"
  shows "initFile fuel env fi bs fo fn s =
     (let s2 = tick (snd (NewLabelsWriter env fi s));
          written = of_nat (length (fileContent s fi) div labelSize)
      in if written = fn then Some (None, s2\<lparr>numLabelsWritten := fo + fn\<rparr>)
         else if written > fn then
           (case writer_Truncate env fi fn s2 of
              (Some e, s3) \<Rightarrow> Some (Some e, s3)
            | (None, s3) \<Rightarrow> Some (None, s3\<lparr>numLabelsWritten := fo + fn\<rparr>))
         else
           (case initFile_loop fuel env fi bs fo fn written s2 of
              None \<Rightarrow> None
            | Some (Some e, s3) \<Rightarrow> Some (Some e, s3)
            | Some (None, s3) \<Rightarrow>
                (case writer_Flush env fi s3 of
                   (Some e, s4) \<Rightarrow> Some (Some e, s4)
                 | (None, s4) \<Rightarrow>
                     (case writer_NumLabelsWritten env fi s4 of
                        (Inl e, s5) \<Rightarrow> Some (Some e, s5)
                      | (Inr written', s5) \<Rightarrow> Some (None, s5)))))"
proof -
  define s1 where "s1 = snd (NewLabelsWriter env fi s)"
  have a: "NewLabelsWriter env fi s = (None, s1)"
    using NewLabelsWriter_ok(1) [OF assms(1), of fi] by (simp add: s1_def prod_eq_iff)
  have c: "clock s1 = Suc (clock s)"
    using assms(1) by (simp add: s1_def NewLabelsWriter_def tick_def)
  have b: "writer_NumLabelsWritten env fi s1 =
      (Inr (of_nat (length (fileContent s fi) div labelSize)), tick s1)"
    using writer_NumLabelsWritten_ok [of env s1 fi] assms(2) c
      NewLabelsWriter_ok(2) [OF assms(1), of fi fi]
    by (simp add: s1_def)
  show ?thesis
    unfolding initFile_def Let_def s1_def [symmetric]
    by (simp only: a b prod.case option.case sum.case)
qed

lemma writer_oracle_free:
  "NewLabelsWriter (env\<lparr>Positions := P, ctxDone := d\<rparr>) fi s = NewLabelsWriter env fi s"
  "writer_Truncate (env\<lparr>Positions := P, ctxDone := d\<rparr>) fi n s = writer_Truncate env fi n s"
  by (simp_all add: NewLabelsWriter_def writer_Truncate_def)

lemma labels_reach_target:
  fixes fn :: u64
  assumes "written = of_nat (len div 16)"
  shows "of_nat ((len + 16 * unat (fn - written)) div 16) = fn"
proof -
  have "(len + 16 * unat (fn - written)) div 16 = len div 16 + unat (fn - written)" by simp
  then have "of_nat ((len + 16 * unat (fn - written)) div 16) = (written + (fn - written) :: u64)"
    using assms by simp
  then show ?thesis by simp
qed

lemma truncate_length:
  fixes fn :: u64
  assumes "fn < of_nat (len div 16)"
  shows "unat fn * 16 \<le> len"
proof -
  have "unat fn < unat (of_nat (len div 16) :: u64)" using assms by (simp add: word_less_nat_alt)
  also have "\<dots> \<le> len div 16" by (simp add: unat_of_nat)
  finally show ?thesis by simp
qed

subsection \<open>A run does not see whether its saves of the metadata succeed\<close>

lemma savesFail_fields [simp]:
  "deriveFilesLayout (savesFail env f) = deriveFilesLayout env"
  "Positions (savesFail env f) = Positions env"
  "ctxDone (savesFail env f) = ctxDone env"
  "ioErr (savesFail env f) OpSaveMetadata t = f t"
  "op \<noteq> OpSaveMetadata \<Longrightarrow> ioErr (savesFail env f) op t = ioErr env op t"
  by (simp_all add: savesFail_def)

lemma metadata_update_out [simp]:
  "s\<lparr>metadata := m, clock := c\<rparr> = s\<lparr>clock := c, metadata := m\<rparr>"
  "s\<lparr>metadata := m, files := fs\<rparr> = s\<lparr>files := fs, metadata := m\<rparr>"
  "s\<lparr>metadata := m, numLabelsWritten := w\<rparr> = s\<lparr>numLabelsWritten := w, metadata := m\<rparr>"
  "s\<lparr>metadata := m, nonce := n\<rparr> = s\<lparr>nonce := n, metadata := m\<rparr>"
  "s\<lparr>metadata := m, nonceValue := nv\<rparr> = s\<lparr>nonceValue := nv, metadata := m\<rparr>"
  "s\<lparr>metadata := m, lastPosition := lp\<rparr> = s\<lparr>lastPosition := lp, metadata := m\<rparr>"
  "s\<lparr>metadata := m, mtx := b\<rparr> = s\<lparr>mtx := b, metadata := m\<rparr>"
  by (cases s, simp)+

lemma tick_metadata [simp]: "tick (s\<lparr>metadata := m\<rparr>) = (tick s)\<lparr>metadata := m\<rparr>"
  by (simp add: tick_def)

lemma fileContent_metadata [simp]: "fileContent (s\<lparr>metadata := m\<rparr>) j = fileContent s j"
  by (simp add: fileContent_def)

lemma setMetadata_pair [simp]: "setMetadata m (r, s) = (r, s\<lparr>metadata := m\<rparr>)"
  by (simp add: setMetadata_def)

lemma NewLabelsWriter_blind [simp]:
  "NewLabelsWriter (savesFail env f) fi (s\<lparr>metadata := m\<rparr>) = setMetadata m (NewLabelsWriter env fi s)"
  by (auto simp: tick_def NewLabelsWriter_def split: option.split)

lemma writer_NumLabelsWritten_blind [simp]:
  "writer_NumLabelsWritten (savesFail env f) fi (s\<lparr>metadata := m\<rparr>) =
     setMetadata m (writer_NumLabelsWritten env fi s)"
  by (auto simp: tick_def writer_NumLabelsWritten_def split: option.split)

lemma writer_Truncate_blind [simp]:
  "writer_Truncate (savesFail env f) fi n (s\<lparr>metadata := m\<rparr>) = setMetadata m (writer_Truncate env fi n s)"
  by (auto simp: tick_def writer_Truncate_def split: option.split)

lemma writer_Write_blind [simp]:
  "writer_Write (savesFail env f) fi b (s\<lparr>metadata := m\<rparr>) = setMetadata m (writer_Write env fi b s)"
  by (auto simp: tick_def writer_Write_def split: option.split)

lemma writer_Flush_blind [simp]:
  "writer_Flush (savesFail env f) fi (s\<lparr>metadata := m\<rparr>) = setMetadata m (writer_Flush env fi s)"
  by (simp add: tick_def writer_Flush_def)

lemma diskState_NumFilesWritten_blind [simp]:
  "diskState_NumFilesWritten (savesFail env f) (s\<lparr>metadata := m\<rparr>) =
     setMetadata m (diskState_NumFilesWritten env s)"
  by (auto simp: tick_def diskState_NumFilesWritten_def split: option.split)

lemma RemoveFile_blind [simp]:
  "RemoveFile (savesFail env f) (InitFileName i) (s\<lparr>metadata := m\<rparr>) =
     setMetadata m (RemoveFile env (InitFileName i) s)"
  by (auto simp: tick_def RemoveFile_def split: option.split)

lemma saveMetadata_blind:
  "\<exists>m'. snd (saveMetadata (savesFail env f) (s\<lparr>metadata := m\<rparr>)) =
         (snd (saveMetadata env s))\<lparr>metadata := m'\<rparr>"
  by (auto simp: saveMetadata_def SaveMetadata_def tick_def split: option.split)

lemma retainNonce_blind:
  "\<exists>m'. retainNonce (savesFail env f) n c (s\<lparr>metadata := m\<rparr>) =
         (retainNonce env n c s)\<lparr>metadata := m'\<rparr>"
proof (cases "nonceValue s = None \<or> bytes_Compare c (the (nonceValue s)) < 0")
  case True
  let ?s = "s\<lparr>nonceValue := Some (take 16 (c @ replicate 16 0)), nonce := Some n\<rparr>"
  obtain m' where "snd (saveMetadata (savesFail env f) (?s\<lparr>metadata := m\<rparr>)) =
         (snd (saveMetadata env ?s))\<lparr>metadata := m'\<rparr>"
    using saveMetadata_blind by blast
  then show ?thesis using True by (intro exI [of _ m']) (simp add: retainNonce_def)
next
  case False
  then show ?thesis by (intro exI [of _ m]) (auto simp: retainNonce_def)
qed

lemma initFile_nonce_blind:
  "\<exists>m'. initFile_nonce (savesFail env f) res sp (s\<lparr>metadata := m\<rparr>) =
         map_sum (setMetadata m') (\<lambda>t. t\<lparr>metadata := m'\<rparr>) (initFile_nonce env res sp s)"
proof (cases "res_Nonce res")
  case None
  then show ?thesis by (intro exI [of _ m]) (simp add: initFile_nonce_def)
next
  case (Some n)
  show ?thesis
  proof (cases "nonceCandidate res n sp")
    case (Inl e)
    then show ?thesis using Some by (intro exI [of _ m]) (simp add: initFile_nonce_def)
  next
    case (Inr c)
    obtain m' where "retainNonce (savesFail env f) n c (s\<lparr>metadata := m\<rparr>) =
         (retainNonce env n c s)\<lparr>metadata := m'\<rparr>"
      using retainNonce_blind by blast
    then show ?thesis using Some Inr by (intro exI [of _ m']) (simp add: initFile_nonce_def)
  qed
qed

lemma initFile_batch_blind:
  "\<exists>m'. initFile_batch (savesFail env f) fi bs fo fn cur (s\<lparr>metadata := m\<rparr>) =
         map_sum (setMetadata m') (setMetadata m') (initFile_batch env fi bs fo fn cur s)"
proof (cases "ctxDone env (clock s)")
  case True
  then show ?thesis
    by (intro exI [of _ m])
       (simp add: initFile_batch_def case_prod_unfold setMetadata_def split: option.split)
next
  case False
  define b' where "b' = (if fn - cur < bs then fn - cur else bs)"
  have nd: "\<not> ctxDone (savesFail env f) (clock (s\<lparr>metadata := m\<rparr>))" using False by simp
  note l = initFile_batch_unfold [OF nd b'_def, of fi fo]
  note r = initFile_batch_unfold [OF False b'_def, of fi fo]
  show ?thesis
  proof (cases "Positions env (clock (tick s)) (fo + cur) (fo + cur + b' - 1)")
    case (Inl e)
    then show ?thesis unfolding l r by (intro exI [of _ m]) simp
  next
    case (Inr res)
    obtain m' where n: "initFile_nonce (savesFail env f) res (fo + cur) ((tick (tick s))\<lparr>metadata := m\<rparr>) =
         map_sum (setMetadata m') (\<lambda>t. t\<lparr>metadata := m'\<rparr>) (initFile_nonce env res (fo + cur) (tick (tick s)))"
      using initFile_nonce_blind by blast
    show ?thesis
    proof (cases "initFile_nonce env res (fo + cur) (tick (tick s))")
      case (Inl x)
      then show ?thesis unfolding l r using Inr n by (intro exI [of _ m']) simp
    next
      case (Inr s2)
      then show ?thesis unfolding l r
        using \<open>Positions env (clock (tick s)) (fo + cur) (fo + cur + b' - 1) = Inr res\<close> n
        by (intro exI [of _ m'])
           (simp add: case_prod_unfold setMetadata_def split: option.split)
    qed
  qed
qed

lemma initFile_loop_blind:
  "\<exists>m'. initFile_loop fuel (savesFail env f) fi bs fo fn cur (s\<lparr>metadata := m\<rparr>) =
         map_option (setMetadata m') (initFile_loop fuel env fi bs fo fn cur s)"
proof (induction fuel arbitrary: bs cur s m)
  case 0
  then show ?case by simp
next
  case (Suc fuel)
  show ?case
  proof (cases "cur < fn")
    case False
    then show ?thesis by (intro exI [of _ m]) simp
  next
    case True
    obtain m1 where b: "initFile_batch (savesFail env f) fi bs fo fn cur (s\<lparr>metadata := m\<rparr>) =
         map_sum (setMetadata m1) (setMetadata m1) (initFile_batch env fi bs fo fn cur s)"
      using initFile_batch_blind by blast
    show ?thesis
    proof (cases "initFile_batch env fi bs fo fn cur s")
      case (Inl a)
      then show ?thesis using True b by (intro exI [of _ m1]) (cases a, simp)
    next
      case (Inr c)
      obtain b' s1 where c: "c = (b', s1)" by (cases c)
      obtain m' where "initFile_loop fuel (savesFail env f) fi b' fo fn (cur + b') (s1\<lparr>metadata := m1\<rparr>) =
         map_option (setMetadata m') (initFile_loop fuel env fi b' fo fn (cur + b') s1)"
        using Suc.IH by blast
      then show ?thesis using True b Inr c by (intro exI [of _ m']) simp
    qed
  qed
qed

lemma initFile_blind:
  "\<exists>m'. initFile fuel (savesFail env f) fi bs fo fn (s\<lparr>metadata := m\<rparr>) =
         map_option (setMetadata m') (initFile fuel env fi bs fo fn s)"
proof (cases "fst (NewLabelsWriter env fi s)")
  case (Some e)
  then show ?thesis
    by (intro exI [of _ m]) (simp add: initFile_def case_prod_unfold setMetadata_def)
next
  case None
  define s1 where "s1 = snd (NewLabelsWriter env fi s)"
  show ?thesis
  proof (cases "fst (writer_NumLabelsWritten env fi s1)")
    case (Inl e)
    then show ?thesis using None
      by (intro exI [of _ m]) (simp add: initFile_def case_prod_unfold setMetadata_def s1_def)
  next
    case (Inr w)
    define s2 where "s2 = snd (writer_NumLabelsWritten env fi s1)"
    consider (eq) "w = fn" | (gt) "w \<noteq> fn" "fn < w" | (lt) "w \<noteq> fn" "\<not> fn < w" by blast
    then show ?thesis
    proof cases
      case eq
      then show ?thesis using None Inr
        by (intro exI [of _ m]) (simp add: initFile_def case_prod_unfold setMetadata_def s1_def)
    next
      case gt
      then show ?thesis using None Inr
        by (intro exI [of _ m])
           (simp add: initFile_def case_prod_unfold setMetadata_def s1_def split: option.split)
    next
      case lt
      obtain m1 where l: "initFile_loop fuel (savesFail env f) fi bs fo fn w (s2\<lparr>metadata := m\<rparr>) =
         map_option (setMetadata m1) (initFile_loop fuel env fi bs fo fn w s2)"
        using initFile_loop_blind by blast
      show ?thesis
      proof (cases "initFile_loop fuel env fi bs fo fn w s2")
        case None
        then show ?thesis using \<open>fst (NewLabelsWriter env fi s) = None\<close> Inr lt l
          by (intro exI [of _ m])
             (simp add: initFile_def case_prod_unfold setMetadata_def s1_def s2_def)
      next
        case (Some p)
        obtain r3 s3 where p: "p = (r3, s3)" by (cases p)
        show ?thesis using \<open>fst (NewLabelsWriter env fi s) = None\<close> Inr lt l Some p
          by (intro exI [of _ m1])
             (simp add: initFile_def case_prod_unfold setMetadata_def s1_def s2_def
                split: option.split sum.split)
      qed
    qed
  qed
qed

lemma initFiles_blind:
  "\<exists>m'. initFiles fuel (savesFail env f) layout bs is (s\<lparr>metadata := m\<rparr>) =
         map_option (setMetadata m') (initFiles fuel env layout bs is s)"
proof (induction "is" arbitrary: s m)
  case Nil
  show ?case by (intro exI [of _ m]) simp
next
  case (Cons i "is")
  define fo where "fo = of_nat i * FileNumLabels layout"
  define fn where "fn = (if int i = sint (NumFiles layout) - 1
                           then LastFileNumLabels layout else FileNumLabels layout)"
  obtain m1 where a: "initFile fuel (savesFail env f) i bs fo fn (s\<lparr>metadata := m\<rparr>) =
         map_option (setMetadata m1) (initFile fuel env i bs fo fn s)"
    using initFile_blind by blast
  show ?case
  proof (cases "initFile fuel env i bs fo fn s")
    case None
    then show ?thesis using a
      by (intro exI [of _ m]) (simp add: Let_def fo_def [symmetric] fn_def [symmetric])
  next
    case (Some p)
    obtain r1 s1 where p: "p = (r1, s1)" by (cases p)
    show ?thesis
    proof (cases r1)
      case (Some e)
      then show ?thesis using a \<open>initFile fuel env i bs fo fn s = Some p\<close> p
        by (intro exI [of _ m1]) (simp add: Let_def fo_def [symmetric] fn_def [symmetric])
    next
      case None
      obtain m' where "initFiles fuel (savesFail env f) layout bs is (s1\<lparr>metadata := m1\<rparr>) =
         map_option (setMetadata m') (initFiles fuel env layout bs is s1)"
        using Cons.IH by blast
      then show ?thesis using a \<open>initFile fuel env i bs fo fn s = Some p\<close> p None
        by (intro exI [of _ m']) (simp add: Let_def fo_def [symmetric] fn_def [symmetric])
    qed
  qed
qed

lemma searchNonce_batch_blind:
  "searchNonce_batch (savesFail env f) bs i (s\<lparr>metadata := m\<rparr>) =
     map_sum (setMetadata m) (\<lambda>t. t\<lparr>metadata := m\<rparr>) (searchNonce_batch env bs i s)"
  by (simp add: searchNonce_batch_def Let_def split: sum.split option.split)

lemma searchNonce_blind:
  "searchNonce fuel (savesFail env f) bs i (s\<lparr>metadata := m\<rparr>) =
     map_option (setMetadata m) (searchNonce fuel env bs i s)"
proof (induction fuel arbitrary: i s)
  case 0
  show ?case by simp
next
  case (Suc fuel)
  show ?case
  proof (cases "searchNonce_batch env bs i s")
    case (Inl a)
    then show ?thesis by (cases a) (simp add: searchNonce_batch_blind)
  next
    case (Inr s1)
    then show ?thesis using Suc.IH [of "i + bs" s1] by (simp add: searchNonce_batch_blind)
  qed
qed

lemma continueSearch_blind:
  "\<exists>m'. continueSearch fuel (savesFail env f) nl bs (s\<lparr>metadata := m\<rparr>) =
         map_option (setMetadata m') (continueSearch fuel env nl bs s)"
proof -
  define s1 where "s1 = (if lastPosition s = None \<or> the (lastPosition s) < nl
                then s\<lparr>lastPosition := Some nl\<rparr> else s)"
  have e: "(if lastPosition (s\<lparr>metadata := m\<rparr>) = None \<or> the (lastPosition (s\<lparr>metadata := m\<rparr>)) < nl
                then s\<lparr>metadata := m\<rparr>\<lparr>lastPosition := Some nl\<rparr> else s\<lparr>metadata := m\<rparr>) = s1\<lparr>metadata := m\<rparr>"
    by (simp add: s1_def)
  have lp: "lastPosition (s1\<lparr>metadata := m\<rparr>) = lastPosition s1" by simp
  show ?thesis
  proof (cases "searchNonce fuel env bs (the (lastPosition s1)) s1")
    case None
    then show ?thesis
      unfolding continueSearch_def Let_def e lp s1_def [symmetric]
      by (intro exI [of _ m]) (simp add: searchNonce_blind)
  next
    case (Some p)
    obtain r s2 where p: "p = (r, s2)" by (cases p)
    obtain m' where "snd (saveMetadata (savesFail env f) (s2\<lparr>metadata := m\<rparr>)) =
         (snd (saveMetadata env s2))\<lparr>metadata := m'\<rparr>"
      using saveMetadata_blind by blast
    then show ?thesis using Some p
      unfolding continueSearch_def Let_def e lp s1_def [symmetric]
      by (intro exI [of _ m']) (simp add: searchNonce_blind)
  qed
qed

lemma removeFiles_blind:
  "removeFiles (savesFail env f) (map InitFileName xs) (s\<lparr>metadata := m\<rparr>) =
     setMetadata m (removeFiles env (map InitFileName xs) s)"
proof (induction xs arbitrary: s)
  case Nil
  show ?case by simp
next
  case (Cons x xs)
  show ?case
  proof (cases "RemoveFile env (InitFileName x) s")
    case (Pair r s1)
    then show ?thesis using Cons.IH [of s1] by (cases r) simp_all
  qed
qed

lemma removeRedundantFiles_blind:
  "removeRedundantFiles (savesFail env f) layout (s\<lparr>metadata := m\<rparr>) =
     setMetadata m (removeRedundantFiles env layout s)"
proof (cases "diskState_NumFilesWritten env s")
  case (Pair r s1)
  then show ?thesis
    by (cases r) (simp_all add: removeRedundantFiles_def removeFiles_blind)
qed

lemma Initialize_locked_blind:
  "\<exists>m'. Initialize_locked fuel (savesFail env f) (s\<lparr>metadata := m\<rparr>) =
         map_option (setMetadata m') (Initialize_locked fuel env s)"
proof -
  define layout where "layout = deriveFilesLayout env (cfg s) (opts s)"
  define s1 where "s1 = snd (removeRedundantFiles env layout s)"
  define bs where "bs = ComputeBatchSize (opts s1)"
  define nl where "nl = ucast (NumUnits (opts s1)) * LabelsPerUnit (cfg s1)"
  have rr: "removeRedundantFiles (savesFail env f) layout (s\<lparr>metadata := m\<rparr>) =
              (fst (removeRedundantFiles env layout s), s1\<lparr>metadata := m\<rparr>)"
    by (simp add: removeRedundantFiles_blind setMetadata_def s1_def)
  have rr0: "removeRedundantFiles env layout s = (fst (removeRedundantFiles env layout s), s1)"
    by (simp add: s1_def)
  have L: "Initialize_locked fuel (savesFail env f) (s\<lparr>metadata := m\<rparr>) =
     (case fst (removeRedundantFiles env layout s) of
        Some e \<Rightarrow> Some (Some e, s1\<lparr>metadata := m\<rparr>)
      | None \<Rightarrow>
          (case ioErr env OpOracleNew (clock s1) of
             Some e \<Rightarrow> Some (Some (OracleErr e), (tick s1)\<lparr>metadata := m\<rparr>)
           | None \<Rightarrow>
               (case initFiles fuel (savesFail env f) layout bs [0..<nat (sint (NumFiles layout))]
                       ((tick s1)\<lparr>metadata := m\<rparr>) of
                  None \<Rightarrow> None
                | Some (Some e, s2) \<Rightarrow> Some (Some e, s2)
                | Some (None, s2) \<Rightarrow>
                    if nonce s2 \<noteq> None then Some (None, s2)
                    else continueSearch fuel (savesFail env f) nl bs s2)))"
    unfolding Initialize_locked_def Let_def
    by (simp add: layout_def [symmetric] rr bs_def nl_def cong: option.case_cong prod.case_cong if_cong)
  have R: "Initialize_locked fuel env s =
     (case fst (removeRedundantFiles env layout s) of
        Some e \<Rightarrow> Some (Some e, s1)
      | None \<Rightarrow>
          (case ioErr env OpOracleNew (clock s1) of
             Some e \<Rightarrow> Some (Some (OracleErr e), tick s1)
           | None \<Rightarrow>
               (case initFiles fuel env layout bs [0..<nat (sint (NumFiles layout))] (tick s1) of
                  None \<Rightarrow> None
                | Some (Some e, s2) \<Rightarrow> Some (Some e, s2)
                | Some (None, s2) \<Rightarrow>
                    if nonce s2 \<noteq> None then Some (None, s2)
                    else continueSearch fuel env nl bs s2)))"
    unfolding Initialize_locked_def Let_def layout_def [symmetric]
    by (subst rr0) (simp add: bs_def nl_def cong: option.case_cong prod.case_cong if_cong)
  obtain m1 where F: "initFiles fuel (savesFail env f) layout bs [0..<nat (sint (NumFiles layout))]
                       ((tick s1)\<lparr>metadata := m\<rparr>) =
       map_option (setMetadata m1)
         (initFiles fuel env layout bs [0..<nat (sint (NumFiles layout))] (tick s1))"
    using initFiles_blind by blast
  show ?thesis
  proof (cases "fst (removeRedundantFiles env layout s)")
    case (Some e)
    then show ?thesis unfolding L R by (intro exI [of _ m]) simp
  next
    case None
    note a = None
    show ?thesis
    proof (cases "ioErr env OpOracleNew (clock s1)")
      case (Some e)
      then show ?thesis unfolding L R using a by (intro exI [of _ m]) simp
    next
      case None
      note b = None
      show ?thesis
      proof (cases "initFiles fuel env layout bs [0..<nat (sint (NumFiles layout))] (tick s1)")
        case None
        then show ?thesis unfolding L R using a b F by (intro exI [of _ m]) simp
      next
        case (Some p)
        obtain r2 s2 where p: "p = (r2, s2)" by (cases p)
        show ?thesis
        proof (cases r2)
          case (Some e)
          then show ?thesis unfolding L R
            using a b F p \<open>initFiles fuel env layout bs [0..<nat (sint (NumFiles layout))] (tick s1) = Some p\<close>
            by (intro exI [of _ m1]) simp
        next
          case None
          show ?thesis
          proof (cases "nonce s2")
            case (Some n)
            then show ?thesis unfolding L R
              using a b F p None
                \<open>initFiles fuel env layout bs [0..<nat (sint (NumFiles layout))] (tick s1) = Some p\<close>
              by (intro exI [of _ m1]) simp
          next
            case nn: None
            obtain m' where "continueSearch fuel (savesFail env f) nl bs (s2\<lparr>metadata := m1\<rparr>) =
                map_option (setMetadata m') (continueSearch fuel env nl bs s2)"
              using continueSearch_blind by blast
            then show ?thesis unfolding L R
              using a b F p None nn
                \<open>initFiles fuel env layout bs [0..<nat (sint (NumFiles layout))] (tick s1) = Some p\<close>
              by (intro exI [of _ m']) simp
          qed
        qed
      qed
    qed
  qed
qed

lemma Initialize_blind:
  "\<exists>m'. Initialize fuel (savesFail env f) init =
         map_option (setMetadata m') (Initialize fuel env init)"
proof (cases "mtx init")
  case True
  then show ?thesis by (intro exI [of _ "metadata init"]) (simp add: Initialize_def)
next
  case False
  obtain m' where l: "Initialize_locked fuel (savesFail env f) ((init\<lparr>mtx := True\<rparr>)\<lparr>metadata := metadata init\<rparr>) =
         map_option (setMetadata m') (Initialize_locked fuel env (init\<lparr>mtx := True\<rparr>))"
    using Initialize_locked_blind by blast
  have "(init\<lparr>mtx := True\<rparr>)\<lparr>metadata := metadata init\<rparr> = init\<lparr>mtx := True\<rparr>" by simp
  then have l': "Initialize_locked fuel (savesFail env f) (init\<lparr>mtx := True\<rparr>) =
         map_option (setMetadata m') (Initialize_locked fuel env (init\<lparr>mtx := True\<rparr>))"
    using l by simp
  show ?thesis
  proof (cases "Initialize_locked fuel env (init\<lparr>mtx := True\<rparr>)")
    case None
    then show ?thesis using False l' by (intro exI [of _ m']) (simp add: Initialize_def)
  next
    case (Some p)
    then show ?thesis using False l'
      by (intro exI [of _ m']) (cases p, simp add: Initialize_def)
  qed
qed

lemma retainNonce_save_fails:
  assumes "length c = 16"
    and "nonceValue s = None \<or> bytes_Compare c (the (nonceValue s)) < 0"
    and "ioErr env OpSaveMetadata (clock s) \<noteq> None"
  shows "nonceValue (retainNonce env n c s) = Some c" "nonce (retainNonce env n c s) = Some n"
    "metadata (retainNonce env n c s) = metadata s" "files (retainNonce env n c s) = files s"
    "clock (retainNonce env n c s) = Suc (clock s)"
  using assms by (auto simp: retainNonce_def saveMetadata_metadata)

subsection \<open>What a run returns, from the answers of the environment\<close>

lemma searchNonce_batch_cases:
  "searchNonce_batch env bs i s =
     (if ctxDone env (clock s) then Inl (Some ContextErr, tick (s\<lparr>lastPosition := Some i\<rparr>))
      else
        (case Positions env (Suc (clock s)) i (i + bs - 1) of
           Inl e \<Rightarrow> Inl (Some (OracleErr e), tick (tick (s\<lparr>lastPosition := Some i\<rparr>)))
         | Inr res \<Rightarrow>
             (case res_Nonce res of
                Some n \<Rightarrow> Inl (None, (tick (tick (s\<lparr>lastPosition := Some i\<rparr>)))\<lparr>nonce := Some n\<rparr>)
              | None \<Rightarrow> Inr (tick (tick (s\<lparr>lastPosition := Some i\<rparr>))))))"
  by (simp add: searchNonce_batch_def Let_def tick_def)

lemma searchNonce_after_quiet:
  "quietBatches env bs i (clock s) k \<Longrightarrow> k < fuel \<Longrightarrow>
   \<exists>t. clock t = clock s + 2 * k \<and> nonce t = nonce s \<and>
       searchNonce fuel env bs i s = searchNonce (fuel - k) env bs (i + of_nat k * bs) t"
proof (induction k arbitrary: i s fuel)
  case 0
  then show ?case by (intro exI [of _ s]) simp
next
  case (Suc k)
  obtain f where f: "fuel = Suc f" using Suc.prems(2) by (cases fuel) auto
  from Suc.prems(1) have q: "i < MaxUint64" "\<not> ctxDone env (clock s)"
    "quietBatches env bs (i + bs) (Suc (Suc (clock s))) k" by simp_all
  from Suc.prems(1) obtain res where res: "Positions env (Suc (clock s)) i (i + bs - 1) = Inr res"
    "res_Nonce res = None" by (auto split: sum.splits)
  let ?s1 = "tick (tick (s\<lparr>lastPosition := Some i\<rparr>))"
  have b: "searchNonce_batch env bs i s = Inr ?s1"
    using q res by (simp add: searchNonce_batch_cases)
  have c: "clock ?s1 = Suc (Suc (clock s))" "nonce ?s1 = nonce s" by (simp_all add: tick_def)
  have "quietBatches env bs (i + bs) (clock ?s1) k" using q(3) c by simp
  moreover have "k < f" using Suc.prems(2) f by simp
  ultimately obtain t where t: "clock t = clock ?s1 + 2 * k" "nonce t = nonce ?s1"
    "searchNonce f env bs (i + bs) ?s1 = searchNonce (f - k) env bs (i + bs + of_nat k * bs) t"
    using Suc.IH [of "i + bs" ?s1 f] by blast
  have e: "i + bs + of_nat k * bs = i + of_nat (Suc k) * bs" by (simp add: algebra_simps)
  have "searchNonce fuel env bs i s = searchNonce f env bs (i + bs) ?s1"
    using f q(1) b by simp
  then have "searchNonce fuel env bs i s = searchNonce (fuel - Suc k) env bs (i + of_nat (Suc k) * bs) t"
    using t(3) e f by simp
  moreover have "clock t = clock s + 2 * Suc k" "nonce t = nonce s" using t(1,2) c by simp_all
  ultimately show ?case by blast
qed

lemma searchNonce_returns:
  assumes "quietBatches env bs i (clock s) k" "k < fuel"
  shows "(\<not> i + of_nat k * bs < MaxUint64 \<longrightarrow>
            (\<exists>s'. searchNonce fuel env bs i s = Some (Some ErrNoNonceFound, s'))) \<and>
         (i + of_nat k * bs < MaxUint64 \<and> ctxDone env (clock s + 2 * k) \<longrightarrow>
            (\<exists>s'. searchNonce fuel env bs i s = Some (Some ContextErr, s'))) \<and>
         (\<forall>e. i + of_nat k * bs < MaxUint64 \<and> \<not> ctxDone env (clock s + 2 * k) \<and>
              Positions env (Suc (clock s + 2 * k)) (i + of_nat k * bs) (i + of_nat k * bs + bs - 1) = Inl e \<longrightarrow>
            (\<exists>s'. searchNonce fuel env bs i s = Some (Some (OracleErr e), s'))) \<and>
         (\<forall>res n. i + of_nat k * bs < MaxUint64 \<and> \<not> ctxDone env (clock s + 2 * k) \<and>
              Positions env (Suc (clock s + 2 * k)) (i + of_nat k * bs) (i + of_nat k * bs + bs - 1) = Inr res \<and>
              res_Nonce res = Some n \<longrightarrow>
            (\<exists>s'. searchNonce fuel env bs i s = Some (None, s') \<and> nonce s' = Some n))"
proof -
  obtain t where t: "clock t = clock s + 2 * k"
    "searchNonce fuel env bs i s = searchNonce (fuel - k) env bs (i + of_nat k * bs) t"
    using searchNonce_after_quiet [OF assms] by blast
  obtain f where f: "fuel - k = Suc f" using assms(2) by (cases "fuel - k") auto
  show ?thesis
    unfolding t(2) f
    by (auto simp: searchNonce_batch_cases t(1) tick_def)
qed

lemma searchNonce_exhausted_quiet:
  "searchNonce fuel env bs i s = Some (Some ErrNoNonceFound, s') \<Longrightarrow>
     \<exists>k<fuel. quietBatches env bs i (clock s) k \<and> i + of_nat k * bs = MaxUint64 \<and>
        clock s' = clock s + 2 * k"
proof (induction fuel arbitrary: i s)
  case 0
  then show ?case by simp
next
  case (Suc fuel)
  show ?case
  proof (cases "i < MaxUint64")
    case False
    then have "i = MaxUint64" by (rule MaxUint64_reached)
    moreover have "s' = s" using Suc.prems False by simp
    ultimately show ?thesis by (intro exI [of _ 0]) simp
  next
    case True
    let ?s1 = "tick (tick (s\<lparr>lastPosition := Some i\<rparr>))"
    have b: "searchNonce_batch env bs i s = Inr ?s1 \<and> \<not> ctxDone env (clock s) \<and>
       (\<exists>res. Positions env (Suc (clock s)) i (i + bs - 1) = Inr res \<and> res_Nonce res = None)"
      using Suc.prems True
      by (auto simp: searchNonce_batch_cases split: if_splits sum.splits option.splits)
    then have "searchNonce fuel env bs (i + bs) ?s1 = Some (Some ErrNoNonceFound, s')"
      using Suc.prems True by simp
    from Suc.IH [OF this] obtain k where k: "k < fuel" "quietBatches env bs (i + bs) (clock ?s1) k"
      "i + bs + of_nat k * bs = MaxUint64" "clock s' = clock ?s1 + 2 * k" by blast
    have c: "clock ?s1 = Suc (Suc (clock s))" by (simp add: tick_def)
    have "quietBatches env bs i (clock s) (Suc k)" using True b k(2) c by auto
    moreover have "i + of_nat (Suc k) * bs = MaxUint64" using k(3) by (simp add: algebra_simps)
    moreover have "clock s' = clock s + 2 * Suc k" using k(4) c by simp
    ultimately show ?thesis using k(1) by (intro exI [of _ "Suc k"]) simp
  qed
qed

lemma continueSearch_start:
  "continueSearch fuel env nl bs s =
     (case searchNonce fuel env bs
             (if lastPosition s = None \<or> the (lastPosition s) < nl then nl else the (lastPosition s))
             (s\<lparr>lastPosition :=
                  Some (if lastPosition s = None \<or> the (lastPosition s) < nl then nl
                        else the (lastPosition s))\<rparr>) of
        None \<Rightarrow> None
      | Some (r, s2) \<Rightarrow> Some (r, snd (saveMetadata env s2)))"
proof (cases "lastPosition s = None \<or> the (lastPosition s) < nl")
  case True
  then show ?thesis by (simp add: continueSearch_def)
next
  case False
  then obtain p where p: "lastPosition s = Some p" by auto
  then have u: "s\<lparr>lastPosition := Some p\<rparr> = s" by (cases s) simp
  show ?thesis using False p by (simp add: continueSearch_def u)
qed

lemma Initialize_phases:
  fixes env :: Env and init :: Initializer
  assumes "\<not> mtx init"
  defines "layout \<equiv> deriveFilesLayout env (cfg init) (opts init)"
  defines "bs \<equiv> ComputeBatchSize (opts init)"
  defines "nl \<equiv> ucast (NumUnits (opts init)) * LabelsPerUnit (cfg init)"
  shows "Initialize fuel env init =
     (case removeRedundantFiles env layout (init\<lparr>mtx := True\<rparr>) of
        (Some e, s1) \<Rightarrow> Some (Some e, s1\<lparr>mtx := False\<rparr>)
      | (None, s1) \<Rightarrow>
          (case ioErr env OpOracleNew (clock s1) of
             Some m \<Rightarrow> Some (Some (OracleErr m), (tick s1)\<lparr>mtx := False\<rparr>)
           | None \<Rightarrow>
               (case initFiles fuel env layout bs [0..<nat (sint (NumFiles layout))] (tick s1) of
                  None \<Rightarrow> None
                | Some (Some e, s2) \<Rightarrow> Some (Some e, s2\<lparr>mtx := False\<rparr>)
                | Some (None, s2) \<Rightarrow>
                    if nonce s2 \<noteq> None then Some (None, s2\<lparr>mtx := False\<rparr>)
                    else (case continueSearch fuel env nl bs s2 of
                            None \<Rightarrow> None
                          | Some (r, s3) \<Rightarrow> Some (r, s3\<lparr>mtx := False\<rparr>)))))"
proof -
  let ?s1 = "snd (removeRedundantFiles env layout (init\<lparr>mtx := True\<rparr>))"
  have "sameConfig (init\<lparr>mtx := True\<rparr>) ?s1" by (rule sameConfig_removeRedundantFiles)
  then have e: "ComputeBatchSize (opts ?s1) = bs" "ucast (NumUnits (opts ?s1)) * LabelsPerUnit (cfg ?s1) = nl"
    by (simp_all add: sameConfig_def bs_def nl_def)
  show ?thesis
    using assms(1) e
    by (cases "removeRedundantFiles env layout (init\<lparr>mtx := True\<rparr>)")
       (auto simp: Initialize_def Initialize_locked_def Let_def layout_def [symmetric]
          split: option.splits prod.splits)
qed

lemma Initialize_exhausted_quiet:
  fixes env :: Env and init :: Initializer
  assumes "Initialize fuel env init = Some (Some ErrNoNonceFound, s)"
  defines "layout \<equiv> deriveFilesLayout env (cfg init) (opts init)"
  defines "bs \<equiv> ComputeBatchSize (opts init)"
  defines "nl \<equiv> ucast (NumUnits (opts init)) * LabelsPerUnit (cfg init)"
  shows "\<not> mtx init \<and>
     (\<exists>s1 s2 k. removeRedundantFiles env layout (init\<lparr>mtx := True\<rparr>) = (None, s1) \<and>
        ioErr env OpOracleNew (clock s1) = None \<and>
        initFiles fuel env layout bs [0..<nat (sint (NumFiles layout))] (tick s1) = Some (None, s2) \<and>
        nonce s2 = None \<and> k < fuel \<and>
        quietBatches env bs
          (if lastPosition s2 = None \<or> the (lastPosition s2) < nl then nl else the (lastPosition s2))
          (clock s2) k \<and>
        (if lastPosition s2 = None \<or> the (lastPosition s2) < nl then nl else the (lastPosition s2)) +
          of_nat k * bs = MaxUint64)"
proof -
  have nl: "\<not> mtx init" using assms(1) by (auto simp: Initialize_def)
  obtain s1 r1 where rr: "removeRedundantFiles env layout (init\<lparr>mtx := True\<rparr>) = (r1, s1)"
    by (cases "removeRedundantFiles env layout (init\<lparr>mtx := True\<rparr>)")
  have r1: "r1 = None"
  proof (cases r1)
    case (Some e)
    then have "e = ErrNoNonceFound"
      using assms(1) rr Initialize_phases [OF nl, of fuel env, folded layout_def bs_def nl_def]
      by simp
    then show ?thesis
      using removeRedundantFiles_error [of env layout "init\<lparr>mtx := True\<rparr>"] rr Some by simp
  qed simp
  have a: "Initialize fuel env init =
     (case ioErr env OpOracleNew (clock s1) of
             Some m \<Rightarrow> Some (Some (OracleErr m), (tick s1)\<lparr>mtx := False\<rparr>)
           | None \<Rightarrow>
               (case initFiles fuel env layout bs [0..<nat (sint (NumFiles layout))] (tick s1) of
                  None \<Rightarrow> None
                | Some (Some e, s2) \<Rightarrow> Some (Some e, s2\<lparr>mtx := False\<rparr>)
                | Some (None, s2) \<Rightarrow>
                    if nonce s2 \<noteq> None then Some (None, s2\<lparr>mtx := False\<rparr>)
                    else (case continueSearch fuel env nl bs s2 of
                            None \<Rightarrow> None
                          | Some (r, s3) \<Rightarrow> Some (r, s3\<lparr>mtx := False\<rparr>))))"
    using Initialize_phases [OF nl, of fuel env, folded layout_def bs_def nl_def] rr r1
    by simp
  have on: "ioErr env OpOracleNew (clock s1) = None"
    using a assms(1) by (cases "ioErr env OpOracleNew (clock s1)") auto
  obtain r2 s2 where f: "initFiles fuel env layout bs [0..<nat (sint (NumFiles layout))] (tick s1) = Some (r2, s2)"
    using a assms(1) on
    by (cases "initFiles fuel env layout bs [0..<nat (sint (NumFiles layout))] (tick s1)") auto
  have r2: "r2 = None"
  proof (cases r2)
    case (Some e)
    then have "e = ErrNoNonceFound" using a assms(1) on f by simp
    then show ?thesis using initFiles_error [of fuel env layout bs _ "tick s1" e s2] f Some by simp
  qed simp
  have n2: "nonce s2 = None" using a assms(1) on f r2 by (cases "nonce s2") auto
  let ?start = "if lastPosition s2 = None \<or> the (lastPosition s2) < nl then nl else the (lastPosition s2)"
  obtain s3 where c: "continueSearch fuel env nl bs s2 = Some (Some ErrNoNonceFound, s3)"
    using a assms(1) on f r2 n2
    by (cases "continueSearch fuel env nl bs s2") auto
  then obtain s4 where s4: "searchNonce fuel env bs ?start (s2\<lparr>lastPosition := Some ?start\<rparr>) =
       Some (Some ErrNoNonceFound, s4)"
    unfolding continueSearch_start by (auto split: option.splits)
  from searchNonce_exhausted_quiet [OF s4]
  obtain k where k: "k < fuel" "quietBatches env bs ?start (clock s2) k" "?start + of_nat k * bs = MaxUint64"
    by auto
  show ?thesis using nl rr r1 on f r2 n2 k by blast
qed

lemma Initialize_search_returns:
  fixes env :: Env and init :: Initializer
  defines "layout \<equiv> deriveFilesLayout env (cfg init) (opts init)"
  defines "bs \<equiv> ComputeBatchSize (opts init)"
  defines "nl \<equiv> ucast (NumUnits (opts init)) * LabelsPerUnit (cfg init)"
  assumes "\<not> mtx init"
    and "removeRedundantFiles env layout (init\<lparr>mtx := True\<rparr>) = (None, s1)"
    and "ioErr env OpOracleNew (clock s1) = None"
    and "initFiles fuel env layout bs [0..<nat (sint (NumFiles layout))] (tick s1) = Some (None, s2)"
    and "nonce s2 = None"
    and "k < fuel"
    and "start = (if lastPosition s2 = None \<or> the (lastPosition s2) < nl then nl else the (lastPosition s2))"
    and "quietBatches env bs start (clock s2) k"
  shows "(\<not> start + of_nat k * bs < MaxUint64 \<longrightarrow>
            (\<exists>s'. Initialize fuel env init = Some (Some ErrNoNonceFound, s'))) \<and>
         (start + of_nat k * bs < MaxUint64 \<and> ctxDone env (clock s2 + 2 * k) \<longrightarrow>
            (\<exists>s'. Initialize fuel env init = Some (Some ContextErr, s'))) \<and>
         (\<forall>e. start + of_nat k * bs < MaxUint64 \<and> \<not> ctxDone env (clock s2 + 2 * k) \<and>
              Positions env (Suc (clock s2 + 2 * k)) (start + of_nat k * bs) (start + of_nat k * bs + bs - 1) = Inl e \<longrightarrow>
            (\<exists>s'. Initialize fuel env init = Some (Some (OracleErr e), s'))) \<and>
         (\<forall>res n. start + of_nat k * bs < MaxUint64 \<and> \<not> ctxDone env (clock s2 + 2 * k) \<and>
              Positions env (Suc (clock s2 + 2 * k)) (start + of_nat k * bs) (start + of_nat k * bs + bs - 1) = Inr res \<and>
              res_Nonce res = Some n \<longrightarrow>
            (\<exists>s'. Initialize fuel env init = Some (None, s') \<and> nonce s' = Some n))"
proof -
  let ?t = "s2\<lparr>lastPosition := Some start\<rparr>"
  have i: "Initialize fuel env init =
      (case searchNonce fuel env bs start ?t of
         None \<Rightarrow> None
       | Some (r, s3) \<Rightarrow> Some (r, (snd (saveMetadata env s3))\<lparr>mtx := False\<rparr>))"
    using assms(4-8,10) Initialize_phases [OF assms(4), of fuel env, folded layout_def bs_def nl_def]
    by (simp add: continueSearch_start split: option.splits)
  have q: "quietBatches env bs start (clock ?t) k" using assms(11) by simp
  note r = searchNonce_returns [OF q assms(9)]
  have c: "clock ?t = clock s2" by simp
  show ?thesis
  proof (intro conjI allI impI)
    assume "\<not> start + of_nat k * bs < MaxUint64"
    then obtain s' where "searchNonce fuel env bs start ?t = Some (Some ErrNoNonceFound, s')"
      using r by blast
    then show "\<exists>s'. Initialize fuel env init = Some (Some ErrNoNonceFound, s')" using i by simp
  next
    assume "start + of_nat k * bs < MaxUint64 \<and> ctxDone env (clock s2 + 2 * k)"
    then obtain s' where "searchNonce fuel env bs start ?t = Some (Some ContextErr, s')"
      using r c by auto
    then show "\<exists>s'. Initialize fuel env init = Some (Some ContextErr, s')" using i by simp
  next
    fix e
    assume "start + of_nat k * bs < MaxUint64 \<and> \<not> ctxDone env (clock s2 + 2 * k) \<and>
              Positions env (Suc (clock s2 + 2 * k)) (start + of_nat k * bs) (start + of_nat k * bs + bs - 1) = Inl e"
    then obtain s' where "searchNonce fuel env bs start ?t = Some (Some (OracleErr e), s')"
      using r c by auto
    then show "\<exists>s'. Initialize fuel env init = Some (Some (OracleErr e), s')" using i by simp
  next
    fix res n
    assume "start + of_nat k * bs < MaxUint64 \<and> \<not> ctxDone env (clock s2 + 2 * k) \<and>
              Positions env (Suc (clock s2 + 2 * k)) (start + of_nat k * bs) (start + of_nat k * bs + bs - 1) = Inr res \<and>
              res_Nonce res = Some n"
    then obtain s' where "searchNonce fuel env bs start ?t = Some (None, s')" "nonce s' = Some n"
      using r c by auto
    then show "\<exists>s'. Initialize fuel env init = Some (None, s') \<and> nonce s' = Some n" using i by simp
  qed
qed

lemma initFile_batch_cancelled:
  "ctxDone env (clock t) \<Longrightarrow>
     initFile_batch env i b fo fn cur t =
       Inl (case ioErr env OpFlush (Suc (clock t)) of None \<Rightarrow> ContextErr | Some m \<Rightarrow> IOErr m,
            tick (tick t))"
  by (simp add: initFile_batch_def writer_Flush_def tick_def split: option.split)

lemma initFile_batch_oracle_error:
  "\<not> ctxDone env (clock t) \<Longrightarrow>
   Positions env (Suc (clock t)) (fo + cur)
     (fo + cur + (if fn - cur < b then fn - cur else b) - 1) = Inl m \<Longrightarrow>
     initFile_batch env i b fo fn cur t = Inl (OracleErr m, tick (tick t))"
  by (simp add: initFile_batch_def Let_def tick_def)

lemma initFile_batch_write_error:
  "\<not> ctxDone env (clock t) \<Longrightarrow>
   Positions env (Suc (clock t)) (fo + cur)
     (fo + cur + (if fn - cur < b then fn - cur else b) - 1) = Inr res \<Longrightarrow>
   initFile_nonce env res (fo + cur) (tick (tick t)) = Inr t2 \<Longrightarrow>
   ioErr env OpWrite (clock t2) = Some m \<Longrightarrow>
     initFile_batch env i b fo fn cur t = Inl (IOErr m, tick t2)"
  by (simp add: initFile_batch_def Let_def tick_def writer_Write_def)

lemma initFile_failures:
  fixes t :: Initializer and i :: nat and env :: Env
  defines "w \<equiv> (of_nat (length (fileContent t i) div labelSize) :: u64)"
  defines "t2 \<equiv> tick (snd (NewLabelsWriter env i t))"
  shows "ioErr env OpNewLabelsWriter (clock t) = Some m \<Longrightarrow>
           initFile fuel env i b fo fn t = Some (Some (IOErr m), tick t)"
    and "ioErr env OpNewLabelsWriter (clock t) = None \<Longrightarrow>
         ioErr env OpWriterNumLabelsWritten (Suc (clock t)) = Some m \<Longrightarrow>
           \<exists>t'. initFile fuel env i b fo fn t = Some (Some (IOErr m), t')"
    and "ioErr env OpNewLabelsWriter (clock t) = None \<Longrightarrow>
         ioErr env OpWriterNumLabelsWritten (Suc (clock t)) = None \<Longrightarrow> fn < w \<Longrightarrow>
         ioErr env OpTruncate (Suc (Suc (clock t))) = Some m \<Longrightarrow>
           \<exists>t'. initFile fuel env i b fo fn t = Some (Some (IOErr m), t')"
    and "ioErr env OpNewLabelsWriter (clock t) = None \<Longrightarrow>
         ioErr env OpWriterNumLabelsWritten (Suc (clock t)) = None \<Longrightarrow> w < fn \<Longrightarrow>
         initFile_loop fuel env i b fo fn w t2 = Some (Some e, t3) \<Longrightarrow>
           initFile fuel env i b fo fn t = Some (Some e, t3)"
    and "ioErr env OpNewLabelsWriter (clock t) = None \<Longrightarrow>
         ioErr env OpWriterNumLabelsWritten (Suc (clock t)) = None \<Longrightarrow> w < fn \<Longrightarrow>
         initFile_loop fuel env i b fo fn w t2 = Some (None, t3) \<Longrightarrow>
         ioErr env OpFlush (clock t3) = Some m \<Longrightarrow>
           \<exists>t'. initFile fuel env i b fo fn t = Some (Some (IOErr m), t')"
    and "ioErr env OpNewLabelsWriter (clock t) = None \<Longrightarrow>
         ioErr env OpWriterNumLabelsWritten (Suc (clock t)) = None \<Longrightarrow> w < fn \<Longrightarrow>
         initFile_loop fuel env i b fo fn w t2 = Some (None, t3) \<Longrightarrow>
         ioErr env OpFlush (clock t3) = None \<Longrightarrow>
         ioErr env OpWriterNumLabelsWritten (Suc (clock t3)) = Some m \<Longrightarrow>
           \<exists>t'. initFile fuel env i b fo fn t = Some (Some (IOErr m), t')"
proof -
  show "ioErr env OpNewLabelsWriter (clock t) = Some m \<Longrightarrow>
           initFile fuel env i b fo fn t = Some (Some (IOErr m), tick t)"
    by (simp add: initFile_def NewLabelsWriter_def)
  assume a: "ioErr env OpNewLabelsWriter (clock t) = None"
  have t1: "NewLabelsWriter env i t = (None, snd (NewLabelsWriter env i t))"
    "clock (snd (NewLabelsWriter env i t)) = Suc (clock t)"
    using a NewLabelsWriter_ok(1) [OF a, of i]
    by (simp_all add: prod_eq_iff) (simp add: NewLabelsWriter_def tick_def)
  show "\<exists>t'. initFile fuel env i b fo fn t = Some (Some (IOErr m), t')"
    if f: "ioErr env OpWriterNumLabelsWritten (Suc (clock t)) = Some m"
  proof -
    have n: "writer_NumLabelsWritten env i (snd (NewLabelsWriter env i t)) =
        (Inl (IOErr m), tick (snd (NewLabelsWriter env i t)))"
      using f t1(2) by (simp add: writer_NumLabelsWritten_def)
    have "initFile fuel env i b fo fn t = Some (Some (IOErr m), tick (snd (NewLabelsWriter env i t)))"
      unfolding initFile_def Let_def
      by (subst t1(1)) (simp only: n prod.case option.case sum.case)
    then show ?thesis by blast
  qed
  assume c: "ioErr env OpWriterNumLabelsWritten (Suc (clock t)) = None"
  note p = initFile_prefix [OF a c, of fuel i b fo fn, unfolded Let_def, folded w_def t2_def]
  have c2: "clock t2 = Suc (Suc (clock t))" using t1(2) by (simp add: t2_def tick_def)
  show "fn < w \<Longrightarrow> ioErr env OpTruncate (Suc (Suc (clock t))) = Some m \<Longrightarrow>
           \<exists>t'. initFile fuel env i b fo fn t = Some (Some (IOErr m), t')"
    unfolding p using c2 by (auto simp: writer_Truncate_def)
  assume l: "w < fn"
  then have ne: "w \<noteq> fn" "\<not> fn < w" by auto
  show "initFile_loop fuel env i b fo fn w t2 = Some (Some e, t3) \<Longrightarrow>
           initFile fuel env i b fo fn t = Some (Some e, t3)"
    unfolding p using ne by simp
  assume lp: "initFile_loop fuel env i b fo fn w t2 = Some (None, t3)"
  show "ioErr env OpFlush (clock t3) = Some m \<Longrightarrow>
           \<exists>t'. initFile fuel env i b fo fn t = Some (Some (IOErr m), t')"
    unfolding p using ne lp by (simp add: writer_Flush_def)
  show "ioErr env OpFlush (clock t3) = None \<Longrightarrow>
         ioErr env OpWriterNumLabelsWritten (Suc (clock t3)) = Some m \<Longrightarrow>
           \<exists>t'. initFile fuel env i b fo fn t = Some (Some (IOErr m), t')"
    unfolding p using ne lp by (simp add: writer_Flush_def writer_NumLabelsWritten_def tick_def)
qed

lemma initFiles_append:
  "initFiles fuel env layout bs (xs @ ys) t =
     (case initFiles fuel env layout bs xs t of
        None \<Rightarrow> None
      | Some (Some e, t') \<Rightarrow> Some (Some e, t')
      | Some (None, t') \<Rightarrow> initFiles fuel env layout bs ys t')"
  by (induction xs arbitrary: t) (auto simp: Let_def split: option.splits)

lemma initFiles_first_error:
  "initFiles fuel env layout bs xs t = Some (None, t1) \<Longrightarrow>
   initFile fuel env i bs (of_nat i * FileNumLabels layout)
     (if int i = sint (NumFiles layout) - 1 then LastFileNumLabels layout else FileNumLabels layout) t1 =
     Some (Some e, t2) \<Longrightarrow>
   initFiles fuel env layout bs (xs @ i # ys) t = Some (Some e, t2)"
  by (simp add: initFiles_append Let_def)

lemma removeFiles_append:
  "removeFiles env (xs @ ys) t =
     (case removeFiles env xs t of
        (Some e, t') \<Rightarrow> (Some e, t')
      | (None, t') \<Rightarrow> removeFiles env ys t')"
  by (induction xs arbitrary: t) (auto split: option.splits prod.splits)

lemma removeRedundantFiles_failures:
  shows "ioErr env OpDiskNumFilesWritten (clock t) = Some m \<Longrightarrow>
           removeRedundantFiles env layout t = (Some (IOErr m), tick t)"
    and "ioErr env OpDiskNumFilesWritten (clock t) = None \<Longrightarrow>
         [sint (NumFiles layout)..int (length (files t)) - 1] = xs @ x # ys \<Longrightarrow>
         removeFiles env (map InitFileName xs) (tick t) = (None, t1) \<Longrightarrow>
         ioErr env OpRemoveFile (clock t1) = Some m \<Longrightarrow>
           removeRedundantFiles env layout t = (Some (IOErr ''failed to delete file''), tick t1)"
  by (simp_all add: removeRedundantFiles_def diskState_NumFilesWritten_def removeFiles_append
      RemoveFile_def)

subsection \<open>The nonce a run retains, from the candidates of the oracle\<close>

lemma sameNonce_refl [simp]: "sameNonce s s"
  by (simp add: sameNonce_def)


lemma sameNonce_sym: "sameNonce s t \<Longrightarrow> sameNonce t s"
  by (simp add: sameNonce_def)




lemma sameNonce_tick [simp]: "sameNonce (tick s) t = sameNonce s t" "sameNonce s (tick t) = sameNonce s t"
  by (simp_all add: sameNonce_def)


















section \<open>Claims\<close>

text \<open>
  C1 (as the code has it). Metadata verification succeeds if and only if node id,
  commitment reference, labels-per-unit and max-file-size are all equal and the requested
  \<open>NumUnits\<close> is less than or equal to the stored \<open>NumUnits\<close>. A request whose
  \<open>NumUnits\<close> is strictly smaller than the stored value is accepted; a request whose
  \<open>NumUnits\<close> is strictly greater is rejected with a \<open>ConfigMismatch\<close> error that
  names the field \<open>NumUnits\<close>, the expected value (\<open>>=\<close> the requested number), the
  found value (the stored number) and the directory.
\<close>

theorem verifyMetadata_accepts_iff:
  "(verifyMetadata init m = None \<longleftrightarrow>
      sameIdentity init m \<and> NumUnits (opts init) \<le> m_NumUnits m) \<and>
   (sameIdentity init m \<and> m_NumUnits m < NumUnits (opts init) \<longrightarrow>
      verifyMetadata init m = Some (ConfigMismatch \<lparr>Param = ''NumUnits'',
        Expected = ''>= '' @ sprintf_d (unat (NumUnits (opts init))),
        Found = sprintf_d (unat (m_NumUnits m)),
        err_DataDir = DataDir (opts init)\<rparr>))"
  by (auto simp: verifyMetadata_def sameIdentity_def)

theorem verifyMetadata_accepts_iff_witness:
  "verifyMetadata (exampleInit 1) (exampleMeta 2) = None \<and>
   sameIdentity (exampleInit 2) (exampleMeta 1) \<and>
   m_NumUnits (exampleMeta 1) < NumUnits (opts (exampleInit 2)) \<and>
   verifyMetadata (exampleInit 2) (exampleMeta 1) = Some (ConfigMismatch \<lparr>Param = ''NumUnits'',
        Expected = ''>= 2'', Found = ''1'', err_DataDir = ''data''\<rparr>)"
  using verifyMetadata_accepts_iff [of "exampleInit 2" "exampleMeta 1"]
    verifyMetadata_accepts_iff [of "exampleInit 1" "exampleMeta 2"]
  by (simp add: sameIdentity_def exampleInit_def exampleMeta_def sprintf_d.simps decDigit_def)

text \<open>
  The claim as the specification words it fails in both directions: a request for two
  units against a stored record of one unit is rejected, and a request for one unit
  against a stored record of two units is accepted.
\<close>

theorem verifyMetadata_larger_request_rejected:
  "sameIdentity (exampleInit 2) (exampleMeta 1) \<and>
   NumUnits (opts (exampleInit 2)) \<ge> m_NumUnits (exampleMeta 1) \<and>
   verifyMetadata (exampleInit 2) (exampleMeta 1) \<noteq> None \<and>
   NumUnits (opts (exampleInit 1)) < m_NumUnits (exampleMeta 2) \<and>
   verifyMetadata (exampleInit 1) (exampleMeta 2) = None"
  by (simp add: verifyMetadata_def sameIdentity_def exampleInit_def exampleMeta_def)

text \<open>
  C2 (as the code has it). Whenever the lock is held, \<open>Status\<close> returns
  \<open>StatusInitializing\<close> at once. Whenever it is not held, \<open>Status\<close> recomputes the
  count of written labels from the disk and classifies: \<open>StatusError\<close> when the
  inspection of the disk fails; otherwise \<open>StatusCompleted\<close> exactly when the count
  equals \<open>NumUnits * LabelsPerUnit\<close> (in 64-bit arithmetic), whether or not a nonce is
  retained, \<open>StatusStarted\<close> exactly when the count is not zero and differs from the
  target, and \<open>StatusNotStarted\<close> exactly when the count is zero and the target is not.
\<close>

theorem Status_classifies:
  "(mtx init \<longrightarrow> Status env init = StatusInitializing) \<and>
   (\<not> mtx init \<longrightarrow>
      (\<forall>e. ioErr env OpDiskNumLabelsWritten (clock init) = Some e \<longrightarrow>
           Status env init = StatusError) \<and>
      (ioErr env OpDiskNumLabelsWritten (clock init) = None \<longrightarrow>
         (Status env init = StatusCompleted \<longleftrightarrow>
            labelsOnDisk init = ucast (NumUnits (opts init)) * LabelsPerUnit (cfg init)) \<and>
         (Status env init = StatusStarted \<longleftrightarrow>
            labelsOnDisk init \<noteq> ucast (NumUnits (opts init)) * LabelsPerUnit (cfg init) \<and>
            labelsOnDisk init \<noteq> 0) \<and>
         (Status env init = StatusNotStarted \<longleftrightarrow>
            labelsOnDisk init = 0 \<and>
            ucast (NumUnits (opts init)) * LabelsPerUnit (cfg init) \<noteq> (0 :: u64))))"
  by (auto simp: Status_def diskState_NumLabelsWritten_def Let_def word_greater_zero_iff)

theorem Status_classifies_witness:
  "mtx ((exampleInit 1)\<lparr>mtx := True\<rparr>) \<and>
   Status (exampleEnv (\<lambda>p. False)) ((exampleInit 1)\<lparr>mtx := True\<rparr>) = StatusInitializing \<and>
   \<not> mtx exampleDone \<and>
   ioErr (exampleEnv (\<lambda>p. False)) OpDiskNumLabelsWritten (clock exampleDone) = None \<and>
   labelsOnDisk exampleDone = 4 \<and>
   Status (exampleEnv (\<lambda>p. False)) exampleDone = StatusCompleted \<and>
   ioErr ((exampleEnv (\<lambda>p. False))\<lparr>ioErr := \<lambda>op t. Some ''stat''\<rparr>) OpDiskNumLabelsWritten
      (clock exampleDone) = Some ''stat'' \<and>
   Status ((exampleEnv (\<lambda>p. False))\<lparr>ioErr := \<lambda>op t. Some ''stat''\<rparr>) exampleDone = StatusError"
  using Status_classifies [of "(exampleInit 1)\<lparr>mtx := True\<rparr>" "exampleEnv (\<lambda>p. False)"]
    Status_classifies [of exampleDone "exampleEnv (\<lambda>p. False)"]
    Status_classifies [of exampleDone "(exampleEnv (\<lambda>p. False))\<lparr>ioErr := \<lambda>op t. Some ''stat''\<rparr>"]
  by (simp add: exampleDone_def exampleInit_def exampleEnv_def labelsOnDisk_def labelSize_def)


text \<open>
  The claim as the specification words it fails: with every label written and no nonce
  retained, \<open>Status\<close> returns \<open>StatusCompleted\<close>.
\<close>

theorem Status_completed_without_nonce:
  "\<not> mtx exampleDone \<and> nonce exampleDone = None \<and>
   labelsOnDisk exampleDone = ucast (NumUnits (opts exampleDone)) * LabelsPerUnit (cfg exampleDone) \<and>
   Status exampleQuiet exampleDone = StatusCompleted"
  by (simp add: exampleDone_def exampleInit_def exampleQuiet_def exampleEnv_def labelsOnDisk_def
      labelSize_def Status_def diskState_NumLabelsWritten_def)


text \<open>
  C6. For every number of providers \<open>n \<ge> 1\<close> and every total file count \<open>F \<ge> 0\<close> (both
  within Go's \<^verbatim>\<open>int\<close>), provider \<open>w < n - 1\<close> is given the inclusive range from
  \<open>w * (F div n)\<close> to \<open>(w + 1) * (F div n) - 1\<close> and the last provider the range from
  \<open>(n - 1) * (F div n)\<close> to \<open>F - 1\<close>. Each range starts right after the one before it,
  no file index lies in two ranges, every range but the last holds \<open>F div n\<close> indices,
  the last holds the remainder as well, and an index lies in some range exactly when it
  lies in \<open>[0, F)\<close>.
\<close>

theorem providerRange_partition:
  assumes "1 \<le> n" "n \<le> MaxInt" "0 \<le> F" "F \<le> MaxInt"
  shows
    "(\<forall>w. 0 \<le> w \<and> w < n - 1 \<longrightarrow>
        providerRange F n w = (w * (F div n), (w + 1) * (F div n) - 1)) \<and>
     providerRange F n (n - 1) = ((n - 1) * (F div n), F - 1) \<and>
     (\<forall>w. 0 \<le> w \<and> w < n - 1 \<longrightarrow>
        fst (providerRange F n (w + 1)) = snd (providerRange F n w) + 1) \<and>
     (\<forall>w w' i. 0 \<le> w \<and> w < w' \<and> w' < n \<longrightarrow>
        \<not> (inRange i (providerRange F n w) \<and> inRange i (providerRange F n w'))) \<and>
     (\<forall>w. 0 \<le> w \<and> w < n - 1 \<longrightarrow>
        snd (providerRange F n w) - fst (providerRange F n w) + 1 = F div n) \<and>
     snd (providerRange F n (n - 1)) - fst (providerRange F n (n - 1)) + 1 = F div n + F mod n \<and>
     (\<forall>i. (\<exists>w. 0 \<le> w \<and> w < n \<and> inRange i (providerRange F n w)) \<longleftrightarrow> 0 \<le> i \<and> i < F) \<and>
     (\<forall>r \<in> set (providerRanges F n). \<exists>w. 0 \<le> w \<and> w < n \<and> r = providerRange F n w) \<and>
     length (providerRanges F n) = nat n"
proof -
  let ?e = "F div n"
  have "0 < n" using assms(1) by simp
  then have e0: "0 \<le> ?e" using assms(3) by (simp add: pos_imp_zdiv_nonneg_iff)
  have eq: "\<And>w. 0 \<le> w \<Longrightarrow> w < n \<Longrightarrow> providerRange F n w =
     (if w = n - 1 then ((n - 1) * ?e, F - 1) else (w * ?e, (w + 1) * ?e - 1))"
    using providerRange_eq [OF assms] by blast
  have c1: "\<forall>w. 0 \<le> w \<and> w < n - 1 \<longrightarrow>
        providerRange F n w = (w * ?e, (w + 1) * ?e - 1)"
    using eq by simp
  have c2: "providerRange F n (n - 1) = ((n - 1) * ?e, F - 1)"
    using eq [of "n - 1"] assms by simp
  have c3: "\<forall>w. 0 \<le> w \<and> w < n - 1 \<longrightarrow>
        fst (providerRange F n (w + 1)) = snd (providerRange F n w) + 1"
  proof (intro allI impI)
    fix w assume w: "0 \<le> w \<and> w < n - 1"
    then have "fst (providerRange F n (w + 1)) = (w + 1) * ?e"
      using eq [of "w + 1"] by (auto simp: algebra_simps)
    then show "fst (providerRange F n (w + 1)) = snd (providerRange F n w) + 1"
      using c1 w by simp
  qed
  have fst_eq: "\<And>w. 0 \<le> w \<Longrightarrow> w < n \<Longrightarrow> fst (providerRange F n w) = w * ?e"
    using eq by simp
  have snd_lt: "\<And>w. 0 \<le> w \<Longrightarrow> w < n - 1 \<Longrightarrow> snd (providerRange F n w) = (w + 1) * ?e - 1"
    using c1 by simp
  have c4: "\<forall>w w' i. 0 \<le> w \<and> w < w' \<and> w' < n \<longrightarrow>
        \<not> (inRange i (providerRange F n w) \<and> inRange i (providerRange F n w'))"
  proof (intro allI impI notI)
    fix w w' i
    assume w: "0 \<le> w \<and> w < w' \<and> w' < n"
      and r: "inRange i (providerRange F n w) \<and> inRange i (providerRange F n w')"
    have "i \<le> (w + 1) * ?e - 1" using r w snd_lt [of w] by (simp add: inRange_def)
    moreover have "(w + 1) * ?e \<le> w' * ?e" using w e0 by (intro mult_right_mono) simp_all
    moreover have "w' * ?e \<le> i" using r w fst_eq [of w'] by (simp add: inRange_def)
    ultimately show False by linarith
  qed
  have c5: "\<forall>w. 0 \<le> w \<and> w < n - 1 \<longrightarrow>
        snd (providerRange F n w) - fst (providerRange F n w) + 1 = ?e"
    using c1 by (simp add: algebra_simps)
  have nF: "n * ?e + F mod n = F" by simp
  have c6: "snd (providerRange F n (n - 1)) - fst (providerRange F n (n - 1)) + 1 = ?e + F mod n"
    using c2 nF by (simp add: algebra_simps)
  have c7: "\<forall>i. (\<exists>w. 0 \<le> w \<and> w < n \<and> inRange i (providerRange F n w)) \<longleftrightarrow> 0 \<le> i \<and> i < F"
  proof (intro allI iffI)
    fix i assume "\<exists>w. 0 \<le> w \<and> w < n \<and> inRange i (providerRange F n w)"
    then obtain w where w: "0 \<le> w" "w < n" "inRange i (providerRange F n w)" by blast
    have lo: "0 \<le> w * ?e" using w e0 by simp
    have i0: "w * ?e \<le> i" using w fst_eq [of w] by (simp add: inRange_def)
    show "0 \<le> i \<and> i < F"
    proof (cases "w = n - 1")
      case True
      then show ?thesis using w c2 lo i0 by (simp add: inRange_def)
    next
      case False
      then have "w < n - 1" using w by simp
      then have "i \<le> (w + 1) * ?e - 1" using w snd_lt [of w] by (simp add: inRange_def)
      moreover have "(w + 1) * ?e \<le> F" using each_bounds(2) [of n F "w + 1"] assms w by simp
      ultimately show ?thesis using lo i0 by linarith
    qed
  next
    fix i assume i: "0 \<le> i \<and> i < F"
    show "\<exists>w. 0 \<le> w \<and> w < n \<and> inRange i (providerRange F n w)"
    proof (cases "(n - 1) * ?e \<le> i")
      case True
      then have "inRange i (providerRange F n (n - 1))" using c2 i by (simp add: inRange_def)
      then show ?thesis using assms by (intro exI [of _ "n - 1"]) simp
    next
      case False
      then have epos: "0 < ?e" using e0 i assms
        by (cases "?e = 0") simp_all
      let ?w = "i div ?e"
      have w0: "0 \<le> ?w" using i epos by (simp add: pos_imp_zdiv_nonneg_iff)
      have lo: "?w * ?e \<le> i"
      proof -
        have "?w * ?e + i mod ?e = i" by (rule div_mult_mod_eq)
        moreover have "0 \<le> i mod ?e" using epos by simp
        ultimately show ?thesis by linarith
      qed
      have hi: "i < (?w + 1) * ?e"
      proof -
        have "?w * ?e + i mod ?e = i" by (rule div_mult_mod_eq)
        moreover have "i mod ?e < ?e" using epos by simp
        moreover have "(?w + 1) * ?e = ?w * ?e + ?e" by (simp add: algebra_simps)
        ultimately show ?thesis by linarith
      qed
      have wn: "?w < n - 1"
      proof (rule ccontr)
        assume "\<not> ?w < n - 1"
        then have "(n - 1) * ?e \<le> ?w * ?e" using e0 by (intro mult_right_mono) simp_all
        with lo False show False by linarith
      qed
      have "inRange i (providerRange F n ?w)"
        using c1 w0 wn lo hi by (simp add: inRange_def)
      then show ?thesis using w0 wn by (intro exI [of _ ?w]) simp
    qed
  qed
  have c8: "\<forall>r \<in> set (providerRanges F n). \<exists>w. 0 \<le> w \<and> w < n \<and> r = providerRange F n w"
    by (auto simp: providerRanges_def)
  have c9: "length (providerRanges F n) = nat n"
    using assms by (simp add: providerRanges_def)
  show ?thesis using c1 c2 c3 c4 c5 c6 c7 c8 c9 by blast
qed

theorem providerRange_partition_witness:
  "(1::int) \<le> 3 \<and> (3::int) \<le> MaxInt \<and> (0::int) \<le> 10 \<and> (10::int) \<le> MaxInt \<and>
   providerRanges 10 3 = [(0, 2), (3, 5), (6, 9)] \<and>
   providerRange 10 3 0 = (0, 2) \<and> providerRange 10 3 2 = (6, 9) \<and>
   inRange 4 (providerRange 10 3 1) \<and> \<not> inRange 4 (providerRange 10 3 2)"
  using providerRange_partition [of 3 10]
  by (simp add: MaxInt_def providerRanges_def providerRange_def quo_def int64_def inRange_def upto.simps)

text \<open>
  C7. If the lock is held, \<open>Initialize\<close> returns \<open>ErrAlreadyInitializing\<close> and
  \<open>Reset\<close> returns \<open>ErrCannotResetWhileInitializing\<close>, for every amount of fuel (so
  without waiting) and with the Initializer and the disk exactly as they were. If the
  lock is free, each takes it, holds it until its body has returned, and has released
  it whenever it returns.
\<close>

theorem lock_fail_fast:
  "(mtx init \<longrightarrow>
      Initialize fuel env init = Some (Some ErrAlreadyInitializing, init) \<and>
      Reset env init = (Some ErrCannotResetWhileInitializing, init)) \<and>
   (\<not> mtx init \<longrightarrow>
      (\<forall>r s. Initialize fuel env init = Some (r, s) \<longrightarrow>
         (\<exists>s'. Initialize_locked fuel env (init\<lparr>mtx := True\<rparr>) = Some (r, s') \<and>
               mtx s' \<and> s = s'\<lparr>mtx := False\<rparr>) \<and> \<not> mtx s) \<and>
      mtx (snd (Reset_locked env (init\<lparr>mtx := True\<rparr>))) \<and>
      Reset env init = (fst (Reset_locked env (init\<lparr>mtx := True\<rparr>)),
                        (snd (Reset_locked env (init\<lparr>mtx := True\<rparr>)))\<lparr>mtx := False\<rparr>) \<and>
      \<not> mtx (snd (Reset env init)))"
proof (intro conjI impI allI)
  assume "mtx init"
  then show "Initialize fuel env init = Some (Some ErrAlreadyInitializing, init)"
    by (simp add: Initialize_def)
next
  assume "mtx init"
  then show "Reset env init = (Some ErrCannotResetWhileInitializing, init)"
    by (simp add: Reset_def)
next
  fix r s
  assume f: "\<not> mtx init" and i: "Initialize fuel env init = Some (r, s)"
  then obtain s' where s': "Initialize_locked fuel env (init\<lparr>mtx := True\<rparr>) = Some (r, s')"
    and s: "s = s'\<lparr>mtx := False\<rparr>"
    by (auto simp: Initialize_def split: option.splits)
  have "sameConfig (init\<lparr>mtx := True\<rparr>) s'" using sameConfig_Initialize_locked s' by blast
  then have "mtx s'" by (simp add: sameConfig_def)
  then show "\<exists>s'. Initialize_locked fuel env (init\<lparr>mtx := True\<rparr>) = Some (r, s') \<and>
               mtx s' \<and> s = s'\<lparr>mtx := False\<rparr>"
    using s' s by blast
  show "\<not> mtx s" using s by simp
next
  have "sameConfig (init\<lparr>mtx := True\<rparr>) (snd (Reset_locked env (init\<lparr>mtx := True\<rparr>)))"
    by (rule sameConfig_Reset_locked)
  then show "mtx (snd (Reset_locked env (init\<lparr>mtx := True\<rparr>)))" by (simp add: sameConfig_def)
next
  assume "\<not> mtx init"
  then show "Reset env init = (fst (Reset_locked env (init\<lparr>mtx := True\<rparr>)),
                        (snd (Reset_locked env (init\<lparr>mtx := True\<rparr>)))\<lparr>mtx := False\<rparr>)"
    by (simp add: Reset_def case_prod_unfold)
next
  assume "\<not> mtx init"
  then show "\<not> mtx (snd (Reset env init))" by (simp add: Reset_def case_prod_unfold)
qed

theorem lock_fail_fast_witness:
  "mtx ((exampleInit 1)\<lparr>mtx := True\<rparr>) \<and>
   Initialize 0 (exampleEnv (\<lambda>p. p = 3)) ((exampleInit 1)\<lparr>mtx := True\<rparr>) =
     Some (Some ErrAlreadyInitializing, (exampleInit 1)\<lparr>mtx := True\<rparr>) \<and>
   Reset (exampleEnv (\<lambda>p. p = 3)) ((exampleInit 1)\<lparr>mtx := True\<rparr>) =
     (Some ErrCannotResetWhileInitializing, (exampleInit 1)\<lparr>mtx := True\<rparr>) \<and>
   \<not> mtx exampleDone \<and>
   Reset (exampleEnv (\<lambda>p. p = 3)) exampleDone = (None, (tick (tick (tick exampleDone)))\<lparr>files := []\<rparr>) \<and>
   (\<exists>s. Initialize 10 (exampleEnv (\<lambda>p. p = 3)) (exampleInit 1) = Some (None, s) \<and> \<not> mtx s)"
proof -
  have a: "mtx ((exampleInit 1)\<lparr>mtx := True\<rparr>)" by simp
  have b: "\<not> mtx exampleDone" "\<not> mtx (exampleInit 1)" by (simp_all add: exampleDone_def exampleInit_def)
  have r: "Reset (exampleEnv (\<lambda>p. p = 3)) exampleDone = (None, (tick (tick (tick exampleDone)))\<lparr>files := []\<rparr>)"
    by (simp add: Reset_def Reset_locked_def exampleDone_def exampleInit_def exampleEnv_def tick_def
       RemoveFile_def AList.delete_eq)
  have i: "fst (the (Initialize 10 (exampleEnv (\<lambda>p. p = 3)) (exampleInit 1))) = None \<and>
     Initialize 10 (exampleEnv (\<lambda>p. p = 3)) (exampleInit 1) \<noteq> None"
    by code_simp
  then obtain s where s: "Initialize 10 (exampleEnv (\<lambda>p. p = 3)) (exampleInit 1) = Some (None, s)"
    by (cases "Initialize 10 (exampleEnv (\<lambda>p. p = 3)) (exampleInit 1)") auto
  show ?thesis
    using lock_fail_fast [of "(exampleInit 1)\<lparr>mtx := True\<rparr>" 0 "exampleEnv (\<lambda>p. p = 3)"]
      lock_fail_fast [of "exampleInit 1" 10 "exampleEnv (\<lambda>p. p = 3)"] a b r s
    by auto
qed

text \<open>
  C9. For every value \<open>v\<close> of the \<open>numUnits\<close> flag, the number of units that
  \<^verbatim>\<open>parseFlags\<close> configures is \<open>v mod 2^32\<close>; no error is raised, and a value of
  \<open>2^32\<close> or more configures a smaller number of units than was asked for.
\<close>

theorem parse_numUnits:
  "unat (NumUnits (snd (parseFlags fl (c, io)))) = unat (flag_numUnits fl) mod 2 ^ 32 \<and>
   (2 ^ 32 \<le> unat (flag_numUnits fl) \<longrightarrow>
      unat (NumUnits (snd (parseFlags fl (c, io)))) < unat (flag_numUnits fl))"
proof -
  have e: "unat (NumUnits (snd (parseFlags fl (c, io)))) = unat (flag_numUnits fl) mod 2 ^ 32"
    by (simp add: parseFlags_def unsigned_ucast_eq take_bit_eq_mod)
  have "unat (flag_numUnits fl) mod 2 ^ 32 < (2::nat) ^ 32" by simp
  with e show ?thesis by auto
qed

theorem parse_numUnits_witness:
  "2 ^ 32 \<le> unat (flag_numUnits (exampleFlags 4294967300)) \<and>
   NumUnits (snd (parseFlags (exampleFlags 4294967300) (cfg (exampleInit 1), opts (exampleInit 1)))) = 4"
  using parse_numUnits [of "exampleFlags 4294967300" "cfg (exampleInit 1)" "opts (exampleInit 1)"]
  by (simp add: exampleFlags_def parseFlags_def exampleInit_def)

text \<open>
  C8. \<open>Initialize\<close> returns \<open>ErrNoNonceFound\<close> only when the search past the labels
  has reached \<open>MaxUint64\<close>: no nonce is retained then, the last position searched is
  \<open>MaxUint64\<close> itself or one batch below it, the files were removed and written without
  an error and without a nonce, and every turn of the search from its start up to
  \<open>MaxUint64\<close> passed quietly. Conversely, after \<open>k\<close> quiet turns the run returns
  \<open>ErrNoNonceFound\<close> when the position has reached \<open>MaxUint64\<close>, the error of the
  context when the context is cancelled at the poll, the error of the oracle when the
  oracle fails, and no error when the oracle reports a nonce, which is then retained. A
  nonce retained when the files are written returns no error. Before the search, an
  error of \<open>removeRedundantFiles\<close>, of the construction of the oracle or of \<open>initFiles\<close>
  is what \<open>Initialize\<close> returns, and it is never \<open>ErrNoNonceFound\<close>; and a failure
  of the file system, of the oracle or a cancelled context met by
  \<open>removeRedundantFiles\<close>, by \<open>initFile\<close>, by its loop or by a batch of it is what
  each of them returns to its caller.
\<close>

theorem NoNonceFound_only_at_bound:
  fixes env :: Env and init :: Initializer and fuel :: nat
  defines "layout \<equiv> deriveFilesLayout env (cfg init) (opts init)"
    and "bs \<equiv> ComputeBatchSize (opts init)"
    and "nl \<equiv> ucast (NumUnits (opts init)) * LabelsPerUnit (cfg init)"
  defines "start \<equiv>
      (\<lambda>s2. if lastPosition s2 = None \<or> the (lastPosition s2) < nl then nl else the (lastPosition s2))"
    and "written \<equiv>
      (\<lambda>s1 s2. \<not> mtx init \<and>
         removeRedundantFiles env layout (init\<lparr>mtx := True\<rparr>) = (None, s1) \<and>
         ioErr env OpOracleNew (clock s1) = None \<and>
         initFiles fuel env layout bs [0..<nat (sint (NumFiles layout))] (tick s1) = Some (None, s2))"
  shows
    "(Initialize fuel env init = Some (Some ErrNoNonceFound, s) \<longrightarrow>
        nonce s = None \<and>
        (\<exists>p. lastPosition s = Some p \<and> (p = MaxUint64 \<or> p + bs = MaxUint64)) \<and>
        (\<exists>s1 s2 k. written s1 s2 \<and> nonce s2 = None \<and> k < fuel \<and>
           quietBatches env bs (start s2) (clock s2) k \<and>
           start s2 + of_nat k * bs = MaxUint64)) \<and>
     (written s1 s2 \<and> nonce s2 = None \<and> k < fuel \<and>
      quietBatches env bs (start s2) (clock s2) k \<longrightarrow>
        (\<not> start s2 + of_nat k * bs < MaxUint64 \<longrightarrow>
           (\<exists>s'. Initialize fuel env init = Some (Some ErrNoNonceFound, s'))) \<and>
        (start s2 + of_nat k * bs < MaxUint64 \<and> ctxDone env (clock s2 + 2 * k) \<longrightarrow>
           (\<exists>s'. Initialize fuel env init = Some (Some ContextErr, s'))) \<and>
        (start s2 + of_nat k * bs < MaxUint64 \<and> \<not> ctxDone env (clock s2 + 2 * k) \<and>
         Positions env (Suc (clock s2 + 2 * k)) (start s2 + of_nat k * bs)
           (start s2 + of_nat k * bs + bs - 1) = Inl m \<longrightarrow>
           (\<exists>s'. Initialize fuel env init = Some (Some (OracleErr m), s'))) \<and>
        (start s2 + of_nat k * bs < MaxUint64 \<and> \<not> ctxDone env (clock s2 + 2 * k) \<and>
         Positions env (Suc (clock s2 + 2 * k)) (start s2 + of_nat k * bs)
           (start s2 + of_nat k * bs + bs - 1) = Inr res \<and> res_Nonce res = Some n \<longrightarrow>
           (\<exists>s'. Initialize fuel env init = Some (None, s') \<and> nonce s' = Some n))) \<and>
     (written s1 s2 \<and> nonce s2 \<noteq> None \<longrightarrow>
        Initialize fuel env init = Some (None, s2\<lparr>mtx := False\<rparr>)) \<and>
     (\<not> mtx init \<and> removeRedundantFiles env layout (init\<lparr>mtx := True\<rparr>) = (Some e, s1) \<longrightarrow>
        Initialize fuel env init = Some (Some e, s1\<lparr>mtx := False\<rparr>) \<and> e \<noteq> ErrNoNonceFound) \<and>
     (\<not> mtx init \<and> removeRedundantFiles env layout (init\<lparr>mtx := True\<rparr>) = (None, s1) \<and>
      ioErr env OpOracleNew (clock s1) = Some m \<longrightarrow>
        Initialize fuel env init = Some (Some (OracleErr m), (tick s1)\<lparr>mtx := False\<rparr>)) \<and>
     (\<not> mtx init \<and> removeRedundantFiles env layout (init\<lparr>mtx := True\<rparr>) = (None, s1) \<and>
      ioErr env OpOracleNew (clock s1) = None \<and>
      initFiles fuel env layout bs [0..<nat (sint (NumFiles layout))] (tick s1) = Some (Some e, s2) \<longrightarrow>
        Initialize fuel env init = Some (Some e, s2\<lparr>mtx := False\<rparr>) \<and> e \<noteq> ErrNoNonceFound) \<and>
     (ioErr env OpDiskNumFilesWritten (clock t) = Some m \<longrightarrow>
        removeRedundantFiles env layout t = (Some (IOErr m), tick t)) \<and>
     (ioErr env OpDiskNumFilesWritten (clock t) = None \<and>
      [sint (NumFiles layout)..int (length (files t)) - 1] = xs @ x # ys \<and>
      removeFiles env (map InitFileName xs) (tick t) = (None, t1) \<and>
      ioErr env OpRemoveFile (clock t1) = Some m \<longrightarrow>
        removeRedundantFiles env layout t = (Some (IOErr ''failed to delete file''), tick t1)) \<and>
     (initFiles fuel env layout b is t = Some (None, t1) \<and>
      initFile fuel env i b (of_nat i * FileNumLabels layout)
        (if int i = sint (NumFiles layout) - 1 then LastFileNumLabels layout
         else FileNumLabels layout) t1 = Some (Some e, t2) \<longrightarrow>
        initFiles fuel env layout b (is @ i # js) t = Some (Some e, t2)) \<and>
     (ioErr env OpNewLabelsWriter (clock t) = Some m \<longrightarrow>
        initFile fuel env i b fo fn t = Some (Some (IOErr m), tick t)) \<and>
     (ioErr env OpNewLabelsWriter (clock t) = None \<and>
      ioErr env OpWriterNumLabelsWritten (Suc (clock t)) = Some m \<longrightarrow>
        (\<exists>t'. initFile fuel env i b fo fn t = Some (Some (IOErr m), t'))) \<and>
     (ioErr env OpNewLabelsWriter (clock t) = None \<and>
      ioErr env OpWriterNumLabelsWritten (Suc (clock t)) = None \<longrightarrow>
        (fn < of_nat (length (fileContent t i) div labelSize) \<and>
         ioErr env OpTruncate (Suc (Suc (clock t))) = Some m \<longrightarrow>
           (\<exists>t'. initFile fuel env i b fo fn t = Some (Some (IOErr m), t'))) \<and>
        (of_nat (length (fileContent t i) div labelSize) < fn \<longrightarrow>
           (initFile_loop fuel env i b fo fn (of_nat (length (fileContent t i) div labelSize))
              (tick (snd (NewLabelsWriter env i t))) = Some (Some e, t3) \<longrightarrow>
              initFile fuel env i b fo fn t = Some (Some e, t3)) \<and>
           (initFile_loop fuel env i b fo fn (of_nat (length (fileContent t i) div labelSize))
              (tick (snd (NewLabelsWriter env i t))) = Some (None, t3) \<and>
            ioErr env OpFlush (clock t3) = Some m \<longrightarrow>
              (\<exists>t'. initFile fuel env i b fo fn t = Some (Some (IOErr m), t'))) \<and>
           (initFile_loop fuel env i b fo fn (of_nat (length (fileContent t i) div labelSize))
              (tick (snd (NewLabelsWriter env i t))) = Some (None, t3) \<and>
            ioErr env OpFlush (clock t3) = None \<and>
            ioErr env OpWriterNumLabelsWritten (Suc (clock t3)) = Some m \<longrightarrow>
              (\<exists>t'. initFile fuel env i b fo fn t = Some (Some (IOErr m), t'))))) \<and>
     (cur < fn \<and> initFile_batch env i b fo fn cur t = Inl (e, t') \<longrightarrow>
        initFile_loop (Suc fuel) env i b fo fn cur t = Some (Some e, t')) \<and>
     (ctxDone env (clock t) \<longrightarrow>
        initFile_batch env i b fo fn cur t =
          Inl (case ioErr env OpFlush (Suc (clock t)) of None \<Rightarrow> ContextErr | Some m \<Rightarrow> IOErr m,
               tick (tick t))) \<and>
     (\<not> ctxDone env (clock t) \<and>
      Positions env (Suc (clock t)) (fo + cur)
        (fo + cur + (if fn - cur < b then fn - cur else b) - 1) = Inl m \<longrightarrow>
        initFile_batch env i b fo fn cur t = Inl (OracleErr m, tick (tick t))) \<and>
     (\<not> ctxDone env (clock t) \<and>
      Positions env (Suc (clock t)) (fo + cur)
        (fo + cur + (if fn - cur < b then fn - cur else b) - 1) = Inr res \<and>
      initFile_nonce env res (fo + cur) (tick (tick t)) = Inr t2 \<and>
      ioErr env OpWrite (clock t2) = Some m \<longrightarrow>
        initFile_batch env i b fo fn cur t = Inl (IOErr m, tick t2))"
proof (intro conjI)
  show "Initialize fuel env init = Some (Some ErrNoNonceFound, s) \<longrightarrow>
        nonce s = None \<and>
        (\<exists>p. lastPosition s = Some p \<and> (p = MaxUint64 \<or> p + bs = MaxUint64)) \<and>
        (\<exists>s1 s2 k. written s1 s2 \<and> nonce s2 = None \<and> k < fuel \<and>
           quietBatches env bs (start s2) (clock s2) k \<and>
           start s2 + of_nat k * bs = MaxUint64)"
  proof (intro impI conjI)
    assume a: "Initialize fuel env init = Some (Some ErrNoNonceFound, s)"
    have nl: "\<not> mtx init" using a by (auto simp: Initialize_def)
    obtain s' where l: "Initialize_locked fuel env (init\<lparr>mtx := True\<rparr>) = Some (Some ErrNoNonceFound, s')"
      and s: "s = s'\<lparr>mtx := False\<rparr>"
      using a nl by (auto simp: Initialize_def split: option.splits)
    have "\<exists>s2. nonce s2 = None \<and>
        continueSearch fuel env (ucast (NumUnits (opts init)) * LabelsPerUnit (cfg init))
                (ComputeBatchSize (opts init)) s2 = Some (Some ErrNoNonceFound, s')"
      using Initialize_locked_SomeD [OF l]
        removeRedundantFiles_error [of env "deriveFilesLayout env (cfg init) (opts init)" "init\<lparr>mtx := True\<rparr>"]
        initFiles_error [of fuel env "deriveFilesLayout env (cfg init) (opts init)"
           "ComputeBatchSize (opts init)" _ _ ErrNoNonceFound s']
      by auto
    then obtain s2 where nn: "nonce s2 = None"
      and c: "continueSearch fuel env (ucast (NumUnits (opts init)) * LabelsPerUnit (cfg init))
                (ComputeBatchSize (opts init)) s2 = Some (Some ErrNoNonceFound, s')"
      by blast
    from continueSearch_exhausted [OF c] nn s
    show "nonce s = None"
      "\<exists>p. lastPosition s = Some p \<and> (p = MaxUint64 \<or> p + bs = MaxUint64)"
      by (simp_all add: bs_def)
    show "\<exists>s1 s2 k. written s1 s2 \<and> nonce s2 = None \<and> k < fuel \<and>
           quietBatches env bs (start s2) (clock s2) k \<and>
           start s2 + of_nat k * bs = MaxUint64"
      using Initialize_exhausted_quiet [OF a]
      unfolding written_def start_def layout_def bs_def nl_def by blast
  qed
  show "written s1 s2 \<and> nonce s2 = None \<and> k < fuel \<and>
      quietBatches env bs (start s2) (clock s2) k \<longrightarrow>
        (\<not> start s2 + of_nat k * bs < MaxUint64 \<longrightarrow>
           (\<exists>s'. Initialize fuel env init = Some (Some ErrNoNonceFound, s'))) \<and>
        (start s2 + of_nat k * bs < MaxUint64 \<and> ctxDone env (clock s2 + 2 * k) \<longrightarrow>
           (\<exists>s'. Initialize fuel env init = Some (Some ContextErr, s'))) \<and>
        (start s2 + of_nat k * bs < MaxUint64 \<and> \<not> ctxDone env (clock s2 + 2 * k) \<and>
         Positions env (Suc (clock s2 + 2 * k)) (start s2 + of_nat k * bs)
           (start s2 + of_nat k * bs + bs - 1) = Inl m \<longrightarrow>
           (\<exists>s'. Initialize fuel env init = Some (Some (OracleErr m), s'))) \<and>
        (start s2 + of_nat k * bs < MaxUint64 \<and> \<not> ctxDone env (clock s2 + 2 * k) \<and>
         Positions env (Suc (clock s2 + 2 * k)) (start s2 + of_nat k * bs)
           (start s2 + of_nat k * bs + bs - 1) = Inr res \<and> res_Nonce res = Some n \<longrightarrow>
           (\<exists>s'. Initialize fuel env init = Some (None, s') \<and> nonce s' = Some n))"
  proof
    assume h: "written s1 s2 \<and> nonce s2 = None \<and> k < fuel \<and>
      quietBatches env bs (start s2) (clock s2) k"
    then have w: "\<not> mtx init"
      "removeRedundantFiles env layout (init\<lparr>mtx := True\<rparr>) = (None, s1)"
      "ioErr env OpOracleNew (clock s1) = None"
      "initFiles fuel env layout bs [0..<nat (sint (NumFiles layout))] (tick s1) = Some (None, s2)"
      "nonce s2 = None" "k < fuel" "quietBatches env bs (start s2) (clock s2) k"
      by (simp_all add: written_def)
    have st: "start s2 = (if lastPosition s2 = None \<or> the (lastPosition s2) < nl then nl
                          else the (lastPosition s2))"
      by (simp add: start_def)
    show "(\<not> start s2 + of_nat k * bs < MaxUint64 \<longrightarrow>
           (\<exists>s'. Initialize fuel env init = Some (Some ErrNoNonceFound, s'))) \<and>
        (start s2 + of_nat k * bs < MaxUint64 \<and> ctxDone env (clock s2 + 2 * k) \<longrightarrow>
           (\<exists>s'. Initialize fuel env init = Some (Some ContextErr, s'))) \<and>
        (start s2 + of_nat k * bs < MaxUint64 \<and> \<not> ctxDone env (clock s2 + 2 * k) \<and>
         Positions env (Suc (clock s2 + 2 * k)) (start s2 + of_nat k * bs)
           (start s2 + of_nat k * bs + bs - 1) = Inl m \<longrightarrow>
           (\<exists>s'. Initialize fuel env init = Some (Some (OracleErr m), s'))) \<and>
        (start s2 + of_nat k * bs < MaxUint64 \<and> \<not> ctxDone env (clock s2 + 2 * k) \<and>
         Positions env (Suc (clock s2 + 2 * k)) (start s2 + of_nat k * bs)
           (start s2 + of_nat k * bs + bs - 1) = Inr res \<and> res_Nonce res = Some n \<longrightarrow>
           (\<exists>s'. Initialize fuel env init = Some (None, s') \<and> nonce s' = Some n))"
      using Initialize_search_returns [of init env s1 fuel s2 k "start s2",
          folded layout_def bs_def nl_def, OF w(1-6) st w(7)]
      by blast
  qed
  note ph = Initialize_phases [of init fuel env, folded layout_def bs_def nl_def]
  show "written s1 s2 \<and> nonce s2 \<noteq> None \<longrightarrow>
        Initialize fuel env init = Some (None, s2\<lparr>mtx := False\<rparr>)"
    using ph by (auto simp: written_def)
  show "\<not> mtx init \<and> removeRedundantFiles env layout (init\<lparr>mtx := True\<rparr>) = (Some e, s1) \<longrightarrow>
        Initialize fuel env init = Some (Some e, s1\<lparr>mtx := False\<rparr>) \<and> e \<noteq> ErrNoNonceFound"
    using ph removeRedundantFiles_error [of env layout "init\<lparr>mtx := True\<rparr>"] by auto
  show "\<not> mtx init \<and> removeRedundantFiles env layout (init\<lparr>mtx := True\<rparr>) = (None, s1) \<and>
      ioErr env OpOracleNew (clock s1) = Some m \<longrightarrow>
        Initialize fuel env init = Some (Some (OracleErr m), (tick s1)\<lparr>mtx := False\<rparr>)"
    using ph by auto
  show "\<not> mtx init \<and> removeRedundantFiles env layout (init\<lparr>mtx := True\<rparr>) = (None, s1) \<and>
      ioErr env OpOracleNew (clock s1) = None \<and>
      initFiles fuel env layout bs [0..<nat (sint (NumFiles layout))] (tick s1) = Some (Some e, s2) \<longrightarrow>
        Initialize fuel env init = Some (Some e, s2\<lparr>mtx := False\<rparr>) \<and> e \<noteq> ErrNoNonceFound"
    using ph initFiles_error [of fuel env layout bs _ "tick s1" e s2] by auto
  show "ioErr env OpDiskNumFilesWritten (clock t) = Some m \<longrightarrow>
        removeRedundantFiles env layout t = (Some (IOErr m), tick t)"
    using removeRedundantFiles_failures(1) [of env t m layout] by blast
  show "ioErr env OpDiskNumFilesWritten (clock t) = None \<and>
      [sint (NumFiles layout)..int (length (files t)) - 1] = xs @ x # ys \<and>
      removeFiles env (map InitFileName xs) (tick t) = (None, t1) \<and>
      ioErr env OpRemoveFile (clock t1) = Some m \<longrightarrow>
        removeRedundantFiles env layout t = (Some (IOErr ''failed to delete file''), tick t1)"
    using removeRedundantFiles_failures(2) [of env t layout xs x ys t1 m] by blast
  show "initFiles fuel env layout b is t = Some (None, t1) \<and>
      initFile fuel env i b (of_nat i * FileNumLabels layout)
        (if int i = sint (NumFiles layout) - 1 then LastFileNumLabels layout
         else FileNumLabels layout) t1 = Some (Some e, t2) \<longrightarrow>
        initFiles fuel env layout b (is @ i # js) t = Some (Some e, t2)"
    using initFiles_first_error [of fuel env layout b "is" t t1 i e t2 js] by blast
  show "ioErr env OpNewLabelsWriter (clock t) = Some m \<longrightarrow>
        initFile fuel env i b fo fn t = Some (Some (IOErr m), tick t)"
    using initFile_failures(1) [of env t m fuel i b fo fn] by blast
  show "ioErr env OpNewLabelsWriter (clock t) = None \<and>
      ioErr env OpWriterNumLabelsWritten (Suc (clock t)) = Some m \<longrightarrow>
        (\<exists>t'. initFile fuel env i b fo fn t = Some (Some (IOErr m), t'))"
    using initFile_failures(2) [of env t m fuel i b fo fn] by blast
  show "ioErr env OpNewLabelsWriter (clock t) = None \<and>
      ioErr env OpWriterNumLabelsWritten (Suc (clock t)) = None \<longrightarrow>
        (fn < of_nat (length (fileContent t i) div labelSize) \<and>
         ioErr env OpTruncate (Suc (Suc (clock t))) = Some m \<longrightarrow>
           (\<exists>t'. initFile fuel env i b fo fn t = Some (Some (IOErr m), t'))) \<and>
        (of_nat (length (fileContent t i) div labelSize) < fn \<longrightarrow>
           (initFile_loop fuel env i b fo fn (of_nat (length (fileContent t i) div labelSize))
              (tick (snd (NewLabelsWriter env i t))) = Some (Some e, t3) \<longrightarrow>
              initFile fuel env i b fo fn t = Some (Some e, t3)) \<and>
           (initFile_loop fuel env i b fo fn (of_nat (length (fileContent t i) div labelSize))
              (tick (snd (NewLabelsWriter env i t))) = Some (None, t3) \<and>
            ioErr env OpFlush (clock t3) = Some m \<longrightarrow>
              (\<exists>t'. initFile fuel env i b fo fn t = Some (Some (IOErr m), t'))) \<and>
           (initFile_loop fuel env i b fo fn (of_nat (length (fileContent t i) div labelSize))
              (tick (snd (NewLabelsWriter env i t))) = Some (None, t3) \<and>
            ioErr env OpFlush (clock t3) = None \<and>
            ioErr env OpWriterNumLabelsWritten (Suc (clock t3)) = Some m \<longrightarrow>
              (\<exists>t'. initFile fuel env i b fo fn t = Some (Some (IOErr m), t'))))"
    using initFile_failures(3) [of env t fn i m fuel b fo]
      initFile_failures(4) [of env t i fn fuel b fo e t3]
      initFile_failures(5) [of env t i fn fuel b fo t3 m]
      initFile_failures(6) [of env t i fn fuel b fo t3 m]
    by blast
  show "cur < fn \<and> initFile_batch env i b fo fn cur t = Inl (e, t') \<longrightarrow>
        initFile_loop (Suc fuel) env i b fo fn cur t = Some (Some e, t')"
    by simp
  show "ctxDone env (clock t) \<longrightarrow>
        initFile_batch env i b fo fn cur t =
          Inl (case ioErr env OpFlush (Suc (clock t)) of None \<Rightarrow> ContextErr | Some m \<Rightarrow> IOErr m,
               tick (tick t))"
    using initFile_batch_cancelled [of env t i b fo fn cur] by blast
  show "\<not> ctxDone env (clock t) \<and>
      Positions env (Suc (clock t)) (fo + cur)
        (fo + cur + (if fn - cur < b then fn - cur else b) - 1) = Inl m \<longrightarrow>
        initFile_batch env i b fo fn cur t = Inl (OracleErr m, tick (tick t))"
    using initFile_batch_oracle_error [of env t fo cur fn b m i] by blast
  show "\<not> ctxDone env (clock t) \<and>
      Positions env (Suc (clock t)) (fo + cur)
        (fo + cur + (if fn - cur < b then fn - cur else b) - 1) = Inr res \<and>
      initFile_nonce env res (fo + cur) (tick (tick t)) = Inr t2 \<and>
      ioErr env OpWrite (clock t2) = Some m \<longrightarrow>
        initFile_batch env i b fo fn cur t = Inl (IOErr m, tick t2)"
    using initFile_batch_write_error [of env t fo cur fn b res t2 m i] by blast
qed

theorem NoNonceFound_only_at_bound_witness:
  "Initialize 10 exampleQuiet exampleAtBound =
     Some (Some ErrNoNonceFound, snd (the (Initialize 10 exampleQuiet exampleAtBound))) \<and>
   nonce (snd (the (Initialize 10 exampleQuiet exampleAtBound))) = None \<and>
   lastPosition (snd (the (Initialize 10 exampleQuiet exampleAtBound))) =
     Some 18446744073709551613 \<and>
   18446744073709551613 + ComputeBatchSize (opts exampleAtBound) = MaxUint64 \<and>
   quietBatches exampleQuiet 2 18446744073709551613 6 1 \<and>
   quietBatches exampleStop 2 4 6 1 \<and> ctxDone exampleStop 8 \<and>
   (\<exists>s'. Initialize 10 exampleStop exampleSearching = Some (Some ContextErr, s')) \<and>
   quietBatches exampleOracleDown 2 4 6 1 \<and>
   Positions exampleOracleDown 9 6 7 = Inl ''oracle closed'' \<and>
   (\<exists>s'. Initialize 10 exampleOracleDown exampleSearching =
           Some (Some (OracleErr ''oracle closed''), s')) \<and>
   quietBatches exampleLate 2 4 6 1 \<and>
   map_sum id res_Nonce (Positions exampleLate 9 6 7) = Inr (Some 7) \<and>
   (\<exists>s'. Initialize 10 exampleLate exampleSearching = Some (None, s') \<and> nonce s' = Some 7) \<and>
   (\<exists>s'. Initialize 10 exampleWriteFails (exampleInit 1) = Some (Some (IOErr ''disk full''), s')) \<and>
   (\<exists>s'. initFile_batch exampleWriteFails 0 2 0 2 0 (exampleInit 1) = Inl (IOErr ''disk full'', s')) \<and>
   initFile_batch exampleCancel 0 2 0 2 0 exampleCancelled =
     Inl (ContextErr, tick (tick exampleCancelled))"
proof -
  let ?rr = "\<lambda>env init. snd (removeRedundantFiles env (deriveFilesLayout env (cfg init) (opts init))
                (init\<lparr>mtx := True\<rparr>))"
  let ?fs = "\<lambda>env init. snd (the (initFiles 10 env (deriveFilesLayout env (cfg init) (opts init))
                (ComputeBatchSize (opts init))
                [0..<nat (sint (NumFiles (deriveFilesLayout env (cfg init) (opts init))))]
                (tick (?rr env init))))"
  have a: "fst (the (Initialize 10 exampleQuiet exampleAtBound)) = Some ErrNoNonceFound \<and>
     Initialize 10 exampleQuiet exampleAtBound \<noteq> None \<and>
     lastPosition (snd (the (Initialize 10 exampleQuiet exampleAtBound))) =
     Some 18446744073709551613"
    by code_simp
  then have b: "Initialize 10 exampleQuiet exampleAtBound =
     Some (Some ErrNoNonceFound, snd (the (Initialize 10 exampleQuiet exampleAtBound)))"
    by (cases "Initialize 10 exampleQuiet exampleAtBound") auto
  have c: "18446744073709551613 + ComputeBatchSize (opts exampleAtBound) = MaxUint64"
    by (simp add: exampleAtBound_def exampleDone_def exampleInit_def MaxUint64_def)
  have d: "nonce (snd (the (Initialize 10 exampleQuiet exampleAtBound))) = None"
    using NoNonceFound_only_at_bound [where env = exampleQuiet and init = exampleAtBound
        and fuel = 10 and s = "snd (the (Initialize 10 exampleQuiet exampleAtBound))",
        THEN conjunct1, THEN mp, OF b]
    by blast
  have q: "quietBatches exampleQuiet 2 18446744073709551613 6 1"
    "quietBatches exampleStop 2 4 6 1" "ctxDone exampleStop 8"
    "quietBatches exampleOracleDown 2 4 6 1"
    "Positions exampleOracleDown 9 6 7 = Inl ''oracle closed''"
    "quietBatches exampleLate 2 4 6 1"
    "map_sum id res_Nonce (Positions exampleLate 9 6 7) = Inr (Some 7)"
    by code_simp+
  have e: "\<exists>s'. Initialize 10 exampleStop exampleSearching = Some (Some ContextErr, s')"
    apply (rule NoNonceFound_only_at_bound [where env = exampleStop and init = exampleSearching
        and fuel = 10 and k = 1 and ?s1.0 = "?rr exampleStop exampleSearching"
        and ?s2.0 = "?fs exampleStop exampleSearching",
        THEN conjunct2, THEN conjunct1, THEN mp, THEN conjunct2, THEN conjunct1, THEN mp])
     apply code_simp
    apply code_simp
    done
  have f: "\<exists>s'. Initialize 10 exampleOracleDown exampleSearching =
           Some (Some (OracleErr ''oracle closed''), s')"
    apply (rule NoNonceFound_only_at_bound [where env = exampleOracleDown and init = exampleSearching
        and fuel = 10 and k = 1 and ?s1.0 = "?rr exampleOracleDown exampleSearching"
        and ?s2.0 = "?fs exampleOracleDown exampleSearching",
        THEN conjunct2, THEN conjunct1, THEN mp, THEN conjunct2, THEN conjunct2, THEN conjunct1,
        THEN mp])
     apply code_simp
    apply code_simp
    done
  have g: "\<exists>s'. Initialize 10 exampleLate exampleSearching = Some (None, s') \<and> nonce s' = Some 7"
    apply (rule NoNonceFound_only_at_bound [where env = exampleLate and init = exampleSearching
        and fuel = 10 and k = 1 and ?s1.0 = "?rr exampleLate exampleSearching"
        and ?s2.0 = "?fs exampleLate exampleSearching"
        and res = "projr (Positions exampleLate 9 6 7)",
        THEN conjunct2, THEN conjunct1, THEN mp, THEN conjunct2, THEN conjunct2, THEN conjunct2,
        THEN mp])
     apply code_simp
    apply code_simp
    done
  have h: "\<exists>s'. Initialize 10 exampleWriteFails (exampleInit 1) = Some (Some (IOErr ''disk full''), s')"
    apply (rule exI)
    apply (rule NoNonceFound_only_at_bound [where env = exampleWriteFails and init = "exampleInit 1"
        and fuel = 10 and ?s1.0 = "?rr exampleWriteFails (exampleInit 1)"
        and ?s2.0 = "?fs exampleWriteFails (exampleInit 1)",
        THEN conjunct2, THEN conjunct2, THEN conjunct2, THEN conjunct2, THEN conjunct2,
        THEN conjunct1, THEN mp, THEN conjunct1])
    apply code_simp
    done
  have i: "\<exists>s'. initFile_batch exampleWriteFails 0 2 0 2 0 (exampleInit 1) = Inl (IOErr ''disk full'', s')"
    apply (rule exI)
    apply (rule NoNonceFound_only_at_bound [where env = exampleWriteFails and t = "exampleInit 1"
        and fo = 0 and cur = 0 and fn = 2 and b = 2
        and res = "projr (Positions exampleWriteFails 1 0 1)"
        and ?t2.0 = "tick (tick (exampleInit 1))",
        THEN conjunct2, THEN conjunct2, THEN conjunct2, THEN conjunct2, THEN conjunct2,
        THEN conjunct2, THEN conjunct2, THEN conjunct2, THEN conjunct2, THEN conjunct2,
        THEN conjunct2, THEN conjunct2, THEN conjunct2, THEN conjunct2, THEN conjunct2, THEN mp])
    apply code_simp
    done
  have j: "initFile_batch exampleCancel 0 2 0 2 0 exampleCancelled =
     Inl (ContextErr, tick (tick exampleCancelled))"
  proof -
    have "ctxDone exampleCancel (clock exampleCancelled)"
      "ioErr exampleCancel OpFlush (Suc (clock exampleCancelled)) = None"
      by code_simp+
    then show ?thesis
      using NoNonceFound_only_at_bound [where env = exampleCancel and t = exampleCancelled
        and i = 0 and fo = 0 and cur = 0 and fn = 2 and b = 2,
        THEN conjunct2, THEN conjunct2, THEN conjunct2, THEN conjunct2, THEN conjunct2,
        THEN conjunct2, THEN conjunct2, THEN conjunct2, THEN conjunct2, THEN conjunct2,
        THEN conjunct2, THEN conjunct2, THEN conjunct2, THEN conjunct1]
      by simp
  qed
  show ?thesis using b c d a q e f g h i j by simp
qed








text \<open>
  The claim as the specification words it fails: a first run retains position 1 and
  records it, and is cancelled before the second file; the Initializer constructed on
  that directory has position 1 and no 16 bytes; its run meets the candidate at
  position 3, whose 16 bytes compare larger than those of position 1, replaces the retained
  position by 3 and records it. A run that is not interrupted keeps position 1.
\<close>

theorem restart_forgets_retained_value:
  "fst (the (Initialize 10 exampleRisingCancel (exampleInit 1))) = Some ContextErr \<and>
   nonce exampleInterrupted = Some 1 \<and>
   nonceValue exampleInterrupted = Some (exampleRisingLabel 1) \<and>
   map_option m_Nonce (metadata exampleInterrupted) = Some (Some 1) \<and>
   NewInitializer exampleRising exampleOptions (files exampleInterrupted)
     (metadata exampleInterrupted) 0 = Inr exampleRestarted \<and>
   nonce exampleRestarted = Some 1 \<and>
   nonceValue exampleRestarted = None \<and>
   fst (the (Initialize 10 exampleRising exampleRestarted)) = None \<and>
   nonce (snd (the (Initialize 10 exampleRising exampleRestarted))) = Some 3 \<and>
   nonceValue (snd (the (Initialize 10 exampleRising exampleRestarted))) = Some (exampleRisingLabel 3) \<and>
   map_option m_Nonce (metadata (snd (the (Initialize 10 exampleRising exampleRestarted)))) =
     Some (Some 3) \<and>
   bytes_Compare (exampleRisingLabel 3) (exampleRisingLabel 1) = 1 \<and>
   nonce (snd (the (Initialize 10 exampleRising (exampleInit 1)))) = Some 1"
  by code_simp

text \<open>
  C5. When \<open>initFile\<close> has opened the writer and read the count of labels in the file,
  it does one of three things. If the count equals the target, it returns at once, for
  every fuel, oracle and context, with every file as it was. If the count exceeds the
  target, it truncates the file to the first target-many labels, again without the
  oracle, and leaves the other files and the retained nonce alone. Otherwise, with a
  batch size that is not zero, no cancellation, no failure of the file system and an
  oracle that answers every range with its labels, it returns after appending to the
  file exactly the labels of the positions from the current offset up to the target.
\<close>

theorem initFile_resumes:
  assumes io: "\<forall>op t. op \<noteq> OpSaveMetadata \<longrightarrow> ioErr env op t = None"
    and w: "written = of_nat (length (fileContent s fi) div labelSize)"
  shows
   "(written = fn \<longrightarrow>
       (\<exists>s'. (\<forall>fuel P d. initFile fuel (env\<lparr>Positions := P, ctxDone := d\<rparr>) fi bs fo fn s = Some (None, s')) \<and>
             (\<forall>j. fileContent s' j = fileContent s j) \<and> numLabelsWritten s' = fo + fn \<and>
             nonce s' = nonce s \<and> nonceValue s' = nonceValue s \<and> metadata s' = metadata s)) \<and>
    (fn < written \<longrightarrow>
       (\<exists>s'. (\<forall>fuel P d. initFile fuel (env\<lparr>Positions := P, ctxDone := d\<rparr>) fi bs fo fn s = Some (None, s')) \<and>
             fileContent s' fi = take (unat fn * labelSize) (fileContent s fi) \<and>
             length (fileContent s' fi) = unat fn * labelSize \<and>
             (\<forall>j. j \<noteq> fi \<longrightarrow> fileContent s' j = fileContent s j) \<and> numLabelsWritten s' = fo + fn \<and>
             nonce s' = nonce s \<and> nonceValue s' = nonceValue s \<and> metadata s' = metadata s)) \<and>
    (written < fn \<and> bs \<noteq> 0 \<and> (\<forall>t. \<not> ctxDone env t) \<and> (\<forall>p. length (label p) = 16) \<and>
     (\<forall>t a b. \<exists>nf. Positions env t a b =
                Inr \<lparr>Output = labelsFrom label a (Suc (unat (b - a))), res_Nonce = nf\<rparr> \<and>
                (\<forall>n. nf = Some n \<longrightarrow> unat (n - a) \<le> unat (b - a))) \<longrightarrow>
       (\<exists>fuel s'. initFile fuel env fi bs fo fn s = Some (None, s') \<and>
             fileContent s' fi =
               fileContent s fi @ labelsFrom label (fo + written) (unat (fn - written)) \<and>
             of_nat (length (fileContent s' fi) div labelSize) = fn \<and>
             (\<forall>j. j \<noteq> fi \<longrightarrow> fileContent s' j = fileContent s j) \<and>
             numLabelsWritten s' = fo + fn))"
proof (intro conjI impI)
  define s2 where "s2 = tick (snd (NewLabelsWriter env fi s))"
  have nw: "ioErr env OpNewLabelsWriter (clock s) = None"
    and nl: "\<And>t. ioErr env OpWriterNumLabelsWritten t = None"
    and tr: "\<And>t. ioErr env OpTruncate t = None"
    and wr: "\<forall>t. ioErr env OpWrite t = None"
    and fl: "\<And>t. ioErr env OpFlush t = None"
    using io by simp_all
  have s2: "\<And>j. fileContent s2 j = fileContent s j" "nonce s2 = nonce s"
    "nonceValue s2 = nonceValue s" "metadata s2 = metadata s"
    using NewLabelsWriter_ok [OF nw, where fi = fi] by (simp_all add: s2_def)
  have pre: "\<And>fuel P d. initFile fuel (env\<lparr>Positions := P, ctxDone := d\<rparr>) fi bs fo fn s =
     (if written = fn then Some (None, s2\<lparr>numLabelsWritten := fo + fn\<rparr>)
         else if written > fn then
           (case writer_Truncate env fi fn s2 of
              (Some e, s3) \<Rightarrow> Some (Some e, s3)
            | (None, s3) \<Rightarrow> Some (None, s3\<lparr>numLabelsWritten := fo + fn\<rparr>))
         else
           (case initFile_loop fuel (env\<lparr>Positions := P, ctxDone := d\<rparr>) fi bs fo fn written s2 of
              None \<Rightarrow> None
            | Some (Some e, s3) \<Rightarrow> Some (Some e, s3)
            | Some (None, s3) \<Rightarrow>
                (case writer_Flush (env\<lparr>Positions := P, ctxDone := d\<rparr>) fi s3 of
                   (Some e, s4) \<Rightarrow> Some (Some e, s4)
                 | (None, s4) \<Rightarrow>
                     (case writer_NumLabelsWritten (env\<lparr>Positions := P, ctxDone := d\<rparr>) fi s4 of
                        (Inl e, s5) \<Rightarrow> Some (Some e, s5)
                      | (Inr written', s5) \<Rightarrow> Some (None, s5)))))"
  proof -
    fix fuel P d
    have a: "ioErr (env\<lparr>Positions := P, ctxDone := d\<rparr>) OpNewLabelsWriter (clock s) = None"
      "ioErr (env\<lparr>Positions := P, ctxDone := d\<rparr>) OpWriterNumLabelsWritten (Suc (clock s)) = None"
      using nw nl by simp_all
    show "?thesis fuel P d"
      unfolding initFile_prefix [OF a] Let_def writer_oracle_free s2_def [symmetric] w [symmetric]
      by (rule refl)
  qed
  {
    assume e: "written = fn"
    let ?s' = "s2\<lparr>numLabelsWritten := fo + fn\<rparr>"
    have "\<forall>fuel P d. initFile fuel (env\<lparr>Positions := P, ctxDone := d\<rparr>) fi bs fo fn s = Some (None, ?s')"
      using pre e by simp
    moreover have "(\<forall>j. fileContent ?s' j = fileContent s j) \<and> numLabelsWritten ?s' = fo + fn \<and>
             nonce ?s' = nonce s \<and> nonceValue ?s' = nonceValue s \<and> metadata ?s' = metadata s"
      using s2 by simp
    ultimately show "\<exists>s'. (\<forall>fuel P d. initFile fuel (env\<lparr>Positions := P, ctxDone := d\<rparr>) fi bs fo fn s = Some (None, s')) \<and>
             (\<forall>j. fileContent s' j = fileContent s j) \<and> numLabelsWritten s' = fo + fn \<and>
             nonce s' = nonce s \<and> nonceValue s' = nonceValue s \<and> metadata s' = metadata s"
      by blast
  }
  {
    assume g: "fn < written"
    define s3 where "s3 = snd (writer_Truncate env fi fn s2)"
    have t: "writer_Truncate env fi fn s2 = (None, s3)"
      using writer_Truncate_ok(1) [OF tr, where s = s2 and fi = fi and n = fn] by (simp add: s3_def prod_eq_iff)
    have s3: "\<And>j. fileContent s3 j = (if j = fi then take (unat fn * labelSize) (fileContent s fi) else fileContent s j)"
      "nonce s3 = nonce s" "nonceValue s3 = nonceValue s" "metadata s3 = metadata s"
      using writer_Truncate_ok [OF tr, where s = s2 and fi = fi and n = fn] s2 by (simp_all add: s3_def)
    let ?s' = "s3\<lparr>numLabelsWritten := fo + fn\<rparr>"
    have ne: "written \<noteq> fn" using g by simp
    have r: "\<forall>fuel P d. initFile fuel (env\<lparr>Positions := P, ctxDone := d\<rparr>) fi bs fo fn s = Some (None, ?s')"
      using pre g ne t by simp
    have "unat fn * 16 \<le> length (fileContent s fi)"
      using g w truncate_length [of fn "length (fileContent s fi)"] by (simp add: labelSize_def)
    then have l: "length (fileContent ?s' fi) = unat fn * labelSize"
      using s3(1) [of fi] by (simp add: labelSize_def)
    have "fileContent ?s' fi = take (unat fn * labelSize) (fileContent s fi) \<and>
             (\<forall>j. j \<noteq> fi \<longrightarrow> fileContent ?s' j = fileContent s j) \<and> numLabelsWritten ?s' = fo + fn \<and>
             nonce ?s' = nonce s \<and> nonceValue ?s' = nonceValue s \<and> metadata ?s' = metadata s"
      using s3 by simp
    then show "\<exists>s'. (\<forall>fuel P d. initFile fuel (env\<lparr>Positions := P, ctxDone := d\<rparr>) fi bs fo fn s = Some (None, s')) \<and>
             fileContent s' fi = take (unat fn * labelSize) (fileContent s fi) \<and>
             length (fileContent s' fi) = unat fn * labelSize \<and>
             (\<forall>j. j \<noteq> fi \<longrightarrow> fileContent s' j = fileContent s j) \<and> numLabelsWritten s' = fo + fn \<and>
             nonce s' = nonce s \<and> nonceValue s' = nonceValue s \<and> metadata s' = metadata s"
      using r l by blast
  }
  {
    assume h: "written < fn \<and> bs \<noteq> 0 \<and> (\<forall>t. \<not> ctxDone env t) \<and> (\<forall>p. length (label p) = 16) \<and>
     (\<forall>t a b. \<exists>nf. Positions env t a b =
                Inr \<lparr>Output = labelsFrom label a (Suc (unat (b - a))), res_Nonce = nf\<rparr> \<and>
                (\<forall>n. nf = Some n \<longrightarrow> unat (n - a) \<le> unat (b - a)))"
    then have lt: "written < fn" and bs: "bs \<noteq> 0" and nc: "\<forall>t. \<not> ctxDone env t"
      and len: "\<forall>p. length (label p) = 16"
      and O: "\<forall>t a b. \<exists>nf. Positions env t a b =
                Inr \<lparr>Output = labelsFrom label a (Suc (unat (b - a))), res_Nonce = nf\<rparr> \<and>
                (\<forall>n. nf = Some n \<longrightarrow> unat (n - a) \<le> unat (b - a))"
      by simp_all
    have le: "written \<le> fn" using lt by simp
    from initFile_loop_completes [OF O nc wr len bs le, of fi fo s2]
    obtain fuel s3 where l: "initFile_loop fuel env fi bs fo fn written s2 = Some (None, s3)"
      "fileContent s3 fi = fileContent s2 fi @ labelsFrom label (fo + written) (unat (fn - written))"
      "\<forall>j. j \<noteq> fi \<longrightarrow> fileContent s3 j = fileContent s2 j"
      "numLabelsWritten s3 = fo + fn"
      using lt by blast
    let ?s' = "tick (tick s3)"
    have env: "env\<lparr>Positions := Positions env, ctxDone := ctxDone env\<rparr> = env" by simp
    have ne: "written \<noteq> fn" "\<not> fn < written" using lt by simp_all
    have "initFile fuel env fi bs fo fn s = Some (None, ?s')"
      using pre [where fuel = fuel and P = "Positions env" and d = "ctxDone env"] ne l(1)
        writer_Flush_ok [OF fl, where s = s3 and fi = fi] writer_NumLabelsWritten_ok [OF nl, where s = "tick s3" and fi = fi]
      by (simp add: env)
    moreover have c: "fileContent ?s' fi =
               fileContent s fi @ labelsFrom label (fo + written) (unat (fn - written))"
      using l(2) s2(1) by simp
    moreover have "of_nat (length (fileContent ?s' fi) div labelSize) = fn"
    proof -
      have "length (fileContent ?s' fi) =
              length (fileContent s fi) + 16 * unat (fn - written)"
        using length_labelsFrom [OF len, of "fo + written" "unat (fn - written)"]
        by (simp only: c length_append)
      moreover have "written = of_nat (length (fileContent s fi) div 16)"
        using w by (simp add: labelSize_def)
      ultimately show ?thesis
        using labels_reach_target [of written "length (fileContent s fi)" fn]
        by (simp only: labelSize_def)
    qed
    moreover have "\<forall>j. j \<noteq> fi \<longrightarrow> fileContent ?s' j = fileContent s j" using l(3) s2(1) by simp
    moreover have "numLabelsWritten ?s' = fo + fn" using l(4) by simp
    ultimately show "\<exists>fuel s'. initFile fuel env fi bs fo fn s = Some (None, s') \<and>
             fileContent s' fi =
               fileContent s fi @ labelsFrom label (fo + written) (unat (fn - written)) \<and>
             of_nat (length (fileContent s' fi) div labelSize) = fn \<and>
             (\<forall>j. j \<noteq> fi \<longrightarrow> fileContent s' j = fileContent s j) \<and>
             numLabelsWritten s' = fo + fn"
      by blast
  }
qed

theorem initFile_resumes_witness:
  "(2 :: u64) = of_nat (length (fileContent exampleDone 0) div labelSize) \<and>
   (\<exists>s'. (\<forall>fuel P d. initFile fuel (exampleQuiet\<lparr>Positions := P, ctxDone := d\<rparr>) 0 2 0 2 exampleDone
               = Some (None, s')) \<and>
         (\<forall>j. fileContent s' j = fileContent exampleDone j)) \<and>
   (1 :: u64) < 2 \<and>
   (\<exists>s'. (\<forall>fuel P d. initFile fuel (exampleQuiet\<lparr>Positions := P, ctxDone := d\<rparr>) 0 2 0 1 exampleDone
               = Some (None, s')) \<and>
         fileContent s' 0 = replicate 16 7 \<and> fileContent s' 1 = replicate 32 9) \<and>
   (2 :: u64) < 4 \<and> (2 :: u64) \<noteq> 0 \<and> (\<forall>t. \<not> ctxDone exampleQuiet t) \<and>
   (\<forall>p. length (exampleLabel p) = 16) \<and>
   (\<exists>fuel s'. initFile fuel exampleQuiet 0 2 0 4 exampleDone = Some (None, s') \<and>
         fileContent s' 0 = replicate 32 7 @ exampleLabel 2 @ exampleLabel 3 \<and>
         fileContent s' 1 = replicate 32 9)"
proof -
  have io: "\<forall>op t. op \<noteq> OpSaveMetadata \<longrightarrow> ioErr exampleQuiet op t = None"
    by (simp add: exampleQuiet_def exampleEnv_def)
  have c0: "fileContent exampleDone 0 = replicate 32 7" "fileContent exampleDone 1 = replicate 32 9"
    by (simp_all add: fileContent_def exampleDone_def)
  have w: "(2 :: u64) = of_nat (length (fileContent exampleDone 0) div labelSize)"
    by (simp add: c0 labelSize_def)
  have nc: "\<forall>t. \<not> ctxDone exampleQuiet t" by (simp add: exampleQuiet_def exampleEnv_def)
  have len: "\<forall>p. length (exampleLabel p) = 16" by (simp add: exampleLabel_def)
  have O: "\<forall>t a b. \<exists>nf. Positions exampleQuiet t a b =
                Inr \<lparr>Output = labelsFrom exampleLabel a (Suc (unat (b - a))), res_Nonce = nf\<rparr> \<and>
                (\<forall>n. nf = Some n \<longrightarrow> unat (n - a) \<le> unat (b - a))"
    by (simp add: exampleQuiet_def exampleEnv_def examplePositions_def Let_def labelsFrom_def o_def)
  have lf: "labelsFrom exampleLabel (0 + 2) (unat (4 - 2 :: u64)) = exampleLabel 2 @ exampleLabel 3"
    by (simp add: labelsFrom_def upt_rec)
  have tk: "take (unat (1 :: u64) * labelSize) (replicate 32 (7 :: byte)) = replicate 16 7"
    by (simp add: labelSize_def)
  note t2 = initFile_resumes [OF io w, where fn = 2 and bs = 2 and fo = 0 and label = exampleLabel]
  note t1 = initFile_resumes [OF io w, where fn = 1 and bs = 2 and fo = 0 and label = exampleLabel]
  note t4 = initFile_resumes [OF io w, where fn = 4 and bs = 2 and fo = 0 and label = exampleLabel]
  have a: "\<exists>s'. (\<forall>fuel P d. initFile fuel (exampleQuiet\<lparr>Positions := P, ctxDone := d\<rparr>) 0 2 0 2 exampleDone
               = Some (None, s')) \<and>
         (\<forall>j. fileContent s' j = fileContent exampleDone j)"
  proof -
    from t2 [THEN conjunct1, THEN mp, OF refl] obtain s' where
      "\<forall>fuel P d. initFile fuel (exampleQuiet\<lparr>Positions := P, ctxDone := d\<rparr>) 0 2 0 2 exampleDone
               = Some (None, s')"
      "\<forall>j. fileContent s' j = fileContent exampleDone j"
      by (elim exE conjE)
    then show ?thesis by (intro exI [of _ s'] conjI)
  qed
  have b: "\<exists>s'. (\<forall>fuel P d. initFile fuel (exampleQuiet\<lparr>Positions := P, ctxDone := d\<rparr>) 0 2 0 1 exampleDone
               = Some (None, s')) \<and>
         fileContent s' 0 = replicate 16 7 \<and> fileContent s' 1 = replicate 32 9"
  proof -
    have lt: "(1 :: u64) < 2" by simp
    from t1 [THEN conjunct2, THEN conjunct1, THEN mp, OF lt] obtain s' where s':
      "\<forall>fuel P d. initFile fuel (exampleQuiet\<lparr>Positions := P, ctxDone := d\<rparr>) 0 2 0 1 exampleDone
               = Some (None, s')"
      "fileContent s' 0 = take (unat (1 :: u64) * labelSize) (fileContent exampleDone 0)"
      "\<forall>j. j \<noteq> 0 \<longrightarrow> fileContent s' j = fileContent exampleDone j"
      by (elim exE conjE)
    have "fileContent s' 0 = replicate 16 7" using s'(2) by (simp only: c0 tk)
    moreover have "fileContent s' 1 = replicate 32 9" using s'(3) c0(2) by simp
    ultimately show ?thesis using s'(1) by (intro exI [of _ s'] conjI)
  qed
  have c: "\<exists>fuel s'. initFile fuel exampleQuiet 0 2 0 4 exampleDone = Some (None, s') \<and>
         fileContent s' 0 = replicate 32 7 @ exampleLabel 2 @ exampleLabel 3 \<and>
         fileContent s' 1 = replicate 32 9"
  proof -
    have lt: "(2 :: u64) < 4" and nz: "(2 :: u64) \<noteq> 0" by simp_all
    note prem = conjI [OF lt conjI [OF nz conjI [OF nc conjI [OF len O]]]]
    from t4 [THEN conjunct2, THEN conjunct2, THEN mp, OF prem] obtain fuel s' where s':
      "initFile fuel exampleQuiet 0 2 0 4 exampleDone = Some (None, s')"
      "fileContent s' 0 = fileContent exampleDone 0 @ labelsFrom exampleLabel (0 + 2) (unat (4 - 2 :: u64))"
      "\<forall>j. j \<noteq> 0 \<longrightarrow> fileContent s' j = fileContent exampleDone j"
      by (elim exE conjE)
    have "fileContent s' 0 = replicate 32 7 @ exampleLabel 2 @ exampleLabel 3"
      using s'(2) by (simp only: c0 lf)
    moreover have "fileContent s' 1 = replicate 32 9" using s'(3) c0(2) by simp
    ultimately show ?thesis using s'(1) by (intro exI [of _ fuel] exI [of _ s'] conjI)
  qed
  have lts: "(1 :: u64) < 2" "(2 :: u64) < 4" "(2 :: u64) \<noteq> 0" by simp_all
  show ?thesis using w a b c nc len lts by (intro conjI)
qed

text \<open>
  C10. The result of the save that follows a new best nonce is dropped. Whatever saves
  of the metadata fail during a run, \<open>Initialize\<close> returns the same result and leaves
  the same label files and the same Initializer in memory, all but the metadata file;
  so a failure to persist neither aborts the run nor is reported. At the batch where the
  save fails, the new nonce is retained in memory, the metadata file stays as it was,
  and the labels of the batch are written.
\<close>

theorem save_failure_is_dropped:
  "(\<exists>m'. Initialize fuel (savesFail env f) init =
          map_option (setMetadata m') (Initialize fuel env init)) \<and>
   (res_Nonce res = Some n \<and> nonceCandidate res n sp = Inr c \<and>
    (nonceValue s = None \<or> bytes_Compare c (the (nonceValue s)) < 0) \<and>
    ioErr env OpSaveMetadata (clock s) \<noteq> None \<longrightarrow>
      (\<exists>s'. initFile_nonce env res sp s = Inr s' \<and> nonceValue s' = Some c \<and> nonce s' = Some n \<and>
            metadata s' = metadata s \<and> files s' = files s)) \<and>
   (\<not> ctxDone env (clock t) \<and> b' = (if fn - cur < bs then fn - cur else bs) \<and>
    Positions env (Suc (clock t)) (fo + cur) (fo + cur + b' - 1) = Inr res \<and>
    res_Nonce res = Some n \<and> nonceCandidate res n (fo + cur) = Inr c \<and>
    (nonceValue t = None \<or> bytes_Compare c (the (nonceValue t)) < 0) \<and>
    ioErr env OpSaveMetadata (Suc (Suc (clock t))) \<noteq> None \<and>
    ioErr env OpWrite (Suc (Suc (Suc (clock t)))) = None \<longrightarrow>
      (\<exists>t'. initFile_batch env fi bs fo fn cur t = Inr (b', t') \<and>
            fileContent t' fi = fileContent t fi @ Output res \<and>
            nonce t' = Some n \<and> nonceValue t' = Some c \<and> metadata t' = metadata t))"
proof (intro conjI impI)
  show "\<exists>m'. Initialize fuel (savesFail env f) init =
          map_option (setMetadata m') (Initialize fuel env init)"
    by (rule Initialize_blind)
next
  assume a: "res_Nonce res = Some n \<and> nonceCandidate res n sp = Inr c \<and>
    (nonceValue s = None \<or> bytes_Compare c (the (nonceValue s)) < 0) \<and>
    ioErr env OpSaveMetadata (clock s) \<noteq> None"
  then have l: "length c = 16" using nonceCandidate_length by blast
  have "initFile_nonce env res sp s = Inr (retainNonce env n c s)"
    using a by (simp add: initFile_nonce_def)
  then show "\<exists>s'. initFile_nonce env res sp s = Inr s' \<and> nonceValue s' = Some c \<and> nonce s' = Some n \<and>
            metadata s' = metadata s \<and> files s' = files s"
    using retainNonce_save_fails [OF l, of s env n] a by simp
next
  assume a: "\<not> ctxDone env (clock t) \<and> b' = (if fn - cur < bs then fn - cur else bs) \<and>
    Positions env (Suc (clock t)) (fo + cur) (fo + cur + b' - 1) = Inr res \<and>
    res_Nonce res = Some n \<and> nonceCandidate res n (fo + cur) = Inr c \<and>
    (nonceValue t = None \<or> bytes_Compare c (the (nonceValue t)) < 0) \<and>
    ioErr env OpSaveMetadata (Suc (Suc (clock t))) \<noteq> None \<and>
    ioErr env OpWrite (Suc (Suc (Suc (clock t)))) = None"
  then have nd: "\<not> ctxDone env (clock t)" and b: "b' = (if fn - cur < bs then fn - cur else bs)"
    and P0: "Positions env (Suc (clock t)) (fo + cur) (fo + cur + b' - 1) = Inr res"
    and rn: "res_Nonce res = Some n" and nc: "nonceCandidate res n (fo + cur) = Inr c"
    by blast+
  have "clock (tick t) = Suc (clock t)" by (simp add: tick_def)
  then have P: "Positions env (clock (tick t)) (fo + cur) (fo + cur + b' - 1) = Inr res"
    using P0 by (simp only:)
  have l: "length c = 16" using nc by (rule nonceCandidate_length)
  define t2 where "t2 = tick (tick t)"
  have c2: "clock t2 = Suc (Suc (clock t))" "nonceValue t2 = nonceValue t" "metadata t2 = metadata t"
    "\<And>j. fileContent t2 j = fileContent t j"
    by (simp_all add: t2_def tick_def fileContent_def)
  have better: "nonceValue t2 = None \<or> bytes_Compare c (the (nonceValue t2)) < 0"
    and sf: "ioErr env OpSaveMetadata (clock t2) \<noteq> None"
    using a c2 by simp_all
  define t3 where "t3 = retainNonce env n c t2"
  note r = retainNonce_save_fails [OF l better sf, of n, folded t3_def]
  have fc3: "\<And>j. fileContent t3 j = fileContent t j" using r(4) c2(4) by (simp add: fileContent_def t2_def tick_def)
  have N: "initFile_nonce env res (fo + cur) (tick (tick t)) = Inr t3"
    using rn nc by (simp add: initFile_nonce_def t3_def t2_def)
  have w: "ioErr env OpWrite (clock t3) = None" using a r(5) c2(1) by simp
  define t4 where "t4 = snd (writer_Write env fi (Output res) t3)"
  have W: "writer_Write env fi (Output res) t3 = (None, t4)"
    using w by (simp add: writer_Write_def t4_def)
  have f4: "fileContent t4 fi = fileContent t fi @ Output res" "nonce t4 = Some n"
    "nonceValue t4 = Some c" "metadata t4 = metadata t"
    using w r fc3 c2 by (simp_all add: t4_def writer_Write_def tick_def fileContent_def update_conv')
  have "initFile_batch env fi bs fo fn cur t = Inr (b', t4\<lparr>numLabelsWritten := fo + cur + b'\<rparr>)"
    unfolding initFile_batch_unfold [OF nd b]
    by (simp only: P N W sum.case prod.case option.case)
  then show "\<exists>t'. initFile_batch env fi bs fo fn cur t = Inr (b', t') \<and>
            fileContent t' fi = fileContent t fi @ Output res \<and>
            nonce t' = Some n \<and> nonceValue t' = Some c \<and> metadata t' = metadata t"
    using f4 by (intro exI [of _ "t4\<lparr>numLabelsWritten := fo + cur + b'\<rparr>"]) simp
qed

theorem save_failure_is_dropped_witness:
  "Initialize 10 exampleDiskFull (exampleInit 1) =
     Some (None, snd (the (Initialize 10 exampleDiskFull (exampleInit 1)))) \<and>
   nonce (snd (the (Initialize 10 exampleDiskFull (exampleInit 1)))) = Some 3 \<and>
   nonceValue (snd (the (Initialize 10 exampleDiskFull (exampleInit 1)))) = Some (exampleLabel 3) \<and>
   metadata (snd (the (Initialize 10 exampleDiskFull (exampleInit 1)))) = None \<and>
   labelsOnDisk (snd (the (Initialize 10 exampleDiskFull (exampleInit 1)))) = 4 \<and>
   (\<exists>m'. Initialize 10 exampleDiskFull (exampleInit 1) =
          map_option (setMetadata m') (Initialize 10 exampleNonces (exampleInit 1))) \<and>
   ioErr exampleDiskFull OpSaveMetadata (clock (exampleInit 1)) \<noteq> None \<and>
   nonceCandidate exampleBatch 1 0 = Inr (exampleLabel 1) \<and>
   (\<exists>s'. initFile_nonce exampleDiskFull exampleBatch 0 (exampleInit 1) = Inr s' \<and>
         nonce s' = Some 1 \<and> metadata s' = None) \<and>
   Positions exampleDiskFull 1 0 1 = Inr exampleBatch \<and>
   (\<exists>t'. initFile_batch exampleDiskFull 0 2 0 2 0 (exampleInit 1) = Inr (2, t') \<and>
         fileContent t' 0 = exampleLabel 0 @ exampleLabel 1 \<and> nonce t' = Some 1 \<and>
         metadata t' = None)"
proof -
  have run: "fst (the (Initialize 10 exampleDiskFull (exampleInit 1))) = None \<and>
     Initialize 10 exampleDiskFull (exampleInit 1) \<noteq> None \<and>
     nonce (snd (the (Initialize 10 exampleDiskFull (exampleInit 1)))) = Some 3 \<and>
     nonceValue (snd (the (Initialize 10 exampleDiskFull (exampleInit 1)))) = Some (exampleLabel 3) \<and>
     metadata (snd (the (Initialize 10 exampleDiskFull (exampleInit 1)))) = None \<and>
     labelsOnDisk (snd (the (Initialize 10 exampleDiskFull (exampleInit 1)))) = 4"
    by code_simp
  then have r1: "Initialize 10 exampleDiskFull (exampleInit 1) =
     Some (None, snd (the (Initialize 10 exampleDiskFull (exampleInit 1))))"
    by (cases "Initialize 10 exampleDiskFull (exampleInit 1)") auto
  have sf: "ioErr exampleDiskFull OpSaveMetadata (clock (exampleInit 1)) \<noteq> None"
    "ioErr exampleDiskFull OpSaveMetadata (Suc (Suc (clock (exampleInit 1)))) \<noteq> None"
    "ioErr exampleDiskFull OpWrite (Suc (Suc (Suc (clock (exampleInit 1))))) = None"
    "\<not> ctxDone exampleDiskFull (clock (exampleInit 1))"
    by (simp_all add: exampleDiskFull_def savesFail_def exampleNonces_def exampleEnv_def)
  have nc: "nonceCandidate exampleBatch 1 0 = Inr (exampleLabel 1)" "res_Nonce exampleBatch = Some 1"
    by (simp_all add: nonceCandidate_def exampleBatch_def exampleLabel_def)
  have nv: "nonceValue (exampleInit 1) = None" "metadata (exampleInit 1) = None"
    "fileContent (exampleInit 1) 0 = []" "Output exampleBatch = exampleLabel 0 @ exampleLabel 1"
    by (simp_all add: exampleInit_def fileContent_def exampleBatch_def)
  have P: "Positions exampleDiskFull 1 0 1 = Inr exampleBatch"
    by (simp add: exampleDiskFull_def savesFail_def exampleNonces_def exampleEnv_def
        examplePositions_def exampleBatch_def Let_def upt_rec)
  have ck: "clock (exampleInit 1) = 0" by (simp add: exampleInit_def)
  note t = save_failure_is_dropped [where fuel = 10 and env = exampleNonces
      and f = "\<lambda>t. Some ''no space left on device''" and init = "exampleInit 1",
      folded exampleDiskFull_def]
  have a: "\<exists>m'. Initialize 10 exampleDiskFull (exampleInit 1) =
          map_option (setMetadata m') (Initialize 10 exampleNonces (exampleInit 1))"
    by (rule t [THEN conjunct1])
  note u = save_failure_is_dropped [where env = exampleDiskFull and res = exampleBatch and n = 1
      and sp = 0 and c = "exampleLabel 1" and s = "exampleInit 1" and t = "exampleInit 1"
      and b' = 2 and fn = 2 and cur = 0 and bs = 2 and fo = 0 and fi = 0]
  have b: "\<exists>s'. initFile_nonce exampleDiskFull exampleBatch 0 (exampleInit 1) = Inr s' \<and>
         nonce s' = Some 1 \<and> metadata s' = None"
  proof -
    have "res_Nonce exampleBatch = Some 1 \<and> nonceCandidate exampleBatch 1 0 = Inr (exampleLabel 1) \<and>
      (nonceValue (exampleInit 1) = None \<or>
         bytes_Compare (exampleLabel 1) (the (nonceValue (exampleInit 1))) < 0) \<and>
      ioErr exampleDiskFull OpSaveMetadata (clock (exampleInit 1)) \<noteq> None"
      using nc nv sf by simp
    from u [THEN conjunct2, THEN conjunct1, THEN mp, OF this]
    show ?thesis using nv by auto
  qed
  have c: "\<exists>t'. initFile_batch exampleDiskFull 0 2 0 2 0 (exampleInit 1) = Inr (2, t') \<and>
         fileContent t' 0 = exampleLabel 0 @ exampleLabel 1 \<and> nonce t' = Some 1 \<and>
         metadata t' = None"
  proof -
    have "\<not> ctxDone exampleDiskFull (clock (exampleInit 1)) \<and>
      (2 :: u64) = (if 2 - 0 < (2 :: u64) then 2 - 0 else 2) \<and>
      Positions exampleDiskFull (Suc (clock (exampleInit 1))) (0 + 0) (0 + 0 + 2 - 1) = Inr exampleBatch \<and>
      res_Nonce exampleBatch = Some 1 \<and> nonceCandidate exampleBatch 1 (0 + 0) = Inr (exampleLabel 1) \<and>
      (nonceValue (exampleInit 1) = None \<or>
         bytes_Compare (exampleLabel 1) (the (nonceValue (exampleInit 1))) < 0) \<and>
      ioErr exampleDiskFull OpSaveMetadata (Suc (Suc (clock (exampleInit 1)))) \<noteq> None \<and>
      ioErr exampleDiskFull OpWrite (Suc (Suc (Suc (clock (exampleInit 1))))) = None"
      using nc nv sf P ck by simp
    from u [THEN conjunct2, THEN conjunct2, THEN mp, OF this]
    show ?thesis using nv by auto
  qed
  show ?thesis using run r1 a b c sf(1) nc(1) P by (intro conjI) simp_all
qed

end
